(* ===== verification/Prelude.thy ===== *)
theory Prelude
  imports Complex_Main
begin

text \<open>
  What every component shares: the names of the development's theorem collections, Rust's
  \<^verbatim>\<open>Result\<close> as a sum, the fixed-width integers with their wrap-around and saturation, the
  \<^verbatim>\<open>f64\<close> values the code stores and compares, and the clock readings an operation makes.
\<close>

named_theorems op_defs \<open>unfolding equations of the modelled operations\<close>
named_theorems inv_defs \<open>unfolding equations of the invariants\<close>
named_theorems i64_simps \<open>wrap-around arithmetic that does not wrap\<close>

subsection \<open>Results\<close>

text \<open>
  \<^verbatim>\<open>anyhow::Result<T>\<close> is \<open>'e + 'a\<close>, with one error datatype per component and one
  constructor per \<^verbatim>\<open>bail!\<close> or \<^verbatim>\<open>context\<close> message. A method on \<^verbatim>\<open>&mut self\<close>
  returns its result together with the state it leaves, also when it fails: some methods write
  before they return an error.
\<close>

abbreviation Err :: "'e \<Rightarrow> 'e + 'a" where
  "Err \<equiv> Inl"

abbreviation Ok :: "'a \<Rightarrow> 'e + 'a" where
  "Ok \<equiv> Inr"

definition is_ok :: "'e + 'a \<Rightarrow> bool" where
  "is_ok r = (case r of Inl _ \<Rightarrow> False | Inr _ \<Rightarrow> True)"

lemma is_ok_simps [simp]: "is_ok (Ok x)" "\<not> is_ok (Err e)"
  by (simp_all add: is_ok_def)

lemma is_ok_iff: "is_ok r \<longleftrightarrow> (\<exists>x. r = Ok x)"
  by (cases r) auto

text \<open>\<^verbatim>\<open>Option::is_none_or\<close> and \<^verbatim>\<open>Option::is_some_and\<close>.\<close>

definition is_none_or :: "'a option \<Rightarrow> ('a \<Rightarrow> bool) \<Rightarrow> bool" where
  "is_none_or x P = (case x of None \<Rightarrow> True | Some y \<Rightarrow> P y)"

definition is_some_and :: "'a option \<Rightarrow> ('a \<Rightarrow> bool) \<Rightarrow> bool" where
  "is_some_and x P = (case x of None \<Rightarrow> False | Some y \<Rightarrow> P y)"

lemma option_test_simps [simp]:
  "is_none_or None P" "is_none_or (Some y) P = P y"
  "\<not> is_some_and None P" "is_some_and (Some y) P = P y"
  by (simp_all add: is_none_or_def is_some_and_def)

lemma is_some_and_iff: "is_some_and x P \<longleftrightarrow> (\<exists>y. x = Some y \<and> P y)"
  by (cases x) auto

lemma is_none_or_iff: "is_none_or x P \<longleftrightarrow> (\<forall>y. x = Some y \<longrightarrow> P y)"
  by (cases x) auto

subsection \<open>Fixed-width integers\<close>

text \<open>
  The shipped binaries are release builds (\<^verbatim>\<open>Dockerfile\<close>), where \<^verbatim>\<open>+\<close>, \<^verbatim>\<open>-\<close>,
  \<^verbatim>\<open>*\<close> and \<^verbatim>\<open>Iterator::sum\<close> on a fixed-width integer wrap around. An \<^verbatim>\<open>i64\<close> is an
  \<open>int\<close> and every arithmetic step of the code goes through \<open>to_i64\<close>; \<^verbatim>\<open>u8\<close>,
  \<^verbatim>\<open>u32\<close>, \<^verbatim>\<open>u64\<close>, \<^verbatim>\<open>u128\<close> and \<^verbatim>\<open>usize\<close> are \<open>nat\<close> with the wrap-around or the
  saturation written out.
\<close>

definition to_i64 :: "int \<Rightarrow> int" where
  "to_i64 z = (z + 2 ^ 63) mod 2 ^ 64 - 2 ^ 63"

definition i64_ok :: "int \<Rightarrow> bool" where
  "i64_ok z \<longleftrightarrow> - (2 ^ 63) \<le> z \<and> z < 2 ^ 63"

lemma to_i64_id [i64_simps]: "i64_ok z \<Longrightarrow> to_i64 z = z"
  by (simp add: to_i64_def i64_ok_def)

lemma i64_ok_to_i64 [simp]: "i64_ok (to_i64 z)"
  by (simp add: to_i64_def i64_ok_def)

lemma to_i64_idem [simp]: "to_i64 (to_i64 z) = to_i64 z"
  by (simp add: to_i64_id)

lemma to_i64_cong: "a mod 2 ^ 64 = b mod 2 ^ 64 \<Longrightarrow> to_i64 a = to_i64 b"
  unfolding to_i64_def by (metis mod_add_left_eq)

lemma to_i64_mod: "to_i64 a mod 2 ^ 64 = a mod 2 ^ 64"
  unfolding to_i64_def by (simp add: mod_diff_left_eq)

lemma to_i64_add_left [simp]: "to_i64 (to_i64 a + b) = to_i64 (a + b)"
  by (rule to_i64_cong) (metis to_i64_mod mod_add_left_eq)

lemma to_i64_add_right [simp]: "to_i64 (a + to_i64 b) = to_i64 (a + b)"
  by (metis add.commute to_i64_add_left)

lemma to_i64_small [i64_simps]: "0 \<le> z \<Longrightarrow> z < 2 ^ 63 \<Longrightarrow> to_i64 z = z"
  by (simp add: to_i64_id i64_ok_def)

text \<open>Division of signed integers rounds towards zero.\<close>

definition i64_div :: "int \<Rightarrow> int \<Rightarrow> int" where
  "i64_div a b = to_i64 (sgn a * sgn b * (\<bar>a\<bar> div \<bar>b\<bar>))"

definition clamp_i64 :: "int \<Rightarrow> int \<Rightarrow> int \<Rightarrow> int" where
  "clamp_i64 lo hi z = (if z < lo then lo else if z > hi then hi else z)"

lemma clamp_i64_bounds: "lo \<le> hi \<Longrightarrow> lo \<le> clamp_i64 lo hi z \<and> clamp_i64 lo hi z \<le> hi"
  by (simp add: clamp_i64_def)

definition u8_max :: nat where "u8_max = 255"

definition u32_max :: nat where "u32_max = 4294967295"

definition u128_max :: nat where "u128_max = 2 ^ 128 - 1"

definition i64_max :: int where "i64_max = 2 ^ 63 - 1"

text \<open>\<^verbatim>\<open>i64::try_from(n).unwrap_or(i64::MAX)\<close> on a \<^verbatim>\<open>usize\<close>.\<close>

definition i64_of_usize :: "nat \<Rightarrow> int" where
  "i64_of_usize n = (if int n \<le> i64_max then int n else i64_max)"

definition sat_add :: "nat \<Rightarrow> nat \<Rightarrow> nat \<Rightarrow> nat" where
  "sat_add hi a b = min hi (a + b)"

lemma sat_add_mono: "a \<le> a' \<Longrightarrow> b \<le> b' \<Longrightarrow> sat_add hi a b \<le> sat_add hi a' b'"
  by (auto simp: sat_add_def min_def)

lemma sat_add_le [simp]: "sat_add hi a b \<le> hi"
  by (simp add: sat_add_def)

lemma sat_add_ge_left: "a \<le> hi \<Longrightarrow> a \<le> sat_add hi a b"
  by (simp add: sat_add_def)

subsection \<open>Floating point\<close>

text \<open>
  The code stores \<^verbatim>\<open>f64\<close> values and compares them with constants; it does no arithmetic on
  them in the modelled parts. A finite \<^verbatim>\<open>f64\<close> is the rational number it denotes.
\<close>

datatype f64 = F64_NaN | F64_Inf bool | F64_Fin rat

fun f64_le :: "f64 \<Rightarrow> f64 \<Rightarrow> bool" where
  "f64_le F64_NaN _ = False"
| "f64_le _ F64_NaN = False"
| "f64_le (F64_Inf neg) y = (neg \<or> y = F64_Inf False)"
| "f64_le (F64_Fin x) (F64_Inf neg) = (\<not> neg)"
| "f64_le (F64_Fin x) (F64_Fin y) = (x \<le> y)"

subsection \<open>Running a sequence of operations\<close>

definition run :: "('s \<Rightarrow> 'o \<Rightarrow> 's) \<Rightarrow> 's \<Rightarrow> 'o list \<Rightarrow> 's" where
  "run step s ops = foldl step s ops"

lemma run_simps [simp]:
  "run step s [] = s"
  "run step s (p # ps) = run step (step s p) ps"
  by (simp_all add: run_def)

lemma run_append [simp]: "run step s (ps @ qs) = run step (run step s ps) qs"
  by (simp add: run_def)

lemma run_snoc: "run step s (ps @ [p]) = step (run step s ps) p"
  by simp

subsection \<open>Lists\<close>

lemma find_Some_iff2: "List.find P xs = Some x \<Longrightarrow> x \<in> set xs \<and> P x"
  by (metis find_Some_iff nth_mem)

lemma find_None_iff2: "List.find P xs = None \<longleftrightarrow> (\<forall>x \<in> set xs. \<not> P x)"
  by (auto simp: find_None_iff)

lemma sum_list_filter_if:
  "sum_list (map f (filter P xs)) = sum_list (map (\<lambda>x. if P x then f x else 0) xs)"
  by (induction xs) auto

lemma sum_list_all_zero: "(\<And>x. x \<in> set xs \<Longrightarrow> f x = 0) \<Longrightarrow> sum_list (map f xs) = 0"
  by (induction xs) auto

end
