(* ===== verification/BTree.thy ===== *)
theory BTree
  imports Prelude "HOL-Library.Char_ord" "HOL-Library.List_Lexorder" "HOL-Library.Product_Lexorder"
begin

text \<open>
  \<^verbatim>\<open>std::collections::BTreeMap\<close> and \<^verbatim>\<open>BTreeSet\<close>. A map is the list of its entries in
  strictly ascending key order, which is what iteration yields; a set is a map to \<open>unit\<close>.
  Rust orders \<^verbatim>\<open>String\<close> keys by their UTF-8 bytes, which is the lexicographic order of the
  list of bytes.
\<close>

subsection \<open>Entries in key order\<close>

fun ins_entry :: "'k::linorder \<Rightarrow> 'v \<Rightarrow> ('k \<times> 'v) list \<Rightarrow> ('k \<times> 'v) list" where
  "ins_entry k v [] = [(k, v)]"
| "ins_entry k v ((j, w) # es) =
     (if k < j then (k, v) # (j, w) # es
      else if k = j then (k, v) # es
      else (j, w) # ins_entry k v es)"

lemma set_keys_ins_entry: "fst ` set (ins_entry k v es) = insert k (fst ` set es)"
  by (induction k v es rule: ins_entry.induct) auto

lemma sorted_ins_entry:
  "sorted_wrt (<) (map fst es) \<Longrightarrow> sorted_wrt (<) (map fst (ins_entry k v es))"
proof (induction k v es rule: ins_entry.induct)
  case (2 k v j w es)
  have "set (map fst (ins_entry k v es)) = insert k (fst ` set es)"
    by (simp add: set_keys_ins_entry)
  with 2 show ?case by auto
qed simp

lemma map_of_ins_entry:
  "sorted_wrt (<) (map fst es) \<Longrightarrow> map_of (ins_entry k v es) = (map_of es)(k \<mapsto> v)"
proof (induction k v es rule: ins_entry.induct)
  case (2 k v j w es)
  then show ?case by (auto simp: fun_eq_iff)
qed simp

typedef (overloaded) ('k::linorder, 'v) btree_map =
  "{es :: ('k \<times> 'v) list. sorted_wrt (<) (map fst es)}"
  morphisms entries Btree_map
  by (rule exI [of _ "[]"]) simp

setup_lifting type_definition_btree_map

lift_definition bempty :: "('k::linorder, 'v) btree_map" is "[]"
  by simp

lift_definition binsert :: "'k::linorder \<Rightarrow> 'v \<Rightarrow> ('k, 'v) btree_map \<Rightarrow> ('k, 'v) btree_map"
  is ins_entry
  by (rule sorted_ins_entry)

text \<open>\<^verbatim>\<open>BTreeMap::retain\<close>, and \<^verbatim>\<open>BTreeMap::remove\<close> as the retaining of the other keys.\<close>

lift_definition bretain :: "('k::linorder \<Rightarrow> 'v \<Rightarrow> bool) \<Rightarrow> ('k, 'v) btree_map \<Rightarrow> ('k, 'v) btree_map"
  is "\<lambda>P es. filter (\<lambda>(k, v). P k v) es"
proof -
  fix P :: "'k \<Rightarrow> 'v \<Rightarrow> bool" and es :: "('k \<times> 'v) list"
  assume "sorted_wrt (<) (map fst es)"
  then show "sorted_wrt (<) (map fst (filter (\<lambda>(k, v). P k v) es))"
    by (induction es) auto
qed

definition bremove :: "'k::linorder \<Rightarrow> ('k, 'v) btree_map \<Rightarrow> ('k, 'v) btree_map" where
  "bremove k m = bretain (\<lambda>j _. j \<noteq> k) m"

text \<open>A pass over \<^verbatim>\<open>values_mut()\<close>.\<close>

lift_definition bmap_values :: "('v \<Rightarrow> 'w) \<Rightarrow> ('k::linorder, 'v) btree_map \<Rightarrow> ('k, 'w) btree_map"
  is "\<lambda>f es. map (\<lambda>(k, v). (k, f v)) es"
  by (simp add: comp_def case_prod_beta)

definition bget :: "('k::linorder, 'v) btree_map \<Rightarrow> 'k \<Rightarrow> 'v option" where
  "bget m k = map_of (entries m) k"

definition bvalues :: "('k::linorder, 'v) btree_map \<Rightarrow> 'v list" where
  "bvalues m = map snd (entries m)"

definition bkeys :: "('k::linorder, 'v) btree_map \<Rightarrow> 'k list" where
  "bkeys m = map fst (entries m)"

definition blen :: "('k::linorder, 'v) btree_map \<Rightarrow> nat" where
  "blen m = length (entries m)"

definition bcontains :: "('k::linorder, 'v) btree_map \<Rightarrow> 'k \<Rightarrow> bool" where
  "bcontains m k = (bget m k \<noteq> None)"

definition bget_or :: "'v \<Rightarrow> ('k::linorder, 'v) btree_map \<Rightarrow> 'k \<Rightarrow> 'v" where
  "bget_or d m k = (case bget m k of None \<Rightarrow> d | Some v \<Rightarrow> v)"

lemma entries_simps [simp]:
  "entries bempty = []"
  "entries (binsert k v m) = ins_entry k v (entries m)"
  "entries (bretain P m) = filter (\<lambda>(k, v). P k v) (entries m)"
  "entries (bmap_values f m) = map (\<lambda>(k, v). (k, f v)) (entries m)"
  by (transfer, simp)+

lemma sorted_entries: "sorted_wrt (<) (map fst (entries m))"
  using entries [of m] by simp

lemma distinct_keys [simp]: "distinct (map fst (entries m))"
  using strict_sorted_iff sorted_entries by blast

lemma distinct_entries [simp]: "distinct (entries m)"
  using distinct_keys [of m] by (simp add: distinct_map)

lemma distinct_bkeys [simp]: "distinct (bkeys m)"
  by (simp add: bkeys_def)

lemma bget_bempty [simp]: "bget bempty k = None"
  by (simp add: bget_def)

lemma bget_binsert [simp]: "bget (binsert k v m) j = (if j = k then Some v else bget m j)"
  by (simp add: bget_def map_of_ins_entry sorted_entries)

lemma bget_binsert_fun: "bget (binsert k v m) = (bget m)(k \<mapsto> v)"
  by (simp add: fun_eq_iff)

lemma in_entries_iff: "(k, v) \<in> set (entries m) \<longleftrightarrow> bget m k = Some v"
  by (simp add: bget_def)

lemma map_of_filter_distinct:
  "distinct (map fst es) \<Longrightarrow> map_of (filter (\<lambda>(k, v). P k v) es) k =
     (case map_of es k of None \<Rightarrow> None | Some v \<Rightarrow> if P k v then Some v else None)"
proof (induction es)
  case (Cons e es)
  moreover have "map_of es (fst e) = None"
    using Cons.prems by (simp add: map_of_eq_None_iff)
  ultimately show ?case by (cases e) (auto split: option.splits)
qed simp

lemma bget_bretain:
  "bget (bretain P m) k = (case bget m k of None \<Rightarrow> None | Some v \<Rightarrow> if P k v then Some v else None)"
  by (simp add: bget_def map_of_filter_distinct)

lemma bget_bremove [simp]: "bget (bremove k m) j = (if j = k then None else bget m j)"
  by (simp add: bremove_def bget_bretain split: option.splits)

lemma bget_bmap_values [simp]: "bget (bmap_values f m) k = map_option f (bget m k)"
proof -
  have "map_of (map (\<lambda>(k, v). (k, f v)) es) k = map_option f (map_of es k)" for es
    by (induction es) auto
  then show ?thesis by (simp add: bget_def)
qed

lemma set_bvalues: "v \<in> set (bvalues m) \<longleftrightarrow> (\<exists>k. bget m k = Some v)"
proof -
  have "v \<in> set (bvalues m) \<longleftrightarrow> (\<exists>k. (k, v) \<in> set (entries m))"
    by (force simp: bvalues_def)
  then show ?thesis by (simp only: in_entries_iff)
qed

lemma set_bkeys: "k \<in> set (bkeys m) \<longleftrightarrow> bget m k \<noteq> None"
proof -
  have "k \<in> set (bkeys m) \<longleftrightarrow> (\<exists>v. (k, v) \<in> set (entries m))"
    by (force simp: bkeys_def)
  then show ?thesis by (auto simp: in_entries_iff)
qed

lemma bcontains_iff [simp]: "bcontains m k \<longleftrightarrow> (\<exists>v. bget m k = Some v)"
  by (auto simp: bcontains_def)

lemma finite_bget_dom [simp]: "finite (dom (bget m))"
proof -
  have "dom (bget m) = set (bkeys m)" by (auto simp: set_bkeys)
  then show ?thesis by simp
qed

lemma btree_map_eqI: "(\<And>k. bget m k = bget m' k) \<Longrightarrow> m = m'"
proof -
  assume eq: "\<And>k. bget m k = bget m' k"
  have "set (entries m) = set (entries m')"
    by (auto simp: in_entries_iff eq)
  moreover have "sorted (map fst (entries m))" "sorted (map fst (entries m'))"
    using sorted_entries strict_sorted_iff by blast+
  ultimately have "entries m = entries m'"
    using map_sorted_distinct_set_unique [of fst "entries m" "entries m'"]
      distinct_keys [of m] distinct_keys [of m'] by (metis distinct_map inj_on_Un sup.idem)
  then show ?thesis by (simp add: entries_inject)
qed

lemma btree_map_eq_iff: "m = m' \<longleftrightarrow> (\<forall>k. bget m k = bget m' k)"
  using btree_map_eqI by blast

instantiation btree_map :: (linorder, equal) equal
begin

definition equal_btree_map :: "('a, 'b) btree_map \<Rightarrow> ('a, 'b) btree_map \<Rightarrow> bool" where
  "equal_btree_map m m' = (entries m = entries m')"

instance
  by standard (simp add: equal_btree_map_def entries_inject)

end

subsection \<open>The interface its clients use\<close>

text \<open>
  An ordered map as its clients see it: what a lookup returns after each update, and that the
  entries are those of the lookup, each key once. What follows for sums over the entries is
  proved once here.
\<close>

locale ordered_map =
  fixes get :: "'m \<Rightarrow> 'k \<Rightarrow> 'v option"
    and upd :: "'k \<Rightarrow> 'v \<Rightarrow> 'm \<Rightarrow> 'm"
    and del :: "'k \<Rightarrow> 'm \<Rightarrow> 'm"
    and ents :: "'m \<Rightarrow> ('k \<times> 'v) list"
  assumes get_upd: "get (upd k v m) j = (if j = k then Some v else get m j)"
    and get_del: "get (del k m) j = (if j = k then None else get m j)"
    and ents_get: "(k, v) \<in> set (ents m) \<longleftrightarrow> get m k = Some v"
    and ents_distinct: "distinct (map fst (ents m))"
begin

lemma distinct_ents: "distinct (ents m)"
  using ents_distinct [of m] by (simp add: distinct_map)

lemma set_ents_upd: "set (ents (upd k v m)) = insert (k, v) {(j, w). j \<noteq> k \<and> get m j = Some w}"
  by (auto simp: ents_get get_upd split: if_splits)

lemma set_ents_del: "set (ents (del k m)) = {(j, w). j \<noteq> k \<and> get m j = Some w}"
  by (auto simp: ents_get get_del split: if_splits)

lemma finite_others: "finite {(j, w). j \<noteq> k \<and> get m j = Some w}"
  by (rule finite_subset [of _ "set (ents m)"]) (auto simp: ents_get)

lemma sum_ents: "sum_list (map f (ents m)) = sum f (set (ents m))"
  by (simp add: sum_list_distinct_conv_sum_set distinct_ents)

text \<open>The sum over the entries after an update changes by what the updated entry changes.\<close>

lemma sum_upd:
  fixes f :: "'k \<times> 'v \<Rightarrow> 'a::ab_group_add"
  shows "sum_list (map f (ents (upd k v m))) =
     sum_list (map f (ents m)) + f (k, v) - (case get m k of None \<Rightarrow> 0 | Some w \<Rightarrow> f (k, w))"
proof -
  let ?R = "{(j, w). j \<noteq> k \<and> get m j = Some w}"
  have new: "sum f (set (ents (upd k v m))) = f (k, v) + sum f ?R"
    by (simp add: set_ents_upd finite_others)
  have "set (ents m) = (case get m k of None \<Rightarrow> ?R | Some w \<Rightarrow> insert (k, w) ?R)"
    by (auto simp: ents_get split: option.splits)
  then have "sum f (set (ents m)) = (case get m k of None \<Rightarrow> 0 | Some w \<Rightarrow> f (k, w)) + sum f ?R"
    by (auto simp: finite_others split: option.splits)
  with new show ?thesis by (simp add: sum_ents)
qed

lemma sum_del:
  fixes f :: "'k \<times> 'v \<Rightarrow> 'a::ab_group_add"
  shows "sum_list (map f (ents (del k m))) =
     sum_list (map f (ents m)) - (case get m k of None \<Rightarrow> 0 | Some w \<Rightarrow> f (k, w))"
proof -
  let ?R = "{(j, w). j \<noteq> k \<and> get m j = Some w}"
  have "set (ents m) = (case get m k of None \<Rightarrow> ?R | Some w \<Rightarrow> insert (k, w) ?R)"
    by (auto simp: ents_get split: option.splits)
  then have "sum f (set (ents m)) = (case get m k of None \<Rightarrow> 0 | Some w \<Rightarrow> f (k, w)) + sum f ?R"
    by (auto simp: finite_others split: option.splits)
  then show ?thesis by (simp add: sum_ents set_ents_del)
qed

end

interpretation bmap: ordered_map bget binsert bremove entries
  by unfold_locales (simp_all add: in_entries_iff)

subsection \<open>Sets\<close>

type_synonym 'a btree_set = "('a, unit) btree_map"

definition bs_insert :: "'a::linorder \<Rightarrow> 'a btree_set \<Rightarrow> 'a btree_set" where
  "bs_insert x s = binsert x () s"

abbreviation bs_remove :: "'a::linorder \<Rightarrow> 'a btree_set \<Rightarrow> 'a btree_set" where
  "bs_remove \<equiv> bremove"

definition bs_member :: "'a::linorder \<Rightarrow> 'a btree_set \<Rightarrow> bool" where
  "bs_member x s = (bget s x \<noteq> None)"

abbreviation bs_elems :: "'a::linorder btree_set \<Rightarrow> 'a list" where
  "bs_elems \<equiv> bkeys"

abbreviation bs_len :: "'a::linorder btree_set \<Rightarrow> nat" where
  "bs_len \<equiv> blen"

definition bs_set :: "'a::linorder btree_set \<Rightarrow> 'a set" where
  "bs_set s = dom (bget s)"

definition bs_of_list :: "'a::linorder list \<Rightarrow> 'a btree_set" where
  "bs_of_list xs = foldl (\<lambda>s x. bs_insert x s) bempty xs"

lemma bs_set_simps [simp]:
  "bs_set bempty = {}"
  "bs_set (bs_insert x s) = insert x (bs_set s)"
  "bs_set (bremove x s) = bs_set s - {x}"
  by (auto simp: bs_set_def bs_insert_def split: if_splits)

lemma bs_member_iff [simp]: "bs_member x s \<longleftrightarrow> x \<in> bs_set s"
  by (auto simp: bs_member_def bs_set_def)

lemma finite_bs_set [simp]: "finite (bs_set s)"
  by (simp add: bs_set_def)

lemma set_bs_elems [simp]: "set (bs_elems s) = bs_set s"
  by (auto simp: bs_set_def set_bkeys)

lemma bs_len_card: "bs_len s = card (bs_set s)"
  by (metis blen_def bkeys_def distinct_bkeys distinct_card length_map set_bs_elems)

lemma bs_set_of_list [simp]: "bs_set (bs_of_list xs) = set xs"
proof -
  have "bs_set (foldl (\<lambda>s x. bs_insert x s) s xs) = set xs \<union> bs_set s" for s
    by (induction xs arbitrary: s) auto
  then show ?thesis by (simp add: bs_of_list_def)
qed

lemma bs_eq_iff: "s = s' \<longleftrightarrow> bs_set s = bs_set s'"
proof
  assume eq: "bs_set s = bs_set s'"
  have "bget s x = bget s' x" for x
    using eq by (cases "bget s x"; cases "bget s' x") (auto simp: bs_set_def)
  then show "s = s'" by (rule btree_map_eqI)
qed simp

end
