(* ===== verification/Rust_Str.thy ===== *)
theory Rust_Str
  imports BTree "HOL-Library.Sublist"
begin

text \<open>
  \<^verbatim>\<open>String\<close> and \<^verbatim>\<open>&str\<close> as lists of their UTF-8 bytes, and the parts of
  \<^verbatim>\<open>str\<close> the program uses: \<^verbatim>\<open>trim\<close>, ASCII case, \<^verbatim>\<open>split\<close>, \<^verbatim>\<open>starts_with\<close>,
  decimal printing and parsing of unsigned integers.
\<close>

subsection \<open>White space\<close>

text \<open>The UTF-8 encodings of the characters with the Unicode property \<^verbatim>\<open>White_Space\<close>.\<close>

definition white_space :: "string list" where
  "white_space =
     [[CHR 0x09], [CHR 0x0A], [CHR 0x0B], [CHR 0x0C], [CHR 0x0D], [CHR 0x20],
      [CHR 0xC2, CHR 0x85], [CHR 0xC2, CHR 0xA0], [CHR 0xE1, CHR 0x9A, CHR 0x80],
      [CHR 0xE2, CHR 0x80, CHR 0x80], [CHR 0xE2, CHR 0x80, CHR 0x81], [CHR 0xE2, CHR 0x80, CHR 0x82],
      [CHR 0xE2, CHR 0x80, CHR 0x83], [CHR 0xE2, CHR 0x80, CHR 0x84], [CHR 0xE2, CHR 0x80, CHR 0x85],
      [CHR 0xE2, CHR 0x80, CHR 0x86], [CHR 0xE2, CHR 0x80, CHR 0x87], [CHR 0xE2, CHR 0x80, CHR 0x88],
      [CHR 0xE2, CHR 0x80, CHR 0x89], [CHR 0xE2, CHR 0x80, CHR 0x8A], [CHR 0xE2, CHR 0x80, CHR 0xA8],
      [CHR 0xE2, CHR 0x80, CHR 0xA9], [CHR 0xE2, CHR 0x80, CHR 0xAF], [CHR 0xE2, CHR 0x81, CHR 0x9F],
      [CHR 0xE3, CHR 0x80, CHR 0x80]]"

definition match_prefix :: "string list \<Rightarrow> string \<Rightarrow> string option" where
  "match_prefix ps s = List.find (\<lambda>p. p \<noteq> [] \<and> prefix p s) ps"

lemma match_prefix_shorter: "match_prefix ps s = Some p \<Longrightarrow> length (drop (length p) s) < length s"
  unfolding match_prefix_def by (drule find_Some_iff2) (auto elim!: prefixE)

function strip_prefixes :: "string list \<Rightarrow> string \<Rightarrow> string" where
  "strip_prefixes ps s =
     (case match_prefix ps s of
        None \<Rightarrow> s
      | Some p \<Rightarrow> strip_prefixes ps (drop (length p) s))"
  by pat_completeness auto
termination
  by (relation "measure (\<lambda>(ps, s). length s)") (auto dest: match_prefix_shorter)

declare strip_prefixes.simps [simp del]

definition trim_start :: "string \<Rightarrow> string" where
  "trim_start s = strip_prefixes white_space s"

definition trim_end :: "string \<Rightarrow> string" where
  "trim_end s = rev (strip_prefixes (map rev white_space) (rev s))"

definition trim :: "string \<Rightarrow> string" where
  "trim s = trim_end (trim_start s)"

definition blank :: "string \<Rightarrow> bool" where
  "blank s = (trim s = [])"

lemma match_strip_prefixes: "match_prefix ps (strip_prefixes ps s) = None"
proof (induction ps s rule: strip_prefixes.induct)
  case (1 ps s)
  then show ?case by (subst strip_prefixes.simps) (auto split: option.splits)
qed

lemma strip_prefixes_none: "match_prefix ps s = None \<Longrightarrow> strip_prefixes ps s = s"
  by (subst strip_prefixes.simps) simp

lemma strip_prefixes_suffix: "suffix (strip_prefixes ps s) s"
proof (induction ps s rule: strip_prefixes.induct)
  case (1 ps s)
  show ?case
  proof (cases "match_prefix ps s")
    case None
    then show ?thesis by (simp add: strip_prefixes_none)
  next
    case (Some p)
    with 1 have "suffix (strip_prefixes ps (drop (length p) s)) (drop (length p) s)" by simp
    with Some show ?thesis
      by (subst strip_prefixes.simps) (simp, meson suffix_drop suffix_order.trans)
  qed
qed

lemma match_prefix_mono: "match_prefix ps s = None \<Longrightarrow> prefix t s \<Longrightarrow> match_prefix ps t = None"
  by (auto simp: match_prefix_def find_None_iff2 dest: prefix_order.trans)

lemma trim_end_prefix: "prefix (trim_end s) s"
  using strip_prefixes_suffix [of "map rev white_space" "rev s"]
  by (simp add: trim_end_def suffix_to_prefix)

lemma set_trim: "set (trim s) \<subseteq> set s"
proof -
  have "set (trim s) \<subseteq> set (trim_start s)"
    unfolding trim_def by (rule set_mono_prefix [OF trim_end_prefix])
  also have "\<dots> \<subseteq> set s"
    unfolding trim_start_def by (rule set_mono_suffix [OF strip_prefixes_suffix])
  finally show ?thesis .
qed

lemma trim_end_idem: "trim_end (trim_end s) = trim_end s"
  by (simp add: trim_end_def strip_prefixes_none match_strip_prefixes)

lemma trim_idem [simp]: "trim (trim s) = trim s"
proof -
  have "match_prefix white_space (trim s) = None"
    unfolding trim_def
    by (rule match_prefix_mono [OF _ trim_end_prefix]) (simp add: trim_start_def match_strip_prefixes)
  then have "trim_start (trim s) = trim s"
    by (simp add: trim_start_def strip_prefixes_none)
  then show ?thesis by (simp add: trim_def trim_end_idem)
qed

definition printable :: "char \<Rightarrow> bool" where
  "printable c \<longleftrightarrow> 32 < (of_char c :: nat) \<and> (of_char c :: nat) < 128"

lemma white_space_not_printable: "p \<in> set white_space \<Longrightarrow> c \<in> set p \<Longrightarrow> \<not> printable c"
  by (auto simp: white_space_def printable_def)

lemma strip_printable:
  assumes "\<And>p c. p \<in> set ps \<Longrightarrow> c \<in> set p \<Longrightarrow> \<not> printable c" and "list_all printable s"
  shows "strip_prefixes ps s = s"
proof -
  have "\<not> prefix p s" if "p \<in> set ps" and "p \<noteq> []" for p
    using assms(2) assms(1) [OF that(1), of "hd p"] that(2)
    by (metis hd_in_set list_all_iff set_mono_prefix subsetD)
  then have "match_prefix ps s = None" by (auto simp: match_prefix_def find_None_iff2)
  then show ?thesis by (rule strip_prefixes_none)
qed

text \<open>A string of visible ASCII characters is its own trimming.\<close>

lemma trim_printable:
  assumes "list_all printable s"
  shows "trim s = s"
proof -
  have "strip_prefixes white_space s = s"
    by (rule strip_printable [OF white_space_not_printable assms])
  moreover have "strip_prefixes (map rev white_space) (rev s) = rev s"
    using assms by (intro strip_printable) (auto simp: list_all_iff dest: white_space_not_printable)
  ultimately show ?thesis by (simp add: trim_def trim_start_def trim_end_def)
qed

lemma trim_Nil [simp]: "trim [] = []"
  by (simp add: trim_def trim_start_def trim_end_def strip_prefixes_none match_prefix_def
      find_None_iff2)

lemma blank_Nil [simp]: "blank []"
  by (simp add: blank_def)

lemma blank_trim [simp]: "blank (trim s) = blank s"
  by (simp add: blank_def)

subsection \<open>ASCII\<close>

definition ascii_lower :: "char \<Rightarrow> char" where
  "ascii_lower c = (if CHR ''A'' \<le> c \<and> c \<le> CHR ''Z'' then char_of (of_char c + 32 :: nat) else c)"

definition ascii_upper :: "char \<Rightarrow> char" where
  "ascii_upper c = (if CHR ''a'' \<le> c \<and> c \<le> CHR ''z'' then char_of (of_char c - 32 :: nat) else c)"

definition to_ascii_lowercase :: "string \<Rightarrow> string" where
  "to_ascii_lowercase s = map ascii_lower s"

definition to_ascii_uppercase :: "string \<Rightarrow> string" where
  "to_ascii_uppercase s = map ascii_upper s"

definition eq_ignore_ascii_case :: "string \<Rightarrow> string \<Rightarrow> bool" where
  "eq_ignore_ascii_case s t = (to_ascii_lowercase s = to_ascii_lowercase t)"

definition is_ascii_hexdigit :: "char \<Rightarrow> bool" where
  "is_ascii_hexdigit c \<longleftrightarrow> CHR ''0'' \<le> c \<and> c \<le> CHR ''9'' \<or>
     CHR ''a'' \<le> c \<and> c \<le> CHR ''f'' \<or> CHR ''A'' \<le> c \<and> c \<le> CHR ''F''"

definition is_ascii_digit :: "char \<Rightarrow> bool" where
  "is_ascii_digit c \<longleftrightarrow> CHR ''0'' \<le> c \<and> c \<le> CHR ''9''"

lemma char_le_nat: "(c \<le> d) = ((of_char c :: nat) \<le> of_char d)"
  by (simp add: less_eq_char_def)

lemma of_char_A_Z:
  "of_char (CHR ''A'') = (65 :: nat)" "of_char (CHR ''Z'') = (90 :: nat)"
  "of_char (CHR ''a'') = (97 :: nat)" "of_char (CHR ''z'') = (122 :: nat)"
  "of_char (CHR ''0'') = (48 :: nat)" "of_char (CHR ''9'') = (57 :: nat)"
  by simp_all

lemma ascii_lower_idem [simp]: "ascii_lower (ascii_lower c) = ascii_lower c"
  by (simp add: ascii_lower_def char_le_nat of_char_A_Z)

lemma to_ascii_lowercase_idem [simp]:
  "to_ascii_lowercase (to_ascii_lowercase s) = to_ascii_lowercase s"
  by (simp add: to_ascii_lowercase_def comp_def)

subsection \<open>Splitting\<close>

fun split_on :: "char \<Rightarrow> string \<Rightarrow> string list" where
  "split_on c [] = [[]]"
| "split_on c (x # s) =
     (if x = c then [] # split_on c s
      else case split_on c s of [] \<Rightarrow> [[x]] | w # ws \<Rightarrow> (x # w) # ws)"

fun join_with :: "char \<Rightarrow> string list \<Rightarrow> string" where
  "join_with c [] = []"
| "join_with c [w] = w"
| "join_with c (w # v # ws) = w @ c # join_with c (v # ws)"

lemma split_on_no_sep: "c \<notin> set w \<Longrightarrow> split_on c w = [w]"
  by (induction w) auto

lemma split_on_append: "c \<notin> set w \<Longrightarrow> split_on c (w @ c # s) = w # split_on c s"
  by (induction w) auto

lemma split_join: "ws \<noteq> [] \<Longrightarrow> (\<forall>w \<in> set ws. c \<notin> set w) \<Longrightarrow> split_on c (join_with c ws) = ws"
  by (induction c ws rule: join_with.induct) (auto simp: split_on_no_sep split_on_append)

lemma append_eq_append_sep:
  assumes "u @ c # v = u' @ c # v'" and "c \<notin> set u" and "c \<notin> set u'"
  shows "u = u' \<and> v = v'"
proof -
  have "u = takeWhile (\<lambda>x. x \<noteq> c) (u @ c # v)" and "u' = takeWhile (\<lambda>x. x \<noteq> c) (u' @ c # v')"
    using assms(2,3) by (auto simp: takeWhile_append)
  with assms(1) have "u = u'" by simp
  with assms(1) show ?thesis by simp
qed

lemma split_on_nonempty [simp]: "split_on c s \<noteq> []"
  by (induction s) (auto split: list.splits)

lemma split_on_at_sep: "split_on c (s @ c # t) = split_on c s @ split_on c t"
proof (induction s)
  case (Cons x s)
  obtain w ws where "split_on c s = w # ws"
    by (cases "split_on c s") auto
  with Cons show ?case by auto
qed simp

lemma join_split: "join_with c (split_on c s) = s"
proof (induction s)
  case (Cons x s)
  obtain w ws where "split_on c s = w # ws"
    by (cases "split_on c s") auto
  with Cons show ?case by (cases ws) auto
qed simp

subsection \<open>Decimal numbers\<close>

definition digit_char :: "nat \<Rightarrow> char" where
  "digit_char d = char_of (48 + d)"

definition digit_val :: "char \<Rightarrow> nat option" where
  "digit_val c = (if is_ascii_digit c then Some (of_char c - 48) else None)"

fun dec_str :: "nat \<Rightarrow> string" where
  "dec_str n = (if n < 10 then [digit_char n] else dec_str (n div 10) @ [digit_char (n mod 10)])"

declare dec_str.simps [simp del]

definition dec_int :: "int \<Rightarrow> string" where
  "dec_int z = (if z < 0 then CHR ''-'' # dec_str (nat (- z)) else dec_str (nat z))"

definition digits_val :: "string \<Rightarrow> nat option" where
  "digits_val s = foldl (\<lambda>acc c. case acc of None \<Rightarrow> None
     | Some n \<Rightarrow> (case digit_val c of None \<Rightarrow> None | Some d \<Rightarrow> Some (10 * n + d))) (Some 0) s"

text \<open>\<^verbatim>\<open>str::parse\<close> at an unsigned type whose largest value is \<open>hi\<close>.\<close>

definition parse_uint :: "nat \<Rightarrow> string \<Rightarrow> nat option" where
  "parse_uint hi s =
     (let t = (case s of c # r \<Rightarrow> if c = CHR ''+'' then r else s | [] \<Rightarrow> [])
      in if t = [] then None
         else case digits_val t of None \<Rightarrow> None | Some n \<Rightarrow> if n \<le> hi then Some n else None)"

lemma of_char_digit: "d < 10 \<Longrightarrow> of_char (digit_char d) = 48 + d"
  by (simp add: digit_char_def)

lemma digit_val_char [simp]: "d < 10 \<Longrightarrow> digit_val (digit_char d) = Some d"
  by (simp add: digit_val_def is_ascii_digit_def char_le_nat of_char_digit of_char_A_Z)

lemma digits_val_snoc:
  "digits_val (s @ [c]) = (case digits_val s of None \<Rightarrow> None
     | Some n \<Rightarrow> (case digit_val c of None \<Rightarrow> None | Some d \<Rightarrow> Some (10 * n + d)))"
  by (simp add: digits_val_def)

lemma digits_val_Nil [simp]: "digits_val [] = Some 0"
  by (simp add: digits_val_def)

lemma digits_val_dec_str [simp]: "digits_val (dec_str n) = Some n"
proof (induction n rule: dec_str.induct)
  case (1 n)
  show ?case
  proof (cases "n < 10")
    case True
    then show ?thesis using digits_val_snoc [of "[]" "digit_char n"]
      by (simp add: dec_str.simps)
  next
    case False
    with 1 show ?thesis by (subst dec_str.simps) (simp add: digits_val_snoc)
  qed
qed

lemma dec_str_digits: "c \<in> set (dec_str n) \<Longrightarrow> is_ascii_digit c"
proof (induction n rule: dec_str.induct)
  case (1 n)
  have dig: "is_ascii_digit (digit_char d)" if "d < 10" for d
    using that by (simp add: is_ascii_digit_def char_le_nat of_char_digit of_char_A_Z)
  from 1 show ?case by (subst (asm) (2) dec_str.simps) (auto split: if_splits intro: dig)
qed

lemma dec_str_nonempty [simp]: "dec_str n \<noteq> []"
  by (subst dec_str.simps) simp

lemma parse_dec_str: "n \<le> hi \<Longrightarrow> parse_uint hi (dec_str n) = Some n"
proof -
  assume le: "n \<le> hi"
  obtain c r where cr: "dec_str n = c # r" by (cases "dec_str n") auto
  then have "c \<noteq> CHR ''+''"
    using dec_str_digits [of c n] by (auto simp: is_ascii_digit_def char_le_nat)
  with le cr show ?thesis
    using digits_val_dec_str [of n] by (simp add: parse_uint_def)
qed

lemma dec_str_0: "dec_str 0 = ''0''"
  by (simp add: dec_str.simps digit_char_def char_of_def bit_iff_odd)

lemma dec_str_inj: "dec_str m = dec_str n \<Longrightarrow> m = n"
  by (metis digits_val_dec_str option.inject)

lemma dec_str_no_sep: "\<not> is_ascii_digit c \<Longrightarrow> c \<notin> set (dec_str n)"
  using dec_str_digits by blast

lemma digits_val_append:
  "digits_val s = Some m \<Longrightarrow> digits_val t = Some n \<Longrightarrow> digits_val (s @ t) = Some (m * 10 ^ length t + n)"
proof (induction t arbitrary: n rule: rev_induct)
  case (snoc c t)
  then obtain n' d where "digits_val t = Some n'" and "digit_val c = Some d" and "n = 10 * n' + d"
    by (auto simp: digits_val_snoc split: option.splits)
  with snoc show ?case
    by (simp add: digits_val_snoc flip: append_assoc)
qed simp

lemma digits_val_zeros: "digits_val (replicate k (CHR ''0'')) = Some 0"
proof (induction k)
  case (Suc k)
  have "digit_val (CHR ''0'') = Some 0"
    by (simp add: digit_val_def is_ascii_digit_def)
  with Suc show ?case by (simp add: replicate_append_same [symmetric] digits_val_snoc del: replicate_append_same)
qed simp

lemma length_dec_str: "n < 10 ^ d \<Longrightarrow> 0 < d \<Longrightarrow> length (dec_str n) \<le> d"
proof (induction n arbitrary: d rule: dec_str.induct)
  case (1 n)
  show ?case
  proof (cases "n < 10")
    case True
    with 1 show ?thesis by (simp add: dec_str.simps)
  next
    case False
    then obtain d' where d: "d = Suc d'" "0 < d'"
      using "1.prems" by (cases d; cases "d - 1") auto
    then have "n div 10 < 10 ^ d'" using "1.prems" by (simp add: less_mult_imp_div_less)
    with 1 False d have "length (dec_str (n div 10)) \<le> d'" by blast
    with False d show ?thesis by (subst dec_str.simps) simp
  qed
qed

lemma parse_digits:
  assumes "list_all is_ascii_digit s" and "s \<noteq> []" and "digits_val s = Some n" and "n \<le> hi"
  shows "parse_uint hi s = Some n"
proof -
  obtain c r where cr: "s = c # r" using assms(2) by (cases s) auto
  then have "c \<noteq> CHR ''+''"
    using assms(1) by (auto simp: is_ascii_digit_def char_le_nat)
  with cr assms show ?thesis by (simp add: parse_uint_def)
qed

lemma printable_digit: "is_ascii_digit c \<Longrightarrow> printable c"
  by (auto simp: is_ascii_digit_def printable_def char_le_nat)

lemma list_all_digits_dec_str [simp]: "list_all is_ascii_digit (dec_str n)"
  using dec_str_digits by (auto simp: list_all_iff)

lemma trim_dec_str [simp]: "trim (dec_str n) = dec_str n"
  by (rule trim_printable) (auto simp: list_all_iff intro: printable_digit dec_str_digits)

lemma ascii_lower_fix:
  "ascii_lower c = d \<Longrightarrow> \<not> (CHR ''a'' \<le> d \<and> d \<le> CHR ''z'') \<Longrightarrow> c = d"
  by (auto simp: ascii_lower_def char_le_nat of_char_A_Z split: if_splits)

lemma white_space_no_letter: "p \<in> set white_space \<Longrightarrow> c \<in> set p \<Longrightarrow> \<not> (CHR ''a'' \<le> c \<and> c \<le> CHR ''z'')"
  by (auto simp: white_space_def)

lemma prefix_map_lower:
  "prefix p (map ascii_lower s) \<Longrightarrow> (\<And>c. c \<in> set p \<Longrightarrow> \<not> (CHR ''a'' \<le> c \<and> c \<le> CHR ''z'')) \<Longrightarrow> prefix p s"
proof (induction p arbitrary: s)
  case (Cons c p)
  then obtain d r where s: "s = d # r" by (cases s) auto
  with Cons.prems(1) have c: "ascii_lower d = c" and pre: "prefix p (map ascii_lower r)" by simp_all
  have "d = c" by (rule ascii_lower_fix [OF c], rule Cons.prems(2)) simp
  moreover have "prefix p r" by (rule Cons.IH [OF pre], rule Cons.prems(2)) simp
  ultimately show ?case by (simp add: s)
qed simp

lemma match_prefix_lower:
  assumes "match_prefix ps s = None"
    and "\<And>p c. p \<in> set ps \<Longrightarrow> c \<in> set p \<Longrightarrow> \<not> (CHR ''a'' \<le> c \<and> c \<le> CHR ''z'')"
  shows "match_prefix ps (map ascii_lower s) = None"
  using assms prefix_map_lower by (auto simp: match_prefix_def find_None_iff2)

text \<open>Lower-casing a trimmed string leaves nothing to trim.\<close>

lemma trim_lower_trim [simp]: "trim (to_ascii_lowercase (trim s)) = to_ascii_lowercase (trim s)"
proof -
  have "match_prefix white_space (trim s) = None"
    unfolding trim_def
    by (rule match_prefix_mono [OF _ trim_end_prefix]) (simp add: trim_start_def match_strip_prefixes)
  then have front: "match_prefix white_space (to_ascii_lowercase (trim s)) = None"
    unfolding to_ascii_lowercase_def by (rule match_prefix_lower) (rule white_space_no_letter)
  have "match_prefix (map rev white_space) (rev (trim s)) = None"
    by (simp add: trim_def trim_end_def match_strip_prefixes)
  then have "match_prefix (map rev white_space) (map ascii_lower (rev (trim s))) = None"
    by (rule match_prefix_lower) (auto dest: white_space_no_letter)
  then have "match_prefix (map rev white_space) (rev (to_ascii_lowercase (trim s))) = None"
    by (simp add: to_ascii_lowercase_def rev_map)
  with front show ?thesis
    by (simp add: trim_def [of "to_ascii_lowercase _"] trim_start_def trim_end_def strip_prefixes_none)
qed

end
