(* ===== verification/Signing.thy ===== *)
theory Signing
  imports Rust_Str
begin

text \<open>
  \<^verbatim>\<open>security/signing.rs\<close> and the pure part of \<^verbatim>\<open>security/identity.rs\<close>: canonical-JSON
  signatures under Ed25519 keys that are named either by their base64 form or by a
  \<^verbatim>\<open>did:key\<close>, and public ids scoped by a key fingerprint.

  The crates \<^verbatim>\<open>base64\<close>, \<^verbatim>\<open>ed25519_dalek\<close>, \<^verbatim>\<open>sha2\<close>, \<^verbatim>\<open>hex\<close> and \<^verbatim>\<open>watt_did\<close>
  are a parameter, the record \<open>crypto\<close>; \<^verbatim>\<open>serde_jcs\<close> is a parameter per payload type
  (\<open>jcs\<close>). \<open>crypto_laws\<close> states what these crates document and the code relies on.
\<close>

datatype did_key_public_key = DkEd25519 string | DkOther

text \<open>
  A parsed \<^verbatim>\<open>Did\<close> is given by its method and its text. \<open>did_key_from_did\<close> is
  \<^verbatim>\<open>DidKey::from_did\<close>, \<open>did_key_decode\<close> is \<^verbatim>\<open>decode_public_key\<close> on its result.
\<close>

record crypto =
  b64_encode :: "string \<Rightarrow> string"
  b64_decode :: "string \<Rightarrow> string option"
  did_parse :: "string \<Rightarrow> (string \<times> string) option"
  did_key_from_did :: "string \<times> string \<Rightarrow> string option"
  did_key_decode :: "string \<Rightarrow> did_key_public_key option"
  did_key_from_ed25519 :: "string \<Rightarrow> string option"
  ed_key_ok :: "string \<Rightarrow> bool"
  ed_verify :: "string \<Rightarrow> string \<Rightarrow> string \<Rightarrow> bool"
  ed_sign :: "string \<Rightarrow> string \<Rightarrow> string"
  ed_public :: "string \<Rightarrow> string"
  sha256 :: "string \<Rightarrow> string"
  hex_encode :: "string \<Rightarrow> string"

definition crypto_laws :: "crypto \<Rightarrow> bool" where
  "crypto_laws C \<longleftrightarrow>
     (\<forall>x. b64_decode C (b64_encode C x) = Some x) \<and>
     (\<forall>x. CHR '':'' \<notin> set (b64_encode C x)) \<and>
     (\<forall>s. length s = 32 \<longrightarrow> length (ed_public C s) = 32 \<and> ed_key_ok C (ed_public C s)) \<and>
     (\<forall>s m. length (ed_sign C s m) = 64) \<and>
     (\<forall>s m. length s = 32 \<longrightarrow> ed_verify C (ed_public C s) m (ed_sign C s m)) \<and>
     (\<forall>k d. did_key_from_ed25519 C k = Some d \<longrightarrow>
        prefix ''did:key:'' d \<and> did_parse C d = Some (''key'', d) \<and>
        (\<exists>h. did_key_from_did C (''key'', d) = Some h \<and> did_key_decode C h = Some (DkEd25519 k))) \<and>
     (\<forall>x. length (sha256 C x) = 32) \<and>
     (\<forall>x. length (hex_encode C x) = 2 * length x \<and> (\<forall>c \<in> set (hex_encode C x). is_ascii_hexdigit c))"

datatype sign_error =
    Canonicalize_payload
  | Decode_private_key
  | Invalid_private_key_length
  | Decode_signature
  | Invalid_signature_length
  | Decode_public_key
  | Decode_did_public_key
  | Invalid_public_key_length
  | Invalid_public_key
  | Parse_did_key
  | Build_did_key
  | Decode_did_key
  | Not_ed25519
  | Parse_agent_did
  | Agent_did_not_key
  | Agent_did_mismatch
  | Agent_did_missing
  | Make_did_key
  | Import_decode_private_key
  | Import_private_key_length
  | Import_did_mismatch

subsection \<open>Keys and signatures\<close>

definition DID_KEY_PREFIX :: string where
  "DID_KEY_PREFIX = ''did:key:''"

definition FINGERPRINT_BYTES :: nat where
  "FINGERPRINT_BYTES = 8"

definition PUBLIC_ID_SEPARATOR :: char where
  "PUBLIC_ID_SEPARATOR = CHR ''.''"

record identity =
  id_agent_did :: string
  id_public_key :: string
  id_private_key :: string

record identity_compat_view =
  icv_agent_did :: string
  icv_public_key :: string

definition compat_view :: "identity \<Rightarrow> identity_compat_view" where
  "compat_view i = \<lparr>icv_agent_did = id_agent_did i, icv_public_key = id_public_key i\<rparr>"

definition public_key_b64_from_did_key :: "crypto \<Rightarrow> string \<Rightarrow> sign_error + string" where
  "public_key_b64_from_did_key C agent_did =
     (case did_parse C agent_did of None \<Rightarrow> Err Parse_did_key
      | Some did \<Rightarrow>
     (case did_key_from_did C did of None \<Rightarrow> Err Build_did_key
      | Some did_key \<Rightarrow>
     (case did_key_decode C did_key of None \<Rightarrow> Err Decode_did_key
      | Some DkOther \<Rightarrow> Err Not_ed25519
      | Some (DkEd25519 public_key) \<Rightarrow> Ok (b64_encode C public_key))))"

definition decode_public_key_from_ref :: "crypto \<Rightarrow> string \<Rightarrow> sign_error + string" where
  "decode_public_key_from_ref C public_key_ref =
     (if prefix DID_KEY_PREFIX public_key_ref then
        (case public_key_b64_from_did_key C public_key_ref of Inl e \<Rightarrow> Err e
         | Inr b64 \<Rightarrow> (case b64_decode C b64 of None \<Rightarrow> Err Decode_did_public_key | Some k \<Rightarrow> Ok k))
      else
        (case b64_decode C public_key_ref of None \<Rightarrow> Err Decode_public_key | Some k \<Rightarrow> Ok k))"

definition verify_with_public_key ::
  "crypto \<Rightarrow> string \<Rightarrow> string \<Rightarrow> string \<Rightarrow> sign_error + bool" where
  "verify_with_public_key C message signature_b64 public_key_ref =
     (case decode_public_key_from_ref C public_key_ref of Inl e \<Rightarrow> Err e
      | Inr public \<Rightarrow>
     (case b64_decode C signature_b64 of None \<Rightarrow> Err Decode_signature
      | Some signature \<Rightarrow>
        if length public \<noteq> 32 then Err Invalid_public_key_length
        else if \<not> ed_key_ok C public then Err Invalid_public_key
        else if length signature \<noteq> 64 then Err Invalid_signature_length
        else Ok (ed_verify C public message signature)))"

definition identity_sign :: "crypto \<Rightarrow> identity \<Rightarrow> string \<Rightarrow> sign_error + string" where
  "identity_sign C i message =
     (case b64_decode C (id_private_key i) of None \<Rightarrow> Err Decode_private_key
      | Some bytes \<Rightarrow>
        if length bytes \<noteq> 32 then Err Invalid_private_key_length
        else Ok (b64_encode C (ed_sign C bytes message)))"

definition did_key_from_public_key_b64 :: "crypto \<Rightarrow> string \<Rightarrow> sign_error + string" where
  "did_key_from_public_key_b64 C public_key_b64 =
     (case b64_decode C public_key_b64 of None \<Rightarrow> Err Decode_public_key
      | Some public_key \<Rightarrow>
        if length public_key \<noteq> 32 then Err Invalid_public_key_length
        else (case did_key_from_ed25519 C public_key of None \<Rightarrow> Err Make_did_key | Some d \<Rightarrow> Ok d))"

definition resolve_agent_did :: "crypto \<Rightarrow> string option \<Rightarrow> string \<Rightarrow> sign_error + string" where
  "resolve_agent_did C agent_did public_key_b64 =
     (case agent_did of None \<Rightarrow> Err Agent_did_missing
      | Some d \<Rightarrow>
        if blank d then Err Agent_did_missing
        else (case did_parse C d of None \<Rightarrow> Err Parse_agent_did
              | Some (did_method, did_text) \<Rightarrow>
                if did_method \<noteq> ''key'' then Err Agent_did_not_key
                else (case public_key_b64_from_did_key C d of Inl e \<Rightarrow> Err e
                      | Inr derived \<Rightarrow>
                        if derived \<noteq> public_key_b64 then Err Agent_did_mismatch
                        else Ok did_text)))"

text \<open>\<^verbatim>\<open>Identity::from_ed25519_seed\<close> takes a \<^verbatim>\<open>[u8; 32]\<close>.\<close>

definition from_ed25519_seed :: "crypto \<Rightarrow> string \<Rightarrow> string \<Rightarrow> sign_error + identity" where
  "from_ed25519_seed C agent_did seed =
     (let public_key = b64_encode C (ed_public C seed);
          private_key = b64_encode C seed
      in case resolve_agent_did C (Some agent_did) public_key of Inl e \<Rightarrow> Err e
         | Inr d \<Rightarrow> Ok \<lparr>id_agent_did = d, id_public_key = public_key, id_private_key = private_key\<rparr>)"

definition import_ed25519_private_key ::
  "crypto \<Rightarrow> string option \<Rightarrow> string \<Rightarrow> sign_error + identity" where
  "import_ed25519_private_key C expected_did private_key_b64 =
     (case b64_decode C (trim private_key_b64) of None \<Rightarrow> Err Import_decode_private_key
      | Some seed \<Rightarrow>
        if length seed \<noteq> 32 then Err Import_private_key_length
        else
          let public_key = b64_encode C (ed_public C seed)
          in case did_key_from_public_key_b64 C public_key of Inl e \<Rightarrow> Err e
             | Inr did \<Rightarrow>
               if is_some_and expected_did (\<lambda>e. trim e \<noteq> [] \<and> trim e \<noteq> did)
               then Err Import_did_mismatch
               else Ok \<lparr>id_agent_did = did, id_public_key = public_key,
                        id_private_key = b64_encode C seed\<rparr>)"

subsection \<open>Payloads\<close>

definition canonical_bytes :: "('p \<Rightarrow> string option) \<Rightarrow> 'p \<Rightarrow> sign_error + string" where
  "canonical_bytes jcs payload =
     (case jcs payload of None \<Rightarrow> Err Canonicalize_payload | Some json \<Rightarrow> Ok json)"

text \<open>A \<^verbatim>\<open>PayloadSigner\<close> is its \<^verbatim>\<open>sign_bytes\<close> method.\<close>

definition sign_payload_with ::
  "('p \<Rightarrow> string option) \<Rightarrow> (string \<Rightarrow> sign_error + string) \<Rightarrow> 'p \<Rightarrow> sign_error + string" where
  "sign_payload_with jcs sign_bytes payload =
     (case canonical_bytes jcs payload of Inl e \<Rightarrow> Err e | Inr bytes \<Rightarrow> sign_bytes bytes)"

definition verify_payload ::
  "crypto \<Rightarrow> ('p \<Rightarrow> string option) \<Rightarrow> 'p \<Rightarrow> string \<Rightarrow> string \<Rightarrow> sign_error + bool" where
  "verify_payload C jcs payload signature_b64 public_key_b64 =
     (case canonical_bytes jcs payload of Inl e \<Rightarrow> Err e
      | Inr bytes \<Rightarrow> verify_with_public_key C bytes signature_b64 public_key_b64)"

definition canonical_equal ::
  "('p \<Rightarrow> string option) \<Rightarrow> ('q \<Rightarrow> string option) \<Rightarrow> 'p \<Rightarrow> 'q \<Rightarrow> sign_error + bool" where
  "canonical_equal jcs jcs' a b =
     (case canonical_bytes jcs a of Inl e \<Rightarrow> Err e
      | Inr x \<Rightarrow> (case canonical_bytes jcs' b of Inl e \<Rightarrow> Err e | Inr y \<Rightarrow> Ok (x = y)))"

subsection \<open>Public ids\<close>

definition public_key_fingerprint :: "crypto \<Rightarrow> string \<Rightarrow> sign_error + string" where
  "public_key_fingerprint C public_key_b64 =
     (case b64_decode C public_key_b64 of None \<Rightarrow> Err Decode_public_key
      | Some public_key \<Rightarrow> Ok (hex_encode C (take FINGERPRINT_BYTES (sha256 C public_key))))"

definition fingerprint_from_did_key :: "crypto \<Rightarrow> string \<Rightarrow> sign_error + string" where
  "fingerprint_from_did_key C agent_did =
     (case public_key_b64_from_did_key C agent_did of Inl e \<Rightarrow> Err e
      | Inr b64 \<Rightarrow> public_key_fingerprint C b64)"

definition build_scoped_public_id :: "string \<Rightarrow> string \<Rightarrow> string" where
  "build_scoped_public_id slug fingerprint = slug @ [PUBLIC_ID_SEPARATOR] @ fingerprint"

definition is_did_key_public_id :: "string \<Rightarrow> bool" where
  "is_did_key_public_id public_id = prefix DID_KEY_PREFIX public_id"

text \<open>What follows the last occurrence of a character, as \<^verbatim>\<open>rfind\<close> locates it.\<close>

definition after_last :: "char \<Rightarrow> string \<Rightarrow> string option" where
  "after_last c s = (if c \<in> set s then Some (last (split_on c s)) else None)"

definition extract_public_id_fingerprint :: "string \<Rightarrow> string option" where
  "extract_public_id_fingerprint public_id =
     (if is_did_key_public_id public_id then None
      else case after_last PUBLIC_ID_SEPARATOR public_id of None \<Rightarrow> None
           | Some candidate \<Rightarrow>
             if length candidate = FINGERPRINT_BYTES * 2 \<and> list_all is_ascii_hexdigit candidate
             then Some candidate else None)"

definition verify_public_id_ownership :: "crypto \<Rightarrow> string \<Rightarrow> string \<Rightarrow> sign_error + bool" where
  "verify_public_id_ownership C public_id public_key_ref =
     (if is_did_key_public_id public_id then
        (case public_key_b64_from_did_key C public_id of Inl e \<Rightarrow> Err e
         | Inr did_public_key \<Rightarrow>
           (case (if prefix DID_KEY_PREFIX public_key_ref
                  then public_key_b64_from_did_key C public_key_ref else Ok public_key_ref) of
              Inl e \<Rightarrow> Err e
            | Inr ref_public_key \<Rightarrow> Ok (did_public_key = ref_public_key)))
      else
        (case extract_public_id_fingerprint public_id of None \<Rightarrow> Ok False
         | Some embedded \<Rightarrow>
           (case (if prefix DID_KEY_PREFIX public_key_ref
                  then fingerprint_from_did_key C public_key_ref
                  else public_key_fingerprint C public_key_ref) of
              Inl e \<Rightarrow> Err e
            | Inr expected \<Rightarrow> Ok (embedded = expected))))"

lemmas signing_defs = public_key_b64_from_did_key_def decode_public_key_from_ref_def
  verify_with_public_key_def identity_sign_def did_key_from_public_key_b64_def
  resolve_agent_did_def from_ed25519_seed_def import_ed25519_private_key_def
  canonical_bytes_def sign_payload_with_def verify_payload_def

subsection \<open>Signing and verifying agree\<close>

lemma crypto_lawsD:
  assumes "crypto_laws C"
  shows "b64_decode C (b64_encode C x) = Some x"
    and "CHR '':'' \<notin> set (b64_encode C x)"
    and "length s = 32 \<Longrightarrow> length (ed_public C s) = 32"
    and "length s = 32 \<Longrightarrow> ed_key_ok C (ed_public C s)"
    and "length (ed_sign C s m) = 64"
    and "length s = 32 \<Longrightarrow> ed_verify C (ed_public C s) m (ed_sign C s m)"
    and "did_key_from_ed25519 C k = Some d \<Longrightarrow> prefix DID_KEY_PREFIX d"
    and "length (sha256 C x) = 32"
    and "length (hex_encode C x) = 2 * length x"
    and "c \<in> set (hex_encode C x) \<Longrightarrow> is_ascii_hexdigit c"
  using assms by (auto simp: crypto_laws_def DID_KEY_PREFIX_def)

lemma did_key_public_key_roundtrip:
  assumes "crypto_laws C" and "did_key_from_ed25519 C k = Some d"
  shows "public_key_b64_from_did_key C d = Ok (b64_encode C k)"
proof -
  have "did_parse C d = Some (''key'', d) \<and>
      (\<exists>h. did_key_from_did C (''key'', d) = Some h \<and> did_key_decode C h = Some (DkEd25519 k))"
    using assms unfolding crypto_laws_def by blast
  then show ?thesis by (auto simp: public_key_b64_from_did_key_def)
qed

lemma b64_not_did: "crypto_laws C \<Longrightarrow> \<not> prefix DID_KEY_PREFIX (b64_encode C x)"
  using crypto_lawsD(2) [of C x] by (auto simp: DID_KEY_PREFIX_def prefix_def)

lemma decode_ref_public_key:
  "crypto_laws C \<Longrightarrow> decode_public_key_from_ref C (b64_encode C k) = Ok k"
  by (simp add: decode_public_key_from_ref_def b64_not_did crypto_lawsD(1))

lemma decode_ref_did:
  "crypto_laws C \<Longrightarrow> did_key_from_ed25519 C k = Some d \<Longrightarrow> decode_public_key_from_ref C d = Ok k"
  by (simp add: decode_public_key_from_ref_def crypto_lawsD(1,7) did_key_public_key_roundtrip)

text \<open>Every identity the import accepts is made of one seed, its public key and its DID.\<close>

lemma import_ed25519_cases:
  assumes "import_ed25519_private_key C e k = Ok i" and "crypto_laws C"
  obtains seed where "length seed = 32" and "id_private_key i = b64_encode C seed"
    and "id_public_key i = b64_encode C (ed_public C seed)"
    and "did_key_from_ed25519 C (ed_public C seed) = Some (id_agent_did i)"
  using assms(1) crypto_lawsD(1) [OF assms(2)] crypto_lawsD(3) [OF assms(2)]
  unfolding import_ed25519_private_key_def did_key_from_public_key_b64_def
  by (auto simp: Let_def split: option.splits sum.splits if_splits)

lemma signature_verifies:
  assumes "crypto_laws C" and "length seed = 32"
    and "decode_public_key_from_ref C r = Ok (ed_public C seed)"
  shows "verify_with_public_key C m (b64_encode C (ed_sign C seed m)) r = Ok True"
  using assms by (simp add: verify_with_public_key_def crypto_lawsD)

lemma sign_payload_verifies:
  assumes "crypto_laws C" and "import_ed25519_private_key C e k = Ok i"
    and "sign_payload_with jcs (identity_sign C i) p = Ok sig"
  shows "verify_payload C jcs p sig (id_public_key i) = Ok True"
    and "verify_payload C jcs p sig (id_agent_did i) = Ok True"
proof -
  obtain seed where seed: "length seed = 32" "id_private_key i = b64_encode C seed"
    "id_public_key i = b64_encode C (ed_public C seed)"
    "did_key_from_ed25519 C (ed_public C seed) = Some (id_agent_did i)"
    using import_ed25519_cases [OF assms(2,1)] .
  obtain m where m: "jcs p = Some m" and "identity_sign C i m = Ok sig"
    using assms(3) by (auto simp: sign_payload_with_def canonical_bytes_def split: option.splits)
  then have "sig = b64_encode C (ed_sign C seed m)"
    by (simp add: identity_sign_def seed crypto_lawsD(1) [OF assms(1)])
  with seed m show "verify_payload C jcs p sig (id_public_key i) = Ok True"
    and "verify_payload C jcs p sig (id_agent_did i) = Ok True"
    by (simp_all add: verify_payload_def canonical_bytes_def signature_verifies [OF assms(1)]
        decode_ref_public_key [OF assms(1)] decode_ref_did [OF assms(1)])
qed

lemma sign_payload_total:
  assumes "crypto_laws C" and "import_ed25519_private_key C e k = Ok i" and "jcs p = Some m"
  shows "\<exists>sig. sign_payload_with jcs (identity_sign C i) p = Ok sig"
proof -
  obtain seed where "length seed = 32" and "id_private_key i = b64_encode C seed"
    using import_ed25519_cases [OF assms(2,1)] .
  with assms(3) show ?thesis
    by (simp add: sign_payload_with_def canonical_bytes_def identity_sign_def
        crypto_lawsD(1) [OF assms(1)])
qed

lemma after_last_separator:
  assumes "c \<notin> set t"
  shows "after_last c (s @ c # t) = Some t"
proof -
  have "last (split_on c (s @ c # t)) = t"
    using assms by (simp add: split_on_at_sep split_on_no_sep)
  then show ?thesis by (simp add: after_last_def)
qed

text \<open>A public id built from a slug and a key's fingerprint is owned by that key.\<close>

lemma scoped_public_id_owned:
  assumes "crypto_laws C" and "import_ed25519_private_key C e k = Ok i"
    and "public_key_fingerprint C (id_public_key i) = Ok fp"
    and "\<not> is_did_key_public_id (build_scoped_public_id slug fp)"
  shows "verify_public_id_ownership C (build_scoped_public_id slug fp) (id_public_key i) = Ok True
     \<and> verify_public_id_ownership C (build_scoped_public_id slug fp) (id_agent_did i) = Ok True"
proof -
  obtain seed where seed: "id_public_key i = b64_encode C (ed_public C seed)"
    "did_key_from_ed25519 C (ed_public C seed) = Some (id_agent_did i)"
    using import_ed25519_cases [OF assms(2,1)] by metis
  let ?fp = "hex_encode C (take FINGERPRINT_BYTES (sha256 C (ed_public C seed)))"
  have fp: "fp = ?fp"
    using assms(3) by (simp add: public_key_fingerprint_def seed crypto_lawsD(1) [OF assms(1)])
  have hex: "list_all is_ascii_hexdigit fp"
    using crypto_lawsD(10) [OF assms(1)] by (auto simp: fp list_all_iff)
  then have "PUBLIC_ID_SEPARATOR \<notin> set fp"
    by (auto simp: list_all_iff PUBLIC_ID_SEPARATOR_def is_ascii_hexdigit_def char_le_nat
        dest!: bspec)
  then have "extract_public_id_fingerprint (build_scoped_public_id slug fp) = Some fp"
    using assms(4) hex
    by (simp add: extract_public_id_fingerprint_def build_scoped_public_id_def after_last_separator
        fp crypto_lawsD(8,9) [OF assms(1)] FINGERPRINT_BYTES_def)
  moreover have "fingerprint_from_did_key C (id_agent_did i) = Ok fp"
    using assms(3) by (simp add: fingerprint_from_did_key_def did_key_public_key_roundtrip [OF assms(1) seed(2)] seed)
  ultimately show ?thesis
    using assms(3,4) seed crypto_lawsD(7) [OF assms(1) seed(2)]
    by (simp add: verify_public_id_ownership_def b64_not_did [OF assms(1)])
qed

subsection \<open>The laws can hold\<close>

text \<open>A keyed check in place of Ed25519, which shows that the laws are consistent.\<close>

definition demo_enc :: "string \<Rightarrow> string" where
  "demo_enc s = concat (map (\<lambda>c. [char_of (65 + of_char c div 16 :: nat),
     char_of (65 + of_char c mod 16 :: nat)]) s)"

fun demo_dec :: "string \<Rightarrow> string option" where
  "demo_dec [] = Some []"
| "demo_dec [a] = None"
| "demo_dec (a # b # s) =
     map_option ((#) (char_of ((of_char a - 65) * 16 + (of_char b - 65) :: nat))) (demo_dec s)"

definition demo_sign :: "string \<Rightarrow> string \<Rightarrow> string" where
  "demo_sign k m = take 64 (k @ m @ replicate 64 (CHR ''x''))"

definition crypto_demo :: crypto where
  "crypto_demo = \<lparr>b64_encode = demo_enc, b64_decode = demo_dec,
     did_parse = \<lambda>d. Some (''key'', d), did_key_from_did = \<lambda>(_, d). Some d,
     did_key_decode = \<lambda>d. Some (DkEd25519 (drop 8 d)),
     did_key_from_ed25519 = \<lambda>k. Some (''did:key:'' @ k),
     ed_key_ok = \<lambda>_. True, ed_verify = \<lambda>k m sig. sig = demo_sign k m, ed_sign = demo_sign,
     ed_public = \<lambda>k. k, sha256 = \<lambda>x. take 32 (x @ replicate 32 (CHR ''x'')),
     hex_encode = \<lambda>x. replicate (2 * length x) (CHR ''0'')\<rparr>"

lemma of_char_small: "(of_char c :: nat) < 256"
  by (metis of_char_mod_256 mod_less_divisor zero_less_numeral)

lemma of_char_high: "(of_char c :: nat) div 16 < 16"
  using of_char_small [of c] by (intro less_mult_imp_div_less) simp

lemma demo_dec_enc: "demo_dec (demo_enc s) = Some s"
proof (induction s)
  case (Cons c s)
  have "65 + of_char c div 16 < (256 :: nat)" and "65 + of_char c mod 16 < (256 :: nat)"
    using of_char_high [of c] by (simp_all add: less_imp_le_nat)
  with Cons show ?case by (simp add: demo_enc_def)
qed (simp add: demo_enc_def)

lemma demo_enc_range: "c \<in> set (demo_enc s) \<Longrightarrow> 65 \<le> (of_char c :: nat) \<and> (of_char c :: nat) < 81"
proof -
  have small: "of_char (char_of (65 + n :: nat) :: char) = 65 + n" if "n < 16" for n :: nat
    using that by simp
  assume "c \<in> set (demo_enc s)"
  then obtain d where "c = char_of (65 + of_char d div 16 :: nat) \<or> c = char_of (65 + of_char d mod 16 :: nat)"
    by (auto simp: demo_enc_def)
  then show ?thesis
    using small [of "of_char d div 16"] small [of "of_char d mod 16"] of_char_high [of d] by auto
qed

lemma demo_enc_no_colon: "CHR '':'' \<notin> set (demo_enc s)"
  using demo_enc_range by fastforce

lemma trim_demo_enc [simp]: "trim (demo_enc s) = demo_enc s"
  by (rule trim_printable) (auto simp: list_all_iff printable_def dest!: demo_enc_range)

lemma crypto_demo_laws: "crypto_laws crypto_demo"
  by (auto simp: crypto_laws_def crypto_demo_def demo_dec_enc demo_enc_no_colon demo_sign_def
      is_ascii_hexdigit_def prefix_def min_def)

text \<open>An identity under these laws.\<close>

definition demo_seed :: string where
  "demo_seed = replicate 32 (CHR ''k'')"

definition demo_identity :: identity where
  "demo_identity = \<lparr>id_agent_did = ''did:key:'' @ demo_seed, id_public_key = demo_enc demo_seed,
     id_private_key = demo_enc demo_seed\<rparr>"

lemma demo_import: "import_ed25519_private_key crypto_demo None (demo_enc demo_seed) = Ok demo_identity"
  by (simp add: import_ed25519_private_key_def did_key_from_public_key_b64_def crypto_demo_def
      demo_dec_enc demo_identity_def demo_seed_def Let_def)

end
