(* ===== verification/Machines.thy ===== *)
theory Machines
  imports Prelude
begin

text \<open>
  Contracts that several components share, as locales: a machine that keeps an invariant, a
  machine whose states only move forward in an order, a treasury that is funded and spent, and a
  ballot in which a voter's latest vote counts. Each is interpreted in the theories of the
  components that provide it.
\<close>

subsection \<open>Machines with an invariant, machines that only move forward\<close>

locale invariant_machine =
  fixes step :: "'s \<Rightarrow> 'o \<Rightarrow> 's"
    and allowed :: "'o \<Rightarrow> bool"
    and inv :: "'s \<Rightarrow> bool"
  assumes step_inv: "allowed p \<Longrightarrow> inv s \<Longrightarrow> inv (step s p)"
begin

lemma run_inv: "list_all allowed ps \<Longrightarrow> inv s \<Longrightarrow> inv (run step s ps)"
  by (induction ps arbitrary: s) (auto intro: step_inv)

end

locale forward_machine =
  fixes step :: "'s \<Rightarrow> 'o \<Rightarrow> 's"
    and allowed :: "'o \<Rightarrow> bool"
    and le :: "'s \<Rightarrow> 's \<Rightarrow> bool"
  assumes le_refl: "le s s"
    and le_trans: "le s t \<Longrightarrow> le t u \<Longrightarrow> le s u"
    and step_le: "allowed p \<Longrightarrow> le s (step s p)"
begin

lemma run_le: "list_all allowed ps \<Longrightarrow> le s (run step s ps)"
proof (induction ps arbitrary: s)
  case Nil
  show ?case by (simp add: le_refl)
next
  case (Cons p ps)
  then have "le s (step s p)" and "le (step s p) (run step (step s p) ps)"
    by (simp_all add: step_le)
  then show ?case by (simp, blast intro: le_trans)
qed

end

subsection \<open>Treasuries\<close>

text \<open>
  A treasury keeps a balance per key. \<open>Fund\<close> adds a positive amount with the wrap-around of
  \<^verbatim>\<open>i64\<close>, \<open>Spend\<close> takes a positive amount that is covered; anything else is refused and
  leaves every balance as it was.
\<close>

datatype 'k treasury_op = Fund 'k int | Spend 'k int

locale treasury =
  fixes balance :: "'s \<Rightarrow> 'k \<Rightarrow> int option"
    and fund :: "'s \<Rightarrow> 'k \<Rightarrow> int \<Rightarrow> 's"
    and spend :: "'s \<Rightarrow> 'k \<Rightarrow> int \<Rightarrow> 's"
  assumes fund_balance:
      "balance (fund s k a) j =
         (if j = k \<and> 0 < a then map_option (\<lambda>b. to_i64 (b + a)) (balance s k) else balance s j)"
    and spend_balance:
      "balance (spend s k a) j =
         (if j = k \<and> 0 < a then map_option (\<lambda>b. if a \<le> b then to_i64 (b - a) else b) (balance s k)
          else balance s j)"
begin

definition tstep :: "'s \<Rightarrow> 'k treasury_op \<Rightarrow> 's" where
  "tstep s p = (case p of Fund k a \<Rightarrow> fund s k a | Spend k a \<Rightarrow> spend s k a)"

definition funded :: "'k \<Rightarrow> 'k treasury_op list \<Rightarrow> int" where
  "funded k ps = sum_list (map (\<lambda>p. case p of
     Fund j a \<Rightarrow> if j = k \<and> 0 < a then a else 0 | Spend j a \<Rightarrow> 0) ps)"

lemma funded_nonneg: "0 \<le> funded k ps"
  unfolding funded_def by (rule sum_list_nonneg) (auto split: treasury_op.splits if_splits)

lemma funded_Cons:
  "funded k (p # ps) =
     (case p of Fund j a \<Rightarrow> if j = k \<and> 0 < a then a else 0 | Spend j a \<Rightarrow> 0) + funded k ps"
  by (simp add: funded_def)

text \<open>
  As long as what was ever paid in fits an \<^verbatim>\<open>i64\<close>, no balance goes below zero and no balance
  exceeds what was there plus what was paid in.
\<close>

lemma run_balance_bounds:
  assumes "balance s k = Some b" and "0 \<le> b" and "b + funded k ps < 2 ^ 63"
  shows "\<exists>b'. balance (run tstep s ps) k = Some b' \<and> 0 \<le> b' \<and> b' \<le> b + funded k ps"
  using assms
proof (induction ps arbitrary: s b)
  case Nil
  then show ?case by (simp add: funded_def)
next
  case (Cons p ps)
  define b1 where "b1 = (case p of Fund j a \<Rightarrow> if j = k \<and> 0 < a then b + a else b
    | Spend j a \<Rightarrow> if j = k \<and> 0 < a \<and> a \<le> b then b - a else b)"
  have le: "b1 + funded k ps \<le> b + funded k (p # ps)" and pos: "0 \<le> b1"
    using Cons.prems by (auto simp: b1_def funded_Cons split: treasury_op.splits)
  have small: "b1 < 2 ^ 63"
    using le Cons.prems(3) funded_nonneg [of k ps] by linarith
  have "balance (tstep s p) k = Some b1"
  proof (cases p)
    case (Fund j a)
    with small Cons.prems show ?thesis
      by (auto simp: tstep_def fund_balance b1_def to_i64_small)
  next
    case (Spend j a)
    have "a \<le> b \<Longrightarrow> 0 < a \<Longrightarrow> to_i64 (b - a) = b - a"
      using Cons.prems(3) funded_nonneg [of k "p # ps"] by (intro to_i64_small) linarith+
    with Spend Cons.prems show ?thesis
      by (auto simp: tstep_def spend_balance b1_def)
  qed
  moreover have "b1 + funded k ps < 2 ^ 63" using le Cons.prems(3) by linarith
  ultimately obtain b' where "balance (run tstep (tstep s p) ps) k = Some b'"
      and "0 \<le> b'" and "b' \<le> b1 + funded k ps"
    using Cons.IH pos by blast
  with le show ?case by auto
qed

end

subsection \<open>Ballots\<close>

text \<open>
  \<open>votes\<close> gives the sets of voters for and against; \<open>cast\<close> records one vote. The
  provider promises that a vote moves its voter to the chosen side and touches nobody else.
\<close>

locale ballot =
  fixes votes_for :: "'p \<Rightarrow> 'v set"
    and votes_against :: "'p \<Rightarrow> 'v set"
    and cast :: "'p \<Rightarrow> 'v \<Rightarrow> bool \<Rightarrow> 'p"
  assumes cast_for: "votes_for (cast b v yes) =
      (if yes then insert v (votes_for b) else votes_for b - {v})"
    and cast_against: "votes_against (cast b v yes) =
      (if yes then votes_against b - {v} else insert v (votes_against b))"
begin

lemma cast_disjoint:
  "votes_for b \<inter> votes_against b = {} \<Longrightarrow>
     votes_for (cast b v yes) \<inter> votes_against (cast b v yes) = {}"
  by (auto simp: cast_for cast_against)

lemma casts_disjoint:
  "votes_for b \<inter> votes_against b = {} \<Longrightarrow>
     votes_for (foldl (\<lambda>b (v, yes). cast b v yes) b vs) \<inter>
     votes_against (foldl (\<lambda>b (v, yes). cast b v yes) b vs) = {}"
  by (induction vs arbitrary: b) (auto simp: cast_disjoint split: prod.splits)

text \<open>After any sequence of votes a voter stands where its last vote put it.\<close>

lemma casts_last_vote:
  "v \<in> votes_for (foldl (\<lambda>b (v, yes). cast b v yes) b vs) \<longleftrightarrow>
     (case List.find (\<lambda>x. fst x = v) (rev vs) of
        None \<Rightarrow> v \<in> votes_for b | Some (_, yes) \<Rightarrow> yes)"
proof (induction vs rule: rev_induct)
  case Nil
  show ?case by simp
next
  case (snoc x vs)
  then show ?case by (cases x) (auto simp: cast_for)
qed

lemma casts_last_vote_against:
  "v \<in> votes_against (foldl (\<lambda>b (v, yes). cast b v yes) b vs) \<longleftrightarrow>
     (case List.find (\<lambda>x. fst x = v) (rev vs) of
        None \<Rightarrow> v \<in> votes_against b | Some (_, yes) \<Rightarrow> \<not> yes)"
proof (induction vs rule: rev_induct)
  case Nil
  show ?case by simp
next
  case (snoc x vs)
  then show ?case by (cases x) (auto simp: cast_against)
qed

end

end
