(* ===== verification/Governance.thy ===== *)
theory Governance
  imports Signing Machines
begin

text \<open>
  \<^verbatim>\<open>governance/constitution.rs\<close> and \<^verbatim>\<open>governance/engine.rs\<close>: civic licenses, sovereignty
  bonds, subnets governed as planets, proposals with ballots, validator rotation, treasuries,
  recall, custody and hostile takeover. An operation that reads the clock takes each reading as
  an argument. \<^verbatim>\<open>serde_json\<close> is a parameter: \<open>tax_rate_of payload\<close> stands for
  \<^verbatim>\<open>payload["tax_rate"].as_f64()\<close>.
\<close>

subsection \<open>Constitutions\<close>

datatype sovereignty_mode = FrontierClaim | Auction | Election

datatype voting_chamber = Capital | Citizen | Reputation

datatype tax_mode = Flat | Progressive | TradeTax | Land

datatype security_policy = PeaceZone | LimitedPvp | OpenPvp

datatype access_policy = OpenAccess | InviteOnly | Bonded

datatype planet_constitution_template = CorporateCharter | MigrantCouncil | FrontierCompact

record planet_constitution =
  pc_template :: planet_constitution_template
  pc_sovereignty_mode :: sovereignty_mode
  pc_voting_chambers :: "voting_chamber list"
  pc_tax_modes :: "tax_mode list"
  pc_security_policy :: security_policy
  pc_access_policy :: access_policy

definition from_template :: "planet_constitution_template \<Rightarrow> planet_constitution" where
  "from_template t =
     (case t of
        CorporateCharter \<Rightarrow>
          \<lparr>pc_template = t, pc_sovereignty_mode = Auction,
           pc_voting_chambers = [Capital, Reputation], pc_tax_modes = [TradeTax, Flat],
           pc_security_policy = LimitedPvp, pc_access_policy = Bonded\<rparr>
      | MigrantCouncil \<Rightarrow>
          \<lparr>pc_template = t, pc_sovereignty_mode = Election,
           pc_voting_chambers = [Citizen, Reputation], pc_tax_modes = [Progressive, TradeTax],
           pc_security_policy = PeaceZone, pc_access_policy = OpenAccess\<rparr>
      | FrontierCompact \<Rightarrow>
          \<lparr>pc_template = t, pc_sovereignty_mode = FrontierClaim,
           pc_voting_chambers = [Capital], pc_tax_modes = [Flat, Land],
           pc_security_policy = OpenPvp, pc_access_policy = InviteOnly\<rparr>)"

subsection \<open>State\<close>

record civic_license =
  cl_agent_did :: string
  cl_issued_at :: int
  cl_expires_at :: int
  cl_issued_by :: string
  cl_proof_event_hash :: string

record sovereignty_bond =
  sb_agent_did :: string
  sb_amount_watt :: int
  sb_locked_until :: int
  sb_active :: bool

record genesis_approval =
  ga_signer_agent_did :: string
  ga_signature :: string

datatype government_status = GovActive | GovRecall | GovCustody

record recall_process =
  rp_initiated_by :: string
  rp_reason :: string
  rp_started_at :: int
  rp_threshold :: int

record custody_period =
  cp_managed_by :: "string option"
  cp_reason :: string
  cp_entered_at :: int

record subnet_planet =
  sp_subnet_id :: string
  sp_name :: string
  sp_creator :: string
  sp_tax_rate :: f64
  sp_created_at :: int
  sp_constitution :: planet_constitution
  sp_treasury_watt :: int
  sp_stability :: int
  sp_government_status :: government_status
  sp_active_recall :: "recall_process option"
  sp_custody :: "custody_period option"
  sp_last_takeover_by :: "string option"
  sp_validators :: "string btree_set"
  sp_relays :: "string btree_set"
  sp_archivists :: "string btree_set"

record genesis_payload =
  gpl_subnet_id :: string
  gpl_name :: string
  gpl_creator :: string
  gpl_created_at :: int

record planet_creation_request =
  pcr_subnet_id :: string
  pcr_name :: string
  pcr_creator :: string
  pcr_created_at :: int
  pcr_tax_rate :: f64
  pcr_constitution_template :: planet_constitution_template
  pcr_min_bond :: int
  pcr_min_approvals :: nat

datatype proposal_status = PropOpen | PropAccepted | PropRejected

record 'v governance_proposal =
  gp_proposal_id :: string
  gp_subnet_id :: string
  gp_kind :: string
  gp_payload :: 'v
  gp_created_by :: string
  gp_created_at :: int
  gp_votes_for :: "string btree_set"
  gp_votes_against :: "string btree_set"
  gp_status :: proposal_status

record 'v governance_engine =
  ge_licenses :: "(string, civic_license) btree_map"
  ge_bonds :: "(string, sovereignty_bond) btree_map"
  ge_planets :: "(string, subnet_planet) btree_map"
  ge_proposals :: "(string, 'v governance_proposal) btree_map"
  ge_validator_heartbeats :: "(string, (string, int) btree_map) btree_map"

datatype gov_error =
    Subnet_already_exists
  | Missing_license
  | Missing_bond
  | Not_enough_approvals
  | Verify_genesis_approval sign_error
  | Invalid_genesis_signature
  | Genesis_sign_error sign_error
  | Subnet_not_found
  | Creator_not_allowed
  | Proposal_not_found
  | Proposal_finalized
  | Proposal_subnet_missing
  | Voter_not_validator
  | Tax_rate_not_f64
  | Amount_not_positive
  | Treasury_too_low
  | Above_recall_threshold
  | Initiator_not_allowed
  | Not_in_recall
  | Not_in_custody
  | Not_vulnerable

definition gov_empty :: "'v governance_engine" where
  "gov_empty = \<lparr>ge_licenses = bempty, ge_bonds = bempty, ge_planets = bempty,
     ge_proposals = bempty, ge_validator_heartbeats = bempty\<rparr>"

subsection \<open>Licenses and bonds\<close>

definition days_in_seconds :: "int \<Rightarrow> int" where
  "days_in_seconds days = to_i64 (to_i64 (days * 24) * 3600)"

definition issue_license ::
  "string \<Rightarrow> string \<Rightarrow> string \<Rightarrow> int \<Rightarrow> int \<Rightarrow> 'v governance_engine \<Rightarrow> civic_license \<times> 'v governance_engine"
  where
  "issue_license agent_did issuer proof_event_hash ttl_days now s =
     (let license = \<lparr>cl_agent_did = agent_did, cl_issued_at = now,
            cl_expires_at = to_i64 (now + days_in_seconds ttl_days),
            cl_issued_by = issuer, cl_proof_event_hash = proof_event_hash\<rparr>
      in (license, s\<lparr>ge_licenses := binsert agent_did license (ge_licenses s)\<rparr>))"

definition lock_bond ::
  "string \<Rightarrow> int \<Rightarrow> int \<Rightarrow> int \<Rightarrow> 'v governance_engine \<Rightarrow> sovereignty_bond \<times> 'v governance_engine" where
  "lock_bond agent_did amount_watt lock_days now s =
     (let bond = \<lparr>sb_agent_did = agent_did, sb_amount_watt = amount_watt,
            sb_locked_until = to_i64 (now + days_in_seconds lock_days), sb_active = True\<rparr>
      in (bond, s\<lparr>ge_bonds := binsert agent_did bond (ge_bonds s)\<rparr>))"

definition has_valid_license :: "'v governance_engine \<Rightarrow> string \<Rightarrow> int \<Rightarrow> bool" where
  "has_valid_license s agent_did now =
     is_some_and (bget (ge_licenses s) agent_did) (\<lambda>license. now \<le> cl_expires_at license)"

definition has_active_bond :: "'v governance_engine \<Rightarrow> string \<Rightarrow> int \<Rightarrow> int \<Rightarrow> bool" where
  "has_active_bond s agent_did min_amount now =
     is_some_and (bget (ge_bonds s) agent_did) (\<lambda>bond.
       sb_active bond \<and> min_amount \<le> sb_amount_watt bond \<and> now \<le> sb_locked_until bond)"

subsection \<open>Creating a planet\<close>

definition sign_genesis_with_signer ::
  "(genesis_payload \<Rightarrow> string option) \<Rightarrow> string \<Rightarrow> string \<Rightarrow> string \<Rightarrow> int \<Rightarrow> identity_compat_view \<Rightarrow>
   (string \<Rightarrow> sign_error + string) \<Rightarrow> gov_error + genesis_approval" where
  "sign_genesis_with_signer jcs subnet_id name creator created_at ident sign_bytes =
     (let payload = \<lparr>gpl_subnet_id = subnet_id, gpl_name = name, gpl_creator = creator,
                     gpl_created_at = created_at\<rparr>
      in case sign_payload_with jcs sign_bytes payload of
           Inl e \<Rightarrow> Err (Genesis_sign_error e)
         | Inr sig \<Rightarrow> Ok \<lparr>ga_signer_agent_did = icv_agent_did ident, ga_signature = sig\<rparr>)"

definition sign_genesis ::
  "crypto \<Rightarrow> (genesis_payload \<Rightarrow> string option) \<Rightarrow> string \<Rightarrow> string \<Rightarrow> string \<Rightarrow> int \<Rightarrow> identity \<Rightarrow>
   gov_error + genesis_approval" where
  "sign_genesis C jcs subnet_id name creator created_at i =
     sign_genesis_with_signer jcs subnet_id name creator created_at (compat_view i) (identity_sign C i)"

definition genesis_payload_digest ::
  "crypto \<Rightarrow> (genesis_payload \<Rightarrow> string option) \<Rightarrow> string \<Rightarrow> string \<Rightarrow> string \<Rightarrow> int \<Rightarrow> gov_error + string" where
  "genesis_payload_digest C jcs subnet_id name creator created_at =
     (let payload = \<lparr>gpl_subnet_id = subnet_id, gpl_name = name, gpl_creator = creator,
                     gpl_created_at = created_at\<rparr>
      in case canonical_bytes jcs payload of
           Inl e \<Rightarrow> Err (Genesis_sign_error e)
         | Inr bytes \<Rightarrow> Ok (hex_encode C bytes))"

fun verify_approvals ::
  "crypto \<Rightarrow> (genesis_payload \<Rightarrow> string option) \<Rightarrow> genesis_payload \<Rightarrow> genesis_approval list \<Rightarrow> gov_error + unit"
  where
  "verify_approvals C jcs payload [] = Ok ()"
| "verify_approvals C jcs payload (a # as) =
     (case verify_payload C jcs payload (ga_signature a) (ga_signer_agent_did a) of
        Inl e \<Rightarrow> Err (Verify_genesis_approval e)
      | Inr ok \<Rightarrow> if \<not> ok then Err Invalid_genesis_signature else verify_approvals C jcs payload as)"

definition request_payload :: "planet_creation_request \<Rightarrow> genesis_payload" where
  "request_payload r = \<lparr>gpl_subnet_id = pcr_subnet_id r, gpl_name = pcr_name r,
     gpl_creator = pcr_creator r, gpl_created_at = pcr_created_at r\<rparr>"

definition new_planet :: "planet_creation_request \<Rightarrow> string btree_set \<Rightarrow> subnet_planet" where
  "new_planet r unique_signers =
     \<lparr>sp_subnet_id = pcr_subnet_id r, sp_name = pcr_name r, sp_creator = pcr_creator r,
      sp_tax_rate = pcr_tax_rate r, sp_created_at = pcr_created_at r,
      sp_constitution = from_template (pcr_constitution_template r),
      sp_treasury_watt = 0, sp_stability = 75, sp_government_status = GovActive,
      sp_active_recall = None, sp_custody = None, sp_last_takeover_by = None,
      sp_validators = unique_signers, sp_relays = bs_of_list [pcr_creator r],
      sp_archivists = unique_signers\<rparr>"

text \<open>\<open>t1\<close> and \<open>t2\<close> are the clock readings of the two gates.\<close>

definition create_planet ::
  "crypto \<Rightarrow> (genesis_payload \<Rightarrow> string option) \<Rightarrow> planet_creation_request \<Rightarrow> genesis_approval list \<Rightarrow>
   int \<Rightarrow> int \<Rightarrow> 'v governance_engine \<Rightarrow> (gov_error + subnet_planet) \<times> 'v governance_engine" where
  "create_planet C jcs r approvals t1 t2 s =
     (if bcontains (ge_planets s) (pcr_subnet_id r) then (Err Subnet_already_exists, s)
      else if \<not> has_valid_license s (pcr_creator r) t1 then (Err Missing_license, s)
      else if \<not> has_active_bond s (pcr_creator r) (pcr_min_bond r) t2 then (Err Missing_bond, s)
      else
        let unique_signers = bs_of_list (map ga_signer_agent_did approvals)
        in if bs_len unique_signers < pcr_min_approvals r then (Err Not_enough_approvals, s)
           else case verify_approvals C jcs (request_payload r) approvals of
                  Inl e \<Rightarrow> (Err e, s)
                | Inr _ \<Rightarrow>
                  let planet = new_planet r unique_signers
                  in (Ok planet, s\<lparr>ge_planets := binsert (pcr_subnet_id r) planet (ge_planets s)\<rparr>))"

definition planet :: "'v governance_engine \<Rightarrow> string \<Rightarrow> subnet_planet option" where
  "planet s subnet_id = bget (ge_planets s) subnet_id"

definition list_planets :: "'v governance_engine \<Rightarrow> subnet_planet list" where
  "list_planets s = bvalues (ge_planets s)"

subsection \<open>Proposals\<close>

definition list_proposals :: "'v governance_engine \<Rightarrow> string option \<Rightarrow> 'v governance_proposal list" where
  "list_proposals s subnet_filter =
     sort_key (\<lambda>p. (gp_created_at p, gp_proposal_id p))
       (filter (\<lambda>p. is_none_or subnet_filter (\<lambda>subnet. gp_subnet_id p = subnet))
          (bvalues (ge_proposals s)))"

definition create_proposal ::
  "string \<Rightarrow> string \<Rightarrow> 'v \<Rightarrow> string \<Rightarrow> string \<Rightarrow> int \<Rightarrow> 'v governance_engine \<Rightarrow>
   (gov_error + 'v governance_proposal) \<times> 'v governance_engine" where
  "create_proposal subnet_id kind payload created_by uuid now s =
     (case bget (ge_planets s) subnet_id of
        None \<Rightarrow> (Err Subnet_not_found, s)
      | Some p \<Rightarrow>
        if \<not> bs_member created_by (sp_validators p) \<and> sp_creator p \<noteq> created_by
        then (Err Creator_not_allowed, s)
        else
          let proposal = \<lparr>gp_proposal_id = uuid, gp_subnet_id = subnet_id, gp_kind = kind,
                gp_payload = payload, gp_created_by = created_by, gp_created_at = now,
                gp_votes_for = bempty, gp_votes_against = bempty, gp_status = PropOpen\<rparr>
          in (Ok proposal, s\<lparr>ge_proposals := binsert uuid proposal (ge_proposals s)\<rparr>))"

text \<open>The recording of one vote: the voter leaves both sides and joins the chosen one.\<close>

definition cast_vote :: "'v governance_proposal \<Rightarrow> string \<Rightarrow> bool \<Rightarrow> 'v governance_proposal" where
  "cast_vote p voter approve =
     (let yes = bs_remove voter (gp_votes_for p);
          no = bs_remove voter (gp_votes_against p)
      in if approve
         then p\<lparr>gp_votes_for := bs_insert voter yes, gp_votes_against := no\<rparr>
         else p\<lparr>gp_votes_for := yes, gp_votes_against := bs_insert voter no\<rparr>)"

definition vote_proposal ::
  "string \<Rightarrow> string \<Rightarrow> bool \<Rightarrow> 'v governance_engine \<Rightarrow> (gov_error + unit) \<times> 'v governance_engine" where
  "vote_proposal proposal_id voter approve s =
     (case bget (ge_proposals s) proposal_id of
        None \<Rightarrow> (Err Proposal_not_found, s)
      | Some p \<Rightarrow>
        if gp_status p \<noteq> PropOpen then (Err Proposal_finalized, s)
        else case bget (ge_planets s) (gp_subnet_id p) of
               None \<Rightarrow> (Err Proposal_subnet_missing, s)
             | Some pl \<Rightarrow>
               if \<not> bs_member voter (sp_validators pl) then (Err Voter_not_validator, s)
               else (Ok (), s\<lparr>ge_proposals :=
                      binsert proposal_id (cast_vote p voter approve) (ge_proposals s)\<rparr>))"

definition apply_proposal_effects ::
  "('v \<Rightarrow> f64 option) \<Rightarrow> string \<Rightarrow> string \<Rightarrow> 'v \<Rightarrow> 'v governance_engine \<Rightarrow>
   (gov_error + unit) \<times> 'v governance_engine" where
  "apply_proposal_effects tax_rate_of subnet_id kind payload s =
     (if kind = ''update_tax_rate'' then
        (case tax_rate_of payload of
           None \<Rightarrow> (Err Tax_rate_not_f64, s)
         | Some tax_rate \<Rightarrow>
           (case bget (ge_planets s) subnet_id of
              None \<Rightarrow> (Err Subnet_not_found, s)
            | Some p \<Rightarrow> (Ok (), s\<lparr>ge_planets :=
                binsert subnet_id (p\<lparr>sp_tax_rate := tax_rate\<rparr>) (ge_planets s)\<rparr>)))
      else (Ok (), s))"

definition proposal_passes :: "'v governance_proposal \<Rightarrow> nat \<Rightarrow> bool" where
  "proposal_passes p min_votes_for \<longleftrightarrow>
     min_votes_for \<le> bs_len (gp_votes_for p) \<and>
     bs_len (gp_votes_against p) < bs_len (gp_votes_for p)"

definition finalize_proposal ::
  "('v \<Rightarrow> f64 option) \<Rightarrow> string \<Rightarrow> nat \<Rightarrow> 'v governance_engine \<Rightarrow>
   (gov_error + 'v governance_proposal) \<times> 'v governance_engine" where
  "finalize_proposal tax_rate_of proposal_id min_votes_for s =
     (case bget (ge_proposals s) proposal_id of
        None \<Rightarrow> (Err Proposal_not_found, s)
      | Some p \<Rightarrow>
        if gp_status p \<noteq> PropOpen then (Ok p, s)
        else if proposal_passes p min_votes_for then
          let snapshot = p\<lparr>gp_status := PropAccepted\<rparr>;
              s1 = s\<lparr>ge_proposals := binsert proposal_id snapshot (ge_proposals s)\<rparr>
          in case apply_proposal_effects tax_rate_of (gp_subnet_id p) (gp_kind p) (gp_payload p) s1 of
               (Inl e, s2) \<Rightarrow> (Err e, s2)
             | (Inr _, s2) \<Rightarrow> (Ok snapshot, s2)
        else
          let snapshot = p\<lparr>gp_status := PropRejected\<rparr>
          in (Ok snapshot, s\<lparr>ge_proposals := binsert proposal_id snapshot (ge_proposals s)\<rparr>))"

subsection \<open>Validators\<close>

definition record_validator_heartbeat ::
  "string \<Rightarrow> string \<Rightarrow> int \<Rightarrow> 'v governance_engine \<Rightarrow> 'v governance_engine" where
  "record_validator_heartbeat subnet_id validator ts s =
     s\<lparr>ge_validator_heartbeats :=
         binsert subnet_id
           (binsert validator ts (bget_or bempty (ge_validator_heartbeats s) subnet_id))
           (ge_validator_heartbeats s)\<rparr>"

fun rotate_fill :: "string btree_set \<Rightarrow> string list \<Rightarrow> string btree_set" where
  "rotate_fill vs [] = vs"
| "rotate_fill vs (c # cs) =
     (let vs' = (if bs_len vs = 0 \<or> \<not> bs_member c vs then bs_insert c vs else vs)
      in if 3 \<le> bs_len vs' then vs' else rotate_fill vs' cs)"

definition fresh_heartbeat :: "(string, int) btree_map \<Rightarrow> int \<Rightarrow> int \<Rightarrow> string \<Rightarrow> bool" where
  "fresh_heartbeat heartbeats now stale_after_sec validator =
     is_some_and (bget heartbeats validator) (\<lambda>ts. to_i64 (now - ts) \<le> stale_after_sec)"

definition rotate_validators ::
  "string \<Rightarrow> int \<Rightarrow> string list \<Rightarrow> int \<Rightarrow> 'v governance_engine \<Rightarrow>
   (gov_error + string list) \<times> 'v governance_engine" where
  "rotate_validators subnet_id stale_after_sec candidate_pool now s =
     (let heartbeats = bget_or bempty (ge_validator_heartbeats s) subnet_id;
          s1 = s\<lparr>ge_validator_heartbeats := binsert subnet_id heartbeats (ge_validator_heartbeats s)\<rparr>
      in case bget (ge_planets s1) subnet_id of
           None \<Rightarrow> (Err Subnet_not_found, s1)
         | Some p \<Rightarrow>
           let kept = bretain (\<lambda>v _. fresh_heartbeat heartbeats now stale_after_sec v) (sp_validators p);
               vs = rotate_fill kept candidate_pool
           in (Ok (bs_elems vs),
               s1\<lparr>ge_planets := binsert subnet_id (p\<lparr>sp_validators := vs\<rparr>) (ge_planets s1)\<rparr>))"

subsection \<open>Treasury, stability, recall, custody and takeover\<close>

text \<open>
  The pattern shared by these operations: \<^verbatim>\<open>get_mut(subnet_id).context(..)?\<close>, then guards
  that return early, then field updates, then \<^verbatim>\<open>Ok(planet.clone())\<close>.
\<close>

definition modify_planet ::
  "string \<Rightarrow> (subnet_planet \<Rightarrow> gov_error + subnet_planet) \<Rightarrow> 'v governance_engine \<Rightarrow>
   (gov_error + subnet_planet) \<times> 'v governance_engine" where
  "modify_planet subnet_id f s =
     (case bget (ge_planets s) subnet_id of
        None \<Rightarrow> (Err Subnet_not_found, s)
      | Some p \<Rightarrow>
        (case f p of
           Inl e \<Rightarrow> (Err e, s)
         | Inr p' \<Rightarrow> (Ok p', s\<lparr>ge_planets := binsert subnet_id p' (ge_planets s)\<rparr>)))"

definition fund_treasury ::
  "string \<Rightarrow> int \<Rightarrow> 'v governance_engine \<Rightarrow> (gov_error + subnet_planet) \<times> 'v governance_engine" where
  "fund_treasury subnet_id amount_watt s =
     (if amount_watt \<le> 0 then (Err Amount_not_positive, s)
      else modify_planet subnet_id (\<lambda>p. Ok (p\<lparr>
             sp_treasury_watt := to_i64 (sp_treasury_watt p + amount_watt),
             sp_stability := min (to_i64 (sp_stability p + 2)) 100\<rparr>)) s)"

definition spend_treasury ::
  "string \<Rightarrow> int \<Rightarrow> 'v governance_engine \<Rightarrow> (gov_error + subnet_planet) \<times> 'v governance_engine" where
  "spend_treasury subnet_id amount_watt s =
     (if amount_watt \<le> 0 then (Err Amount_not_positive, s)
      else modify_planet subnet_id (\<lambda>p.
             if sp_treasury_watt p < amount_watt then Err Treasury_too_low
             else Ok (p\<lparr>sp_treasury_watt := to_i64 (sp_treasury_watt p - amount_watt)\<rparr>)) s)"

definition adjust_stability ::
  "string \<Rightarrow> int \<Rightarrow> 'v governance_engine \<Rightarrow> (gov_error + subnet_planet) \<times> 'v governance_engine" where
  "adjust_stability subnet_id delta s =
     modify_planet subnet_id (\<lambda>p. Ok (p\<lparr>
       sp_stability := clamp_i64 0 100 (to_i64 (sp_stability p + delta))\<rparr>)) s"

definition recall_eligible :: "'v governance_engine \<Rightarrow> string \<Rightarrow> int \<Rightarrow> bool" where
  "recall_eligible s subnet_id threshold =
     is_some_and (bget (ge_planets s) subnet_id) (\<lambda>p. sp_stability p \<le> threshold)"

definition start_recall ::
  "string \<Rightarrow> string \<Rightarrow> string \<Rightarrow> int \<Rightarrow> int \<Rightarrow> 'v governance_engine \<Rightarrow>
   (gov_error + subnet_planet) \<times> 'v governance_engine" where
  "start_recall subnet_id initiated_by reason threshold now s =
     modify_planet subnet_id (\<lambda>p.
       if threshold < sp_stability p then Err Above_recall_threshold
       else if initiated_by \<noteq> sp_creator p \<and> \<not> bs_member initiated_by (sp_validators p)
       then Err Initiator_not_allowed
       else Ok (p\<lparr>
         sp_government_status := GovRecall,
         sp_active_recall := Some \<lparr>rp_initiated_by = initiated_by, rp_reason = reason,
           rp_started_at = now, rp_threshold = threshold\<rparr>\<rparr>)) s"

text \<open>The successor becomes creator, validator and relay.\<close>

definition install_creator :: "string \<Rightarrow> subnet_planet \<Rightarrow> subnet_planet" where
  "install_creator agent p = p\<lparr>sp_creator := agent,
     sp_validators := bs_insert agent (sp_validators p),
     sp_relays := bs_insert agent (sp_relays p)\<rparr>"

definition resolve_recall ::
  "string \<Rightarrow> string \<Rightarrow> int \<Rightarrow> int \<Rightarrow> int \<Rightarrow> 'v governance_engine \<Rightarrow>
   (gov_error + subnet_planet) \<times> 'v governance_engine" where
  "resolve_recall subnet_id successor min_bond t1 t2 s =
     (if \<not> has_valid_license s successor t1 then (Err Missing_license, s)
      else if \<not> has_active_bond s successor min_bond t2 then (Err Missing_bond, s)
      else modify_planet subnet_id (\<lambda>p.
        if sp_government_status p \<noteq> GovRecall then Err Not_in_recall
        else Ok ((install_creator successor p)\<lparr>
          sp_government_status := GovActive,
          sp_active_recall := None,
          sp_stability := clamp_i64 0 100 (to_i64 (sp_stability p + 25))\<rparr>)) s)"

definition enter_custody ::
  "string \<Rightarrow> string \<Rightarrow> string option \<Rightarrow> int \<Rightarrow> 'v governance_engine \<Rightarrow>
   (gov_error + subnet_planet) \<times> 'v governance_engine" where
  "enter_custody subnet_id reason managed_by now s =
     modify_planet subnet_id (\<lambda>p. Ok (p\<lparr>
       sp_government_status := GovCustody,
       sp_custody := Some \<lparr>cp_managed_by = managed_by, cp_reason = reason, cp_entered_at = now\<rparr>,
       sp_active_recall := None,
       sp_stability := min (sp_stability p) 25\<rparr>)) s"

definition release_custody ::
  "string \<Rightarrow> string option \<Rightarrow> int \<Rightarrow> int \<Rightarrow> int \<Rightarrow> 'v governance_engine \<Rightarrow>
   (gov_error + subnet_planet) \<times> 'v governance_engine" where
  "release_custody subnet_id successor min_bond t1 t2 s =
     (if is_some_and successor (\<lambda>agent. \<not> has_valid_license s agent t1) then (Err Missing_license, s)
      else if is_some_and successor (\<lambda>agent. \<not> has_active_bond s agent min_bond t2)
      then (Err Missing_bond, s)
      else modify_planet subnet_id (\<lambda>p.
        if sp_government_status p \<noteq> GovCustody then Err Not_in_custody
        else
          let p1 = (case successor of None \<Rightarrow> p | Some agent \<Rightarrow> install_creator agent p)
          in Ok (p1\<lparr>sp_government_status := GovActive, sp_custody := None,
                    sp_stability := max (sp_stability p1) 50\<rparr>)) s)"

definition hostile_takeover ::
  "string \<Rightarrow> string \<Rightarrow> int \<Rightarrow> string \<Rightarrow> int \<Rightarrow> int \<Rightarrow> 'v governance_engine \<Rightarrow>
   (gov_error + subnet_planet) \<times> 'v governance_engine" where
  "hostile_takeover subnet_id challenger min_bond reason t1 t2 s =
     (if \<not> has_valid_license s challenger t1 then (Err Missing_license, s)
      else if \<not> has_active_bond s challenger min_bond t2 then (Err Missing_bond, s)
      else modify_planet subnet_id (\<lambda>p.
        if \<not> (sp_government_status p = GovCustody \<or> sp_stability p \<le> 20) then Err Not_vulnerable
        else Ok ((install_creator challenger p)\<lparr>
          sp_government_status := GovActive,
          sp_active_recall := None,
          sp_custody := None,
          sp_last_takeover_by := Some (challenger @ '':'' @ reason),
          sp_stability := 40\<rparr>)) s)"

subsection \<open>One step of the engine\<close>

text \<open>Every method that changes the engine, with its arguments and its clock readings.\<close>

datatype 'v gov_op =
    Issue_license string string string int int
  | Lock_bond string int int int
  | Create_planet planet_creation_request "genesis_approval list" int int
  | Create_proposal string string 'v string string int
  | Vote_proposal string string bool
  | Finalize_proposal string nat
  | Record_validator_heartbeat string string int
  | Rotate_validators string int "string list" int
  | Fund_treasury string int
  | Spend_treasury string int
  | Adjust_stability string int
  | Start_recall string string string int int
  | Resolve_recall string string int int int
  | Enter_custody string string "string option" int
  | Release_custody string "string option" int int int
  | Hostile_takeover string string int string int int

definition gov_step ::
  "crypto \<Rightarrow> (genesis_payload \<Rightarrow> string option) \<Rightarrow> ('v \<Rightarrow> f64 option) \<Rightarrow>
   'v governance_engine \<Rightarrow> 'v gov_op \<Rightarrow> 'v governance_engine" where
  "gov_step C jcs tax_rate_of s p =
     (case p of
        Issue_license agent issuer proof_hash ttl now \<Rightarrow> snd (issue_license agent issuer proof_hash ttl now s)
      | Lock_bond agent amount days now \<Rightarrow> snd (lock_bond agent amount days now s)
      | Create_planet r approvals t1 t2 \<Rightarrow> snd (create_planet C jcs r approvals t1 t2 s)
      | Create_proposal subnet kind payload by uuid now \<Rightarrow>
          snd (create_proposal subnet kind payload by uuid now s)
      | Vote_proposal i voter approve \<Rightarrow> snd (vote_proposal i voter approve s)
      | Finalize_proposal i min_votes \<Rightarrow> snd (finalize_proposal tax_rate_of i min_votes s)
      | Record_validator_heartbeat subnet v ts \<Rightarrow> record_validator_heartbeat subnet v ts s
      | Rotate_validators subnet stale pool now \<Rightarrow> snd (rotate_validators subnet stale pool now s)
      | Fund_treasury subnet amount \<Rightarrow> snd (fund_treasury subnet amount s)
      | Spend_treasury subnet amount \<Rightarrow> snd (spend_treasury subnet amount s)
      | Adjust_stability subnet delta \<Rightarrow> snd (adjust_stability subnet delta s)
      | Start_recall subnet by reason threshold now \<Rightarrow> snd (start_recall subnet by reason threshold now s)
      | Resolve_recall subnet successor bond t1 t2 \<Rightarrow> snd (resolve_recall subnet successor bond t1 t2 s)
      | Enter_custody subnet reason manager now \<Rightarrow> snd (enter_custody subnet reason manager now s)
      | Release_custody subnet successor bond t1 t2 \<Rightarrow> snd (release_custody subnet successor bond t1 t2 s)
      | Hostile_takeover subnet challenger bond reason t1 t2 \<Rightarrow>
          snd (hostile_takeover subnet challenger bond reason t1 t2 s))"

subsection \<open>Well-formed engines\<close>

text \<open>
  A planet is stored under its own id, its stability is a percentage, a recall process is open
  exactly while the status is \<^verbatim>\<open>Recall\<close>, and a planet in \<^verbatim>\<open>Custody\<close> has a custody
  period. A proposal is stored under its own id, belongs to a planet of the engine, and nobody
  stands on both sides of its ballot. Licenses and bonds are stored under their holder.
\<close>

definition planet_ok :: "string \<Rightarrow> subnet_planet \<Rightarrow> bool" where [inv_defs]:
  "planet_ok k p \<longleftrightarrow> sp_subnet_id p = k \<and> 0 \<le> sp_stability p \<and> sp_stability p \<le> 100 \<and>
     (sp_active_recall p \<noteq> None \<longleftrightarrow> sp_government_status p = GovRecall) \<and>
     (sp_government_status p = GovCustody \<longrightarrow> sp_custody p \<noteq> None)"

definition proposal_ok ::
  "(string, subnet_planet) btree_map \<Rightarrow> string \<Rightarrow> 'v governance_proposal \<Rightarrow> bool" where [inv_defs]:
  "proposal_ok planets k p \<longleftrightarrow> gp_proposal_id p = k \<and> bget planets (gp_subnet_id p) \<noteq> None \<and>
     bs_set (gp_votes_for p) \<inter> bs_set (gp_votes_against p) = {}"

definition gov_inv :: "'v governance_engine \<Rightarrow> bool" where [inv_defs]:
  "gov_inv s \<longleftrightarrow>
     (\<forall>k p. bget (ge_planets s) k = Some p \<longrightarrow> planet_ok k p) \<and>
     (\<forall>k p. bget (ge_proposals s) k = Some p \<longrightarrow> proposal_ok (ge_planets s) k p) \<and>
     (\<forall>k l. bget (ge_licenses s) k = Some l \<longrightarrow> cl_agent_did l = k) \<and>
     (\<forall>k b. bget (ge_bonds s) k = Some b \<longrightarrow> sb_agent_did b = k)"

lemma modify_planet_others [simp]:
  "ge_licenses (snd (modify_planet k f s)) = ge_licenses s"
  "ge_bonds (snd (modify_planet k f s)) = ge_bonds s"
  "ge_proposals (snd (modify_planet k f s)) = ge_proposals s"
  "ge_validator_heartbeats (snd (modify_planet k f s)) = ge_validator_heartbeats s"
  by (simp_all add: modify_planet_def split: option.splits sum.splits)

lemma modify_planet_get:
  "bget (ge_planets (snd (modify_planet k f s))) j =
     (if j = k then map_option (\<lambda>p. case f p of Inl _ \<Rightarrow> p | Inr p' \<Rightarrow> p') (bget (ge_planets s) k)
      else bget (ge_planets s) j)"
  by (auto simp: modify_planet_def split: option.splits sum.splits)

lemma modify_planet_inv:
  assumes "gov_inv s"
    and "\<And>p p'. bget (ge_planets s) k = Some p \<Longrightarrow> planet_ok k p \<Longrightarrow> f p = Ok p' \<Longrightarrow> planet_ok k p'"
  shows "gov_inv (snd (modify_planet k f s))"
proof -
  have "proposal_ok (ge_planets (snd (modify_planet k f s))) j q"
    if "bget (ge_proposals s) j = Some q" for j q
    using that assms(1) by (auto simp: gov_inv_def proposal_ok_def modify_planet_get)
  moreover have "planet_ok j q" if "bget (ge_planets (snd (modify_planet k f s))) j = Some q" for j q
  proof (cases "j = k")
    case True
    with that obtain p where p: "bget (ge_planets s) k = Some p"
        and q: "q = (case f p of Inl _ \<Rightarrow> p | Inr p' \<Rightarrow> p')"
      by (auto simp: modify_planet_get)
    have "planet_ok k p" using assms(1) p by (simp add: gov_inv_def)
    with assms(2) p q True show ?thesis by (cases "f p") auto
  next
    case False
    with that assms(1) show ?thesis by (simp add: modify_planet_get gov_inv_def)
  qed
  ultimately show ?thesis using assms(1) by (simp add: gov_inv_def)
qed

lemma gov_inv_planet_upd:
  assumes "gov_inv s" and "planet_ok k p"
  shows "gov_inv (s\<lparr>ge_planets := binsert k p (ge_planets s)\<rparr>)"
  using assms by (auto simp: gov_inv_def proposal_ok_def)

lemma gov_inv_planet_heartbeat_upd:
  assumes "gov_inv s" and "planet_ok k p"
  shows "gov_inv (s\<lparr>ge_validator_heartbeats := h, ge_planets := binsert k p (ge_planets s)\<rparr>)"
  using assms by (auto simp: gov_inv_def proposal_ok_def)

lemma gov_inv_proposal_upd:
  assumes "gov_inv s" and "proposal_ok (ge_planets s) k p"
  shows "gov_inv (s\<lparr>ge_proposals := binsert k p (ge_proposals s)\<rparr>)"
  using assms by (auto simp: gov_inv_def)

lemma gov_inv_heartbeats [simp]: "gov_inv (s\<lparr>ge_validator_heartbeats := h\<rparr>) = gov_inv s"
  by (simp add: gov_inv_def)

lemma gov_inv_planetD: "gov_inv s \<Longrightarrow> bget (ge_planets s) k = Some p \<Longrightarrow> planet_ok k p"
  by (simp add: gov_inv_def)

lemma gov_inv_proposalD:
  "gov_inv s \<Longrightarrow> bget (ge_proposals s) k = Some p \<Longrightarrow> proposal_ok (ge_planets s) k p"
  by (simp add: gov_inv_def)

interpretation gov_ballot: ballot "\<lambda>p. bs_set (gp_votes_for p)" "\<lambda>p. bs_set (gp_votes_against p)" cast_vote
  by unfold_locales (auto simp: cast_vote_def Let_def)

lemma cast_vote_same [simp]:
  "gp_proposal_id (cast_vote p v y) = gp_proposal_id p"
  "gp_subnet_id (cast_vote p v y) = gp_subnet_id p"
  "gp_status (cast_vote p v y) = gp_status p"
  by (simp_all add: cast_vote_def Let_def)

subsubsection \<open>Every operation keeps it\<close>

lemma issue_license_inv: "gov_inv s \<Longrightarrow> gov_inv (snd (issue_license a i h t n s))"
  by (auto simp: issue_license_def Let_def gov_inv_def proposal_ok_def)

lemma lock_bond_inv: "gov_inv s \<Longrightarrow> gov_inv (snd (lock_bond a m d n s))"
  by (auto simp: lock_bond_def Let_def gov_inv_def proposal_ok_def)

lemma new_planet_ok: "planet_ok (pcr_subnet_id r) (new_planet r vs)"
  by (simp add: planet_ok_def new_planet_def)

lemma create_planet_inv: "gov_inv s \<Longrightarrow> gov_inv (snd (create_planet C jcs r as t1 t2 s))"
  by (auto simp: create_planet_def Let_def new_planet_ok split: sum.splits
      intro!: gov_inv_planet_upd)

lemma create_proposal_inv: "gov_inv s \<Longrightarrow> gov_inv (snd (create_proposal sn k pl b u n s))"
  by (auto simp: create_proposal_def Let_def proposal_ok_def split: option.splits
      intro!: gov_inv_proposal_upd)

lemma vote_proposal_inv: "gov_inv s \<Longrightarrow> gov_inv (snd (vote_proposal i v y s))"
  by (auto simp: vote_proposal_def proposal_ok_def split: option.splits
      dest!: gov_inv_proposalD intro!: gov_inv_proposal_upd gov_ballot.cast_disjoint)

lemma apply_proposal_effects_inv:
  "gov_inv s \<Longrightarrow> gov_inv (snd (apply_proposal_effects T i k v s))"
  by (auto simp: apply_proposal_effects_def planet_ok_def split: option.splits
      dest: gov_inv_planetD intro!: gov_inv_planet_upd)

lemma proposal_status_inv:
  "gov_inv s \<Longrightarrow> bget (ge_proposals s) i = Some p \<Longrightarrow>
     gov_inv (s\<lparr>ge_proposals := binsert i (p\<lparr>gp_status := st\<rparr>) (ge_proposals s)\<rparr>)"
  by (auto simp: proposal_ok_def dest!: gov_inv_proposalD intro!: gov_inv_proposal_upd)

lemma finalize_proposal_state:
  "snd (finalize_proposal T i m s) =
     (case bget (ge_proposals s) i of
        None \<Rightarrow> s
      | Some p \<Rightarrow>
        if gp_status p \<noteq> PropOpen then s
        else if proposal_passes p m
        then snd (apply_proposal_effects T (gp_subnet_id p) (gp_kind p) (gp_payload p)
               (s\<lparr>ge_proposals := binsert i (p\<lparr>gp_status := PropAccepted\<rparr>) (ge_proposals s)\<rparr>))
        else s\<lparr>ge_proposals := binsert i (p\<lparr>gp_status := PropRejected\<rparr>) (ge_proposals s)\<rparr>)"
  by (simp add: finalize_proposal_def Let_def split: option.splits prod.splits sum.splits)

lemma finalize_proposal_inv: "gov_inv s \<Longrightarrow> gov_inv (snd (finalize_proposal T i m s))"
  by (auto simp: finalize_proposal_state split: option.splits
      intro: apply_proposal_effects_inv proposal_status_inv)

lemma record_validator_heartbeat_inv: "gov_inv s \<Longrightarrow> gov_inv (record_validator_heartbeat k v t s)"
  by (simp add: record_validator_heartbeat_def)

lemma rotate_validators_inv: "gov_inv s \<Longrightarrow> gov_inv (snd (rotate_validators k st cs n s))"
  by (auto simp: rotate_validators_def Let_def planet_ok_def split: option.splits
      dest: gov_inv_planetD intro!: gov_inv_planet_heartbeat_upd)

lemma fund_treasury_inv: "gov_inv s \<Longrightarrow> gov_inv (snd (fund_treasury k a s))"
  by (auto simp: fund_treasury_def planet_ok_def to_i64_small intro!: modify_planet_inv)

lemma spend_treasury_inv: "gov_inv s \<Longrightarrow> gov_inv (snd (spend_treasury k a s))"
  by (auto simp: spend_treasury_def planet_ok_def intro!: modify_planet_inv split: if_splits)

lemma adjust_stability_inv: "gov_inv s \<Longrightarrow> gov_inv (snd (adjust_stability k d s))"
  by (auto simp: adjust_stability_def planet_ok_def clamp_i64_def intro!: modify_planet_inv)

lemma start_recall_inv: "gov_inv s \<Longrightarrow> gov_inv (snd (start_recall k b r t n s))"
  by (auto simp: start_recall_def planet_ok_def intro!: modify_planet_inv split: if_splits)

lemma resolve_recall_inv: "gov_inv s \<Longrightarrow> gov_inv (snd (resolve_recall k a b t1 t2 s))"
  by (auto simp: resolve_recall_def planet_ok_def install_creator_def clamp_i64_def
      intro!: modify_planet_inv split: if_splits)

lemma enter_custody_inv: "gov_inv s \<Longrightarrow> gov_inv (snd (enter_custody k r m n s))"
  by (auto simp: enter_custody_def planet_ok_def intro!: modify_planet_inv)

lemma release_custody_inv: "gov_inv s \<Longrightarrow> gov_inv (snd (release_custody k a b t1 t2 s))"
  by (auto simp: release_custody_def planet_ok_def install_creator_def Let_def
      intro!: modify_planet_inv split: if_splits option.splits)

lemma hostile_takeover_inv: "gov_inv s \<Longrightarrow> gov_inv (snd (hostile_takeover k a b r t1 t2 s))"
  by (auto simp: hostile_takeover_def planet_ok_def install_creator_def
      intro!: modify_planet_inv split: if_splits)

lemmas gov_ops_inv = issue_license_inv lock_bond_inv create_planet_inv create_proposal_inv
  vote_proposal_inv finalize_proposal_inv record_validator_heartbeat_inv rotate_validators_inv
  fund_treasury_inv spend_treasury_inv adjust_stability_inv start_recall_inv resolve_recall_inv
  enter_custody_inv release_custody_inv hostile_takeover_inv

interpretation gov_machine: invariant_machine "gov_step C jcs T" "\<lambda>_. True" gov_inv
  for C jcs T
  by unfold_locales (auto simp: gov_step_def split: gov_op.splits intro: gov_ops_inv)

lemma gov_inv_empty: "gov_inv gov_empty"
  by (simp add: gov_inv_def gov_empty_def)

text \<open>
  C1: whatever sequence of operations is applied to a new engine, whether they succeed or fail,
  the engine stays well formed.
\<close>

theorem gov_reachable_wf: "gov_inv (run (gov_step C jcs tax_rate_of) gov_empty ops)"
  by (rule gov_machine.run_inv [OF _ gov_inv_empty]) (simp add: list_all_iff)

subsection \<open>Creating planets\<close>

lemma verify_approvals_ok:
  "verify_approvals C jcs pl as = Ok () \<longleftrightarrow>
     (\<forall>a \<in> set as. verify_payload C jcs pl (ga_signature a) (ga_signer_agent_did a) = Ok True)"
  by (induction as) (auto split: sum.splits if_splits)

text \<open>
  C6: a planet is created exactly if the subnet id is free, the creator holds an unexpired
  license and an active bond of the required size, the approvals name at least the required
  number of distinct signers and every one of them carries a valid signature of the same genesis
  payload. The new planet is stable, its validators are the signers, and nothing else changes;
  a refused request changes nothing.
\<close>

theorem create_planet_gates:
  "(is_ok (fst (create_planet C jcs r as t1 t2 s)) \<longleftrightarrow>
      bget (ge_planets s) (pcr_subnet_id r) = None \<and>
      (\<exists>l. bget (ge_licenses s) (pcr_creator r) = Some l \<and> t1 \<le> cl_expires_at l) \<and>
      (\<exists>b. bget (ge_bonds s) (pcr_creator r) = Some b \<and> sb_active b \<and>
           pcr_min_bond r \<le> sb_amount_watt b \<and> t2 \<le> sb_locked_until b) \<and>
      pcr_min_approvals r \<le> card (ga_signer_agent_did ` set as) \<and>
      (\<forall>a \<in> set as.
         verify_payload C jcs (request_payload r) (ga_signature a) (ga_signer_agent_did a) = Ok True)) \<and>
   (case create_planet C jcs r as t1 t2 s of
      (Inl e, s') \<Rightarrow> s' = s
    | (Inr p, s') \<Rightarrow>
        sp_creator p = pcr_creator r \<and> sp_stability p = 75 \<and> sp_treasury_watt p = 0 \<and>
        bs_set (sp_validators p) = ga_signer_agent_did ` set as \<and>
        s' = s\<lparr>ge_planets := ge_planets s'\<rparr> \<and>
        bget (ge_planets s') = (bget (ge_planets s))(pcr_subnet_id r \<mapsto> p))"
proof -
  have len: "bs_len (bs_of_list (map ga_signer_agent_did as)) = card (ga_signer_agent_did ` set as)"
    by (simp add: bs_len_card)
  have ver: "(\<exists>u. verify_approvals C jcs pl as = Ok u) \<longleftrightarrow>
      (\<forall>a \<in> set as. verify_payload C jcs pl (ga_signature a) (ga_signer_agent_did a) = Ok True)" for pl
    by (simp flip: verify_approvals_ok)
  have lic: "has_valid_license s a t \<longleftrightarrow> (\<exists>l. bget (ge_licenses s) a = Some l \<and> t \<le> cl_expires_at l)"
    and bond: "has_active_bond s a m t \<longleftrightarrow> (\<exists>b. bget (ge_bonds s) a = Some b \<and> sb_active b \<and>
           m \<le> sb_amount_watt b \<and> t \<le> sb_locked_until b)" for a m t
    by (simp_all add: has_valid_license_def has_active_bond_def is_some_and_iff)
  show ?thesis
    unfolding lic [symmetric] bond [symmetric] ver [symmetric] len [symmetric]
    by (auto simp: create_planet_def Let_def new_planet_def fun_eq_iff split: sum.splits)
qed

lemma sign_genesis_verifies:
  assumes "crypto_laws C" and "import_ed25519_private_key C e k = Ok i"
    and "sign_genesis C jcs (pcr_subnet_id r) (pcr_name r) (pcr_creator r) (pcr_created_at r) i = Ok a"
  shows "ga_signer_agent_did a = id_agent_did i"
    and "verify_payload C jcs (request_payload r) (ga_signature a) (ga_signer_agent_did a) = Ok True"
proof -
  obtain sig where sig: "sign_payload_with jcs (identity_sign C i) (request_payload r) = Ok sig"
      and a: "a = \<lparr>ga_signer_agent_did = id_agent_did i, ga_signature = sig\<rparr>"
    using assms(3) by (auto simp: sign_genesis_def sign_genesis_with_signer_def compat_view_def
        request_payload_def Let_def split: sum.splits)
  then show "ga_signer_agent_did a = id_agent_did i" by simp
  show "verify_payload C jcs (request_payload r) (ga_signature a) (ga_signer_agent_did a) = Ok True"
    using sign_payload_verifies [OF assms(1,2) sig] a by simp
qed

text \<open>
  C13: the signatures that \<^verbatim>\<open>sign_genesis\<close> makes are the ones \<^verbatim>\<open>create_planet\<close> accepts.
  If the subnet id is free, the creator holds a valid license and an active bond, and enough
  distinct imported identities sign the request, the planet is created.
\<close>

theorem create_planet_accepts_signed:
  assumes "crypto_laws C"
    and "\<forall>a \<in> set as. \<exists>e k i. import_ed25519_private_key C e k = Ok i \<and>
      sign_genesis C jcs (pcr_subnet_id r) (pcr_name r) (pcr_creator r) (pcr_created_at r) i = Ok a"
    and "pcr_min_approvals r \<le> card (ga_signer_agent_did ` set as)"
    and "planet s (pcr_subnet_id r) = None"
    and "has_valid_license s (pcr_creator r) t1"
    and "has_active_bond s (pcr_creator r) (pcr_min_bond r) t2"
  shows "fst (create_planet C jcs r as t1 t2 s) =
     Ok (new_planet r (bs_of_list (map ga_signer_agent_did as)))"
proof -
  have "verify_approvals C jcs (request_payload r) as = Ok ()"
    unfolding verify_approvals_ok using assms(2) sign_genesis_verifies(2) [OF assms(1)] by blast
  with assms(3-6) show ?thesis
    by (simp add: create_planet_def Let_def planet_def bs_len_card)
qed

definition demo_request :: planet_creation_request where
  "demo_request = \<lparr>pcr_subnet_id = ''mars'', pcr_name = ''Mars'', pcr_creator = ''did:key:a'',
     pcr_created_at = 5, pcr_tax_rate = F64_Fin 0, pcr_constitution_template = MigrantCouncil,
     pcr_min_bond = 10, pcr_min_approvals = 1\<rparr>"

definition demo_engine :: "unit governance_engine" where
  "demo_engine = snd (lock_bond ''did:key:a'' 100 1 0
     (snd (issue_license ''did:key:a'' ''gov'' ''h'' 1 0 gov_empty)))"

definition demo_approval :: genesis_approval where
  "demo_approval = \<lparr>ga_signer_agent_did = ''did:key:'' @ demo_seed,
     ga_signature = demo_enc (demo_sign demo_seed ''genesis'')\<rparr>"

lemma demo_engine_gates:
  "planet demo_engine ''mars'' = None" "has_valid_license demo_engine ''did:key:a'' 5"
  "has_active_bond demo_engine ''did:key:a'' 10 5"
  by code_simp+

lemma demo_sign_genesis:
  "sign_genesis crypto_demo (\<lambda>_. Some ''genesis'') ''mars'' ''Mars'' ''did:key:a'' 5 demo_identity =
     Ok demo_approval"
  by (simp add: sign_genesis_def sign_genesis_with_signer_def sign_payload_with_def
      canonical_bytes_def identity_sign_def compat_view_def crypto_demo_def demo_identity_def
      demo_dec_enc demo_approval_def demo_seed_def Let_def)

lemma create_planet_accepts_signed_witness:
  "fst (create_planet crypto_demo (\<lambda>_. Some ''genesis'') demo_request [demo_approval] 5 5 demo_engine) =
     Ok (new_planet demo_request (bs_of_list [''did:key:'' @ demo_seed]))"
proof -
  have "\<forall>a \<in> set [demo_approval]. \<exists>e k i. import_ed25519_private_key crypto_demo e k = Ok i \<and>
      sign_genesis crypto_demo (\<lambda>_. Some ''genesis'') (pcr_subnet_id demo_request)
        (pcr_name demo_request) (pcr_creator demo_request) (pcr_created_at demo_request) i = Ok a"
    using demo_import demo_sign_genesis by (auto simp: demo_request_def)
  from create_planet_accepts_signed [OF crypto_demo_laws this, of demo_engine 5 5] show ?thesis
    using demo_engine_gates by (simp add: demo_request_def demo_approval_def)
qed

lemma create_planet_gates_witness:
  "is_ok (fst (create_planet crypto_demo (\<lambda>_. Some ''genesis'') demo_request [demo_approval] 5 5 demo_engine))"
proof -
  have "verify_payload crypto_demo (\<lambda>_. Some ''genesis'') (request_payload demo_request)
      (ga_signature demo_approval) (ga_signer_agent_did demo_approval) = Ok True"
    by (rule sign_genesis_verifies(2) [OF crypto_demo_laws demo_import])
      (simp add: demo_request_def demo_sign_genesis)
  moreover have "pcr_subnet_id demo_request = ''mars''" "pcr_creator demo_request = ''did:key:a''"
    "pcr_min_bond demo_request = 10" "pcr_min_approvals demo_request = 1"
    by (simp_all add: demo_request_def)
  ultimately show ?thesis
    using create_planet_gates [of crypto_demo "\<lambda>_. Some ''genesis''" demo_request "[demo_approval]" 5 5 demo_engine]
      demo_engine_gates
    by (simp add: planet_def has_valid_license_def has_active_bond_def is_some_and_iff)
qed

subsection \<open>Who governs\<close>

text \<open>The agent an operation would install, the planet, the bond it asks for and its clock readings.\<close>

fun installs :: "'v gov_op \<Rightarrow> (string \<times> string \<times> int \<times> int \<times> int) option" where
  "installs (Resolve_recall k a b t1 t2) = Some (k, a, b, t1, t2)"
| "installs (Release_custody k (Some a) b t1 t2) = Some (k, a, b, t1, t2)"
| "installs (Hostile_takeover k a b r t1 t2) = Some (k, a, b, t1, t2)"
| "installs _ = None"

lemma modify_planet_creator_same:
  assumes "\<And>q q'. f q = Ok q' \<Longrightarrow> sp_creator q' = sp_creator q"
    and "bget (ge_planets s) j = Some p" and "bget (ge_planets (snd (modify_planet k f s))) j = Some p'"
  shows "sp_creator p' = sp_creator p"
  using assms by (auto simp: modify_planet_get split: if_splits sum.splits)

lemma creator_unchanged:
  assumes "installs op = None"
    and "bget (ge_planets s) k = Some p" and "bget (ge_planets (gov_step C jcs T s op)) k = Some p'"
    and "gov_inv s"
  shows "sp_creator p' = sp_creator p"
proof (cases op)
  case (Create_planet r as t1 t2)
  with assms show ?thesis
    by (auto simp: gov_step_def create_planet_def Let_def split: if_splits sum.splits)
next
  case (Finalize_proposal i m)
  with assms show ?thesis
    by (auto simp: gov_step_def finalize_proposal_state apply_proposal_effects_def
        split: if_splits option.splits)
next
  case (Release_custody j a b t1 t2)
  with assms(1) have "a = None" by (cases a) auto
  with Release_custody assms show ?thesis
    by (auto simp: gov_step_def release_custody_def Let_def modify_planet_get
        split: if_splits sum.splits)
qed (use assms in \<open>auto simp: gov_step_def issue_license_def lock_bond_def create_proposal_def
    vote_proposal_def record_validator_heartbeat_def rotate_validators_def fund_treasury_def
    spend_treasury_def adjust_stability_def start_recall_def enter_custody_def Let_def
    modify_planet_get split: if_splits option.splits sum.splits\<close>)

lemma install_creator_simps [simp]:
  "sp_creator (install_creator a p) = a"
  "bs_set (sp_validators (install_creator a p)) = insert a (bs_set (sp_validators p))"
  "bs_set (sp_relays (install_creator a p)) = insert a (bs_set (sp_relays p))"
  "sp_stability (install_creator a p) = sp_stability p"
  by (simp_all add: install_creator_def)

text \<open>
  C4: a planet changes hands only through recall, custody or takeover. When a step gives a
  planet a new creator, that agent held an unexpired license and an active bond of the requested
  size at the step's clock readings, the planet was in recall, in custody or had a stability of
  at most 20, and the new creator is a validator and a relay of an active government.
\<close>

theorem sovereignty_transfer:
  assumes "gov_inv s" and "bget (ge_planets s) k = Some p"
    and "bget (ge_planets (gov_step C jcs tax_rate_of s op)) k = Some p'"
    and "sp_creator p' \<noteq> sp_creator p"
  shows "\<exists>b t1 t2. installs op = Some (k, sp_creator p', b, t1, t2)
     \<and> has_valid_license s (sp_creator p') t1 \<and> has_active_bond s (sp_creator p') b t2
     \<and> (sp_government_status p \<noteq> GovActive \<or> sp_stability p \<le> 20)
     \<and> sp_creator p' \<in> bs_set (sp_validators p') \<inter> bs_set (sp_relays p')
     \<and> sp_government_status p' = GovActive"
proof (cases op)
  case (Resolve_recall j a b t1 t2)
  with assms show ?thesis
    by (auto simp: gov_step_def resolve_recall_def modify_planet_get split: if_splits sum.splits)
next
  case (Release_custody j succ b t1 t2)
  then have "succ \<noteq> None" using creator_unchanged [of op, OF _ assms(2,3,1)] assms(4)
    by (cases succ) auto
  with Release_custody assms show ?thesis
    by (auto simp: gov_step_def release_custody_def modify_planet_get Let_def
        split: if_splits sum.splits)
next
  case (Hostile_takeover j a b r t1 t2)
  with assms show ?thesis
    by (auto simp: gov_step_def hostile_takeover_def modify_planet_get split: if_splits sum.splits)
qed (use creator_unchanged [of op, OF _ assms(2,3,1)] assms(4) in auto)

definition demo_recalled :: subnet_planet where
  "demo_recalled = (new_planet demo_request bempty)\<lparr>sp_government_status := GovRecall, sp_stability := 10,
     sp_active_recall := Some \<lparr>rp_initiated_by = ''x'', rp_reason = ''y'', rp_started_at = 1,
       rp_threshold = 30\<rparr>\<rparr>"

definition demo_recall_engine :: "unit governance_engine" where
  "demo_recall_engine = (snd (lock_bond ''b'' 100 1 0 (snd (issue_license ''b'' ''gov'' ''h'' 1 0
     gov_empty))))\<lparr>ge_planets := binsert ''mars'' demo_recalled bempty\<rparr>"

lemma sovereignty_transfer_witness:
  "\<exists>b t1 t2. installs (Resolve_recall ''mars'' ''b'' 10 5 5 :: unit gov_op) = Some (''mars'', ''b'', b, t1, t2)
     \<and> has_valid_license demo_recall_engine ''b'' t1 \<and> has_active_bond demo_recall_engine ''b'' b t2"
proof -
  let ?p' = "(install_creator ''b'' demo_recalled)\<lparr>sp_government_status := GovActive,
    sp_active_recall := None, sp_stability := 35\<rparr>"
  have inv: "gov_inv demo_recall_engine"
    by (auto simp: gov_inv_def demo_recall_engine_def lock_bond_def issue_license_def gov_empty_def
        planet_ok_def demo_recalled_def new_planet_def demo_request_def Let_def split: if_splits)
  have before: "bget (ge_planets demo_recall_engine) ''mars'' = Some demo_recalled"
    by (simp add: demo_recall_engine_def)
  have after: "bget (ge_planets (gov_step crypto_demo (\<lambda>_. None) (\<lambda>_. None) demo_recall_engine
      (Resolve_recall ''mars'' ''b'' 10 5 5))) ''mars'' = Some ?p'"
    by (simp add: gov_step_def resolve_recall_def modify_planet_get demo_recall_engine_def
        lock_bond_def issue_license_def has_valid_license_def has_active_bond_def gov_empty_def
        days_in_seconds_def to_i64_def demo_recalled_def clamp_i64_def Let_def)
  have "sp_creator ?p' \<noteq> sp_creator demo_recalled"
    by (simp add: demo_recalled_def new_planet_def demo_request_def)
  from sovereignty_transfer [OF inv before after this] show ?thesis by auto
qed

subsection \<open>Ballots and decisions\<close>

lemma apply_proposal_effects_proposals [simp]:
  "ge_proposals (snd (apply_proposal_effects T k kd v s)) = ge_proposals s"
  by (simp add: apply_proposal_effects_def split: option.splits)

text \<open>
  C8: finalizing an open proposal decides it by the ballot: accepted if at least the required
  number of validators voted for it and more for than against, rejected otherwise. The call
  reports success unless an accepted tax-rate proposal carries no number; an accepted tax-rate
  proposal with a number sets exactly that planet's tax rate.
\<close>

theorem finalize_proposal_decides:
  assumes "gov_inv s" and "bget (ge_proposals s) i = Some p" and "gp_status p = PropOpen"
  shows "let passes = (m \<le> card (bs_set (gp_votes_for p)) \<and>
           card (bs_set (gp_votes_against p)) < card (bs_set (gp_votes_for p)));
         q = p\<lparr>gp_status := if passes then PropAccepted else PropRejected\<rparr>;
         taxes = (passes \<and> gp_kind p = ''update_tax_rate'');
         (result, s') = finalize_proposal tax_rate_of i m s
     in bget (ge_proposals s') = (bget (ge_proposals s))(i \<mapsto> q)
      \<and> result = (if taxes \<and> tax_rate_of (gp_payload p) = None then Err Tax_rate_not_f64 else Ok q)
      \<and> bget (ge_planets s') =
         (if taxes \<and> tax_rate_of (gp_payload p) \<noteq> None
          then (bget (ge_planets s))(gp_subnet_id p \<mapsto>
            (the (bget (ge_planets s) (gp_subnet_id p)))\<lparr>sp_tax_rate := the (tax_rate_of (gp_payload p))\<rparr>)
          else bget (ge_planets s))"
proof -
  have passes: "proposal_passes p m = (m \<le> card (bs_set (gp_votes_for p)) \<and>
      card (bs_set (gp_votes_against p)) < card (bs_set (gp_votes_for p)))"
    by (simp add: proposal_passes_def bs_len_card)
  obtain pl where "bget (ge_planets s) (gp_subnet_id p) = Some pl"
    using gov_inv_proposalD [OF assms(1,2)] by (auto simp: proposal_ok_def)
  with assms(2,3) show ?thesis
    unfolding passes [symmetric] Let_def
    by (cases "proposal_passes p m"; cases "gp_kind p = ''update_tax_rate''";
        cases "tax_rate_of (gp_payload p)")
      (simp_all add: finalize_proposal_def apply_proposal_effects_def bget_binsert_fun Let_def)
qed

text \<open>The operations that would open a proposal under a given id.\<close>

fun opens_proposal :: "string \<Rightarrow> 'v gov_op \<Rightarrow> bool" where
  "opens_proposal i (Create_proposal _ _ _ _ uuid _) = (uuid = i)"
| "opens_proposal i _ = False"

definition decided_kept :: "string \<Rightarrow> 'v governance_engine \<Rightarrow> 'v governance_engine \<Rightarrow> bool" where
  "decided_kept i s t \<longleftrightarrow> (\<forall>p. bget (ge_proposals s) i = Some p \<and> gp_status p \<noteq> PropOpen \<longrightarrow>
     bget (ge_proposals t) i = Some p)"

lemma decided_kept_step: "\<not> opens_proposal i op \<Longrightarrow> decided_kept i s (gov_step C jcs T s op)"
  by (cases op)
    (auto simp: decided_kept_def gov_step_def issue_license_def lock_bond_def create_planet_def
      create_proposal_def vote_proposal_def finalize_proposal_state record_validator_heartbeat_def
      rotate_validators_def fund_treasury_def spend_treasury_def adjust_stability_def start_recall_def
      resolve_recall_def enter_custody_def release_custody_def hostile_takeover_def Let_def
      split: option.splits sum.splits)

interpretation gov_decisions: forward_machine "gov_step C jcs T" "\<lambda>op. \<not> opens_proposal i op" "decided_kept i"
  for C jcs T i
  by unfold_locales (auto simp: decided_kept_step, auto simp: decided_kept_def)

text \<open>
  C9: a decision is final. Once a proposal is accepted or rejected, no sequence of operations
  changes it or its ballot, as long as no later proposal is given the same UUID.
\<close>

theorem proposal_decision_final:
  assumes "bget (ge_proposals s) i = Some p" and "gp_status p \<noteq> PropOpen"
    and "list_all (\<lambda>op. \<not> opens_proposal i op) ops"
  shows "bget (ge_proposals (run (gov_step C jcs tax_rate_of) s ops)) i = Some p"
  using gov_decisions.run_le [OF assms(3), of s] assms(1,2) by (simp add: decided_kept_def)


definition demo_proposal :: "unit governance_proposal" where
  "demo_proposal = \<lparr>gp_proposal_id = ''p1'', gp_subnet_id = ''mars'', gp_kind = ''update_tax_rate'',
     gp_payload = (), gp_created_by = ''a'', gp_created_at = 1,
     gp_votes_for = bs_of_list [''a''], gp_votes_against = bempty, gp_status = PropOpen\<rparr>"

definition demo_vote_engine :: "unit governance_engine" where
  "demo_vote_engine = gov_empty\<lparr>
     ge_planets := binsert ''mars'' (new_planet demo_request (bs_of_list [''a'', ''b''])) bempty,
     ge_proposals := binsert ''p1'' demo_proposal bempty\<rparr>"

lemma demo_vote_engine_inv: "gov_inv demo_vote_engine"
  by (auto simp: gov_inv_def demo_vote_engine_def gov_empty_def planet_ok_def new_planet_def
      demo_request_def proposal_ok_def demo_proposal_def split: if_splits)

lemma finalize_proposal_decides_witness:
  "fst (finalize_proposal (\<lambda>_. Some (F64_Fin 1)) ''p1'' 1 demo_vote_engine) =
     Ok (demo_proposal\<lparr>gp_status := PropAccepted\<rparr>)"
proof -
  have "bget (ge_proposals demo_vote_engine) ''p1'' = Some demo_proposal"
    and "gp_status demo_proposal = PropOpen"
    by (simp_all add: demo_vote_engine_def demo_proposal_def)
  from finalize_proposal_decides [OF demo_vote_engine_inv this, of 1 "\<lambda>_. Some (F64_Fin 1)"]
  show ?thesis
    by (auto simp: Let_def demo_proposal_def split: prod.splits)
qed

lemma proposal_decision_final_witness:
  "bget (ge_proposals (run (gov_step crypto_demo (\<lambda>_. None) (\<lambda>_. None))
       (demo_vote_engine\<lparr>ge_proposals := binsert ''p1'' (demo_proposal\<lparr>gp_status := PropRejected\<rparr>) bempty\<rparr>)
       [Vote_proposal ''p1'' ''b'' True, Finalize_proposal ''p1'' 0])) ''p1'' =
     Some (demo_proposal\<lparr>gp_status := PropRejected\<rparr>)"
  by (rule proposal_decision_final) simp_all

text \<open>A sequence of accepted votes leaves the ballot that the votes make one after the other.\<close>

lemma run_votes:
  assumes "bget (ge_proposals s) i = Some p" and "gp_status p = PropOpen"
    and "bget (ge_planets s) (gp_subnet_id p) = Some pl"
    and "\<forall>x \<in> set vs. fst x \<in> bs_set (sp_validators pl)"
  shows "bget (ge_proposals (run (gov_step C jcs T) s (map (\<lambda>(v, y). Vote_proposal i v y) vs))) i =
     Some (foldl (\<lambda>b (v, y). cast_vote b v y) p vs)"
  using assms
proof (induction vs arbitrary: s p)
  case (Cons x vs)
  let ?s = "gov_step C jcs T s (Vote_proposal i (fst x) (snd x))"
  have "bget (ge_proposals ?s) i = Some (cast_vote p (fst x) (snd x))" and "ge_planets ?s = ge_planets s"
    using Cons.prems by (simp_all add: gov_step_def vote_proposal_def)
  with Cons.IH [of ?s "cast_vote p (fst x) (snd x)"] Cons.prems show ?case
    by (simp add: case_prod_beta)
qed simp

text \<open>
  C10: the latest vote of a validator counts. After any sequence of votes by validators on an
  open proposal, a voter is counted for it exactly if its last vote was in favour, against it
  exactly if its last vote was not, and on no side twice.
\<close>

theorem last_vote_counts:
  assumes "bget (ge_proposals s) i = Some p" and "gp_status p = PropOpen"
    and "bget (ge_planets s) (gp_subnet_id p) = Some pl"
    and "\<forall>x \<in> set vs. fst x \<in> bs_set (sp_validators pl)"
    and "bs_set (gp_votes_for p) = {}" and "bs_set (gp_votes_against p) = {}"
  shows "\<exists>q. bget (ge_proposals (run (gov_step C jcs tax_rate_of) s
         (map (\<lambda>(v, y). Vote_proposal i v y) vs))) i = Some q
     \<and> (\<forall>v. (v \<in> bs_set (gp_votes_for q) \<longleftrightarrow> map_of (rev vs) v = Some True)
          \<and> (v \<in> bs_set (gp_votes_against q) \<longleftrightarrow> map_of (rev vs) v = Some False))"
proof -
  have find: "List.find (\<lambda>x. fst x = v) xs = map_option (Pair v) (map_of xs v)"
    for v and xs :: "(string \<times> bool) list" by (induction xs) auto
  let ?q = "foldl (\<lambda>b (v, y). cast_vote b v y) p vs"
  have "v \<in> bs_set (gp_votes_for ?q) \<longleftrightarrow> map_of (rev vs) v = Some True" for v
    unfolding gov_ballot.casts_last_vote using assms(5) by (simp add: find split: option.splits)
  moreover have "v \<in> bs_set (gp_votes_against ?q) \<longleftrightarrow> map_of (rev vs) v = Some False" for v
    unfolding gov_ballot.casts_last_vote_against using assms(6) by (simp add: find split: option.splits)
  ultimately show ?thesis using run_votes [OF assms(1-4)] by blast
qed

lemma last_vote_counts_witness:
  "\<exists>q. bget (ge_proposals (run (gov_step crypto_demo (\<lambda>_. None) (\<lambda>_. None))
       (demo_vote_engine\<lparr>ge_proposals := binsert ''p1'' (demo_proposal\<lparr>gp_votes_for := bempty\<rparr>) bempty\<rparr>)
       [Vote_proposal ''p1'' ''a'' True, Vote_proposal ''p1'' ''b'' True, Vote_proposal ''p1'' ''a'' False]))
       ''p1'' = Some q \<and> bs_set (gp_votes_for q) = {''b''} \<and> bs_set (gp_votes_against q) = {''a''}"
proof -
  let ?vs = "[(''a'', True), (''b'', True), (''a'', False)]"
  have "\<exists>q. bget (ge_proposals (run (gov_step crypto_demo (\<lambda>_. None) (\<lambda>_. None))
       (demo_vote_engine\<lparr>ge_proposals := binsert ''p1'' (demo_proposal\<lparr>gp_votes_for := bempty\<rparr>) bempty\<rparr>)
         (map (\<lambda>(v, y). Vote_proposal ''p1'' v y) ?vs))) ''p1'' = Some q
     \<and> (\<forall>v. (v \<in> bs_set (gp_votes_for q) \<longleftrightarrow> map_of (rev ?vs) v = Some True)
          \<and> (v \<in> bs_set (gp_votes_against q) \<longleftrightarrow> map_of (rev ?vs) v = Some False))"
    by (rule last_vote_counts [of _ _ "demo_proposal\<lparr>gp_votes_for := bempty\<rparr>"
          "new_planet demo_request (bs_of_list [''a'', ''b''])"])
      (simp_all add: demo_vote_engine_def demo_proposal_def new_planet_def)
  then show ?thesis by (auto split: if_splits)
qed

subsection \<open>Treasuries\<close>

definition treasury_of :: "'v governance_engine \<Rightarrow> string \<Rightarrow> int option" where
  "treasury_of s k = map_option sp_treasury_watt (bget (ge_planets s) k)"

interpretation gov_treasury: treasury treasury_of
  "\<lambda>s k a. snd (fund_treasury k a s)" "\<lambda>s k a. snd (spend_treasury k a s)"
  by unfold_locales
    (auto simp: treasury_of_def fund_treasury_def spend_treasury_def modify_planet_get
      option.map_comp comp_def intro!: option.map_cong0)

definition treasury_ops :: "string treasury_op list \<Rightarrow> 'v gov_op list" where
  "treasury_ops ps = map (\<lambda>p. case p of Fund k a \<Rightarrow> Fund_treasury k a | Spend k a \<Rightarrow> Spend_treasury k a) ps"

lemma run_treasury_ops:
  "run (gov_step C jcs T) s (treasury_ops ps) = run gov_treasury.tstep s ps"
  by (induction ps arbitrary: s)
    (auto simp: treasury_ops_def gov_step_def gov_treasury.tstep_def split: treasury_op.splits)

text \<open>
  C11: a planet's treasury is never overdrawn. For every sequence of funding and spending
  requests, as long as the balance plus everything paid in stays below \<open>2 ^ 63\<close>, the balance
  stays at least zero and at most what was there plus what was paid in.
\<close>

theorem planet_treasury_bounds:
  assumes "treasury_of s k = Some b" and "0 \<le> b"
    and "b + (\<Sum>p \<leftarrow> ps. case p of Fund j a \<Rightarrow> if j = k \<and> 0 < a then a else 0 | Spend j a \<Rightarrow> 0) < 2 ^ 63"
  shows "\<exists>b'. treasury_of (run (gov_step C jcs tax_rate_of) s (treasury_ops ps)) k = Some b'
     \<and> 0 \<le> b' \<and> b' \<le> b + (\<Sum>p \<leftarrow> ps. case p of Fund j a \<Rightarrow> if j = k \<and> 0 < a then a else 0 | Spend j a \<Rightarrow> 0)"
  using gov_treasury.run_balance_bounds [of s k b ps] assms
  by (simp add: run_treasury_ops gov_treasury.funded_def)

lemma planet_treasury_bounds_witness:
  "\<exists>b'. treasury_of (run (gov_step crypto_demo (\<lambda>_. None) (\<lambda>_. None)) demo_vote_engine
       (treasury_ops [Fund ''mars'' 7, Spend ''mars'' 5])) ''mars'' = Some b' \<and> 0 \<le> b' \<and> b' \<le> 7"
  using planet_treasury_bounds [of demo_vote_engine "''mars''" 0 "[Fund ''mars'' 7, Spend ''mars'' 5]"
      crypto_demo "\<lambda>_. None" "\<lambda>_. None"]
  by (simp add: treasury_of_def demo_vote_engine_def new_planet_def)

subsection \<open>Validator rotation\<close>

lemma rotate_fill_bounds:
  "bs_set vs \<subseteq> bs_set (rotate_fill vs cs)
   \<and> bs_set (rotate_fill vs cs) \<subseteq> bs_set vs \<union> set cs
   \<and> card (bs_set (rotate_fill vs cs)) \<le> max 3 (card (bs_set vs) + 1)
   \<and> min 3 (card (bs_set vs \<union> set cs)) \<le> card (bs_set (rotate_fill vs cs))"
proof (induction vs cs rule: rotate_fill.induct)
  case (2 vs c cs)
  define vs' where "vs' = (if bs_len vs = 0 \<or> \<not> bs_member c vs then bs_insert c vs else vs)"
  have set': "bs_set vs' = insert c (bs_set vs)"
    by (auto simp: vs'_def bs_len_card)
  have card': "card (bs_set vs') \<le> card (bs_set vs) + 1"
    by (simp add: set' card_insert_if)
  show ?case
  proof (cases "3 \<le> bs_len vs'")
    case True
    then have "rotate_fill vs (c # cs) = vs'" by (simp add: vs'_def Let_def)
    with True set' card' show ?thesis by (auto simp: bs_len_card)
  next
    case False
    then have "rotate_fill vs (c # cs) = rotate_fill vs' cs" by (simp add: vs'_def Let_def)
    moreover have "bs_set vs' \<union> set cs = bs_set vs \<union> set (c # cs)" using set' by auto
    moreover have "card (bs_set vs') < 3" using False by (simp add: bs_len_card)
    moreover have "bs_set vs' \<subseteq> bs_set (rotate_fill vs' cs) \<and>
        bs_set (rotate_fill vs' cs) \<subseteq> bs_set vs' \<union> set cs \<and>
        card (bs_set (rotate_fill vs' cs)) \<le> max 3 (card (bs_set vs') + 1) \<and>
        min 3 (card (bs_set vs' \<union> set cs)) \<le> card (bs_set (rotate_fill vs' cs))"
      using 2 [OF vs'_def] False by simp
    ultimately show ?thesis using set' by auto
  qed
qed simp

text \<open>
  C12: rotation keeps every validator with a fresh heartbeat, drops every other one unless the
  pool names it, adds only candidates of the pool, reaches three validators whenever the fresh
  ones and the pool together have three, and never ends with more than three unless the fresh
  ones alone already were: then it adds at most one.
\<close>

theorem rotate_validators_bounds:
  assumes "bget (ge_planets s) k = Some p"
  shows "let fresh = {v \<in> bs_set (sp_validators p).
           \<exists>ts. bget (bget_or bempty (ge_validator_heartbeats s) k) v = Some ts \<and> to_i64 (now - ts) \<le> stale};
         (result, s') = rotate_validators k stale pool now s
     in \<exists>p' vs. bget (ge_planets s') k = Some p' \<and> result = Ok vs \<and> sorted vs \<and>
          set vs = bs_set (sp_validators p') \<and>
          fresh \<subseteq> set vs \<and> set vs \<subseteq> fresh \<union> set pool \<and>
          card (set vs) \<le> max 3 (card fresh + 1) \<and> min 3 (card (fresh \<union> set pool)) \<le> card (set vs)"
proof -
  let ?h = "bget_or bempty (ge_validator_heartbeats s) k"
  let ?kept = "bretain (\<lambda>v _. fresh_heartbeat ?h now stale v) (sp_validators p)"
  have kept: "bs_set ?kept = {v \<in> bs_set (sp_validators p).
      \<exists>ts. bget ?h v = Some ts \<and> to_i64 (now - ts) \<le> stale}"
    by (auto simp: bs_set_def bget_bretain fresh_heartbeat_def is_some_and_iff split: option.splits if_splits)
  have sorted: "sorted (bkeys m)" for m :: "string btree_set"
    using sorted_entries [of m] by (simp add: bkeys_def strict_sorted_imp_sorted)
  show ?thesis using assms rotate_fill_bounds [of ?kept pool] sorted
    unfolding kept [symmetric] by (simp add: rotate_validators_def Let_def)
qed

lemma rotate_validators_bounds_witness:
  "\<exists>vs. fst (rotate_validators ''mars'' 60 [''c'', ''d'', ''e''] 100
       (record_validator_heartbeat ''mars'' ''a'' 90 demo_vote_engine)) = Ok vs
     \<and> ''a'' \<in> set vs \<and> ''b'' \<notin> set vs \<and> card (set vs) = 3"
proof -
  let ?s = "record_validator_heartbeat ''mars'' ''a'' 90 demo_vote_engine"
  let ?p = "new_planet demo_request (bs_of_list [''a'', ''b''])"
  have get: "bget (ge_planets ?s) ''mars'' = Some ?p"
    by (simp add: record_validator_heartbeat_def demo_vote_engine_def)
  have fresh: "{v \<in> bs_set (sp_validators ?p). \<exists>ts. bget (bget_or bempty (ge_validator_heartbeats ?s) ''mars'') v =
      Some ts \<and> to_i64 (100 - ts) \<le> 60} = {''a''}"
    by (auto simp: new_planet_def record_validator_heartbeat_def demo_vote_engine_def gov_empty_def
        bget_or_def to_i64_def)
  show ?thesis
    using rotate_validators_bounds [OF get, of 100 60 "[''c'', ''d'', ''e'']"]
    unfolding fresh by (auto simp: Let_def split: prod.splits)
qed

end
