(* ===== verification/Payment_Types.thy ===== *)
theory Payment_Types
  imports Signing
begin

text \<open>
  The data of \<^verbatim>\<open>payments/mod.rs\<close>: settlement layers, payment statuses, message kinds, the
  payment transaction and the payload an authorization signs.

  \<^verbatim>\<open>serde_json::Value\<close> is a type variable; the accessors the code calls on it are a
  parameter, the record \<open>json_api\<close>.
\<close>

record 'v json_api =
  j_get :: "'v \<Rightarrow> string \<Rightarrow> 'v option"
  j_as_str :: "'v \<Rightarrow> string option"
  j_as_bool :: "'v \<Rightarrow> bool option"
  j_as_u64 :: "'v \<Rightarrow> nat option"
  j_array :: "'v \<Rightarrow> 'v list option"
  j_is_object :: "'v \<Rightarrow> bool"

datatype settlement_layer = Web2 | Web3

datatype payment_status = Proposed | Authorized | Submitted | Settled | Rejected | Expired | Cancelled

fun rank :: "payment_status \<Rightarrow> nat" where
  "rank Proposed = 0"
| "rank Authorized = 1"
| "rank Submitted = 2"
| "rank Settled = 3"
| "rank Rejected = 4"
| "rank Expired = 5"
| "rank Cancelled = 6"

text \<open>The rank orders the statuses.\<close>

instantiation payment_status :: linorder
begin

definition less_eq_payment_status :: "payment_status \<Rightarrow> payment_status \<Rightarrow> bool" where
  "less_eq_payment_status s t = (rank s \<le> rank t)"

definition less_payment_status :: "payment_status \<Rightarrow> payment_status \<Rightarrow> bool" where
  "less_payment_status s t = (rank s < rank t)"

instance
proof
  fix s t :: payment_status
  show "s \<le> t \<Longrightarrow> t \<le> s \<Longrightarrow> s = t"
    by (cases s; cases t) (simp_all add: less_eq_payment_status_def)
qed (auto simp: less_eq_payment_status_def less_payment_status_def)

end

datatype payment_message_kind =
    MsgRequest | MsgAuthorized | MsgSubmitted | MsgSettled | MsgRejected | MsgCancelled

fun as_str :: "payment_message_kind \<Rightarrow> string" where
  "as_str MsgRequest = ''payment_request''"
| "as_str MsgAuthorized = ''payment_authorized''"
| "as_str MsgSubmitted = ''payment_submitted''"
| "as_str MsgSettled = ''payment_settled''"
| "as_str MsgRejected = ''payment_rejected''"
| "as_str MsgCancelled = ''payment_cancelled''"

fun expected_status :: "payment_message_kind \<Rightarrow> payment_status" where
  "expected_status MsgRequest = Proposed"
| "expected_status MsgAuthorized = Authorized"
| "expected_status MsgSubmitted = Submitted"
| "expected_status MsgSettled = Settled"
| "expected_status MsgRejected = Rejected"
| "expected_status MsgCancelled = Cancelled"

record 'v payment_transaction =
  pt_payment_id :: string
  pt_sender_did :: string
  pt_recipient_did :: string
  pt_sender_public_id :: string
  pt_recipient_public_id :: string
  pt_remote_node_id :: string
  pt_amount :: string
  pt_currency :: string
  pt_rail :: string
  pt_layer :: settlement_layer
  pt_network :: "string option"
  pt_sender_address :: "string option"
  pt_recipient_address :: "string option"
  pt_mission_id :: "string option"
  pt_task_id :: "string option"
  pt_description :: "string option"
  pt_metadata :: "'v option"
  pt_status :: payment_status
  pt_authorization_signature :: "string option"
  pt_authorization_public_key :: "string option"
  pt_settlement_receipt :: "'v option"
  pt_reject_reason :: "string option"
  pt_proposed_at :: int
  pt_authorized_at :: "int option"
  pt_settled_at :: "int option"
  pt_expires_at :: "int option"

record payment_authorization_payload =
  pap_payment_id :: string
  pap_sender_did :: string
  pap_recipient_did :: string
  pap_sender_public_id :: string
  pap_recipient_public_id :: string
  pap_remote_node_id :: string
  pap_amount :: string
  pap_currency :: string
  pap_rail :: string
  pap_layer :: settlement_layer
  pap_network :: "string option"
  pap_sender_address :: "string option"
  pap_recipient_address :: "string option"
  pap_mission_id :: "string option"
  pap_task_id :: "string option"
  pap_description :: "string option"
  pap_expires_at :: "int option"

record 'v payment_agent_message =
  pam_kind :: payment_message_kind
  pam_payment :: "'v payment_transaction"
  pam_emitted_at :: int

fun expected_actor_did :: "payment_message_kind \<Rightarrow> 'v payment_transaction \<Rightarrow> string option" where
  "expected_actor_did MsgRequest p = Some (pt_sender_did p)"
| "expected_actor_did MsgAuthorized p = Some (pt_sender_did p)"
| "expected_actor_did MsgSubmitted p = Some (pt_sender_did p)"
| "expected_actor_did MsgCancelled p = Some (pt_sender_did p)"
| "expected_actor_did MsgRejected p = Some (pt_recipient_did p)"
| "expected_actor_did MsgSettled p = None"

definition source_payment_account_binding_required ::
  "payment_message_kind \<Rightarrow> 'v payment_transaction \<Rightarrow> string \<Rightarrow> bool" where
  "source_payment_account_binding_required kind p source_agent_did =
     (if source_agent_did \<noteq> pt_sender_did p then False
      else kind = MsgAuthorized \<or> kind = MsgSubmitted \<or> kind = MsgSettled \<or>
           kind = MsgRequest \<and> is_some_and (pt_sender_address p) (\<lambda>address. \<not> blank address))"

definition agent_message ::
  "'v payment_transaction \<Rightarrow> payment_message_kind \<Rightarrow> int \<Rightarrow> 'v payment_agent_message" where
  "agent_message p kind emitted_at = \<lparr>pam_kind = kind, pam_payment = p, pam_emitted_at = emitted_at\<rparr>"

lemma rank_inj: "rank s = rank t \<Longrightarrow> s = t"
  by (cases s; cases t) simp_all

end
