(* ===== verification/X402.thy ===== *)
theory X402
  imports Payment_Types
begin

text \<open>
  \<^verbatim>\<open>payments/x402.rs\<close>: payment requirements of the x402 protocol, the check of a settlement
  receipt against a payment, network aliases, and the conversion between decimal stablecoin
  amounts and base units. The header codecs compose \<^verbatim>\<open>base64\<close> and \<^verbatim>\<open>serde_json\<close>, which
  are parameters.
\<close>

definition X402_VERSION :: nat where
  "X402_VERSION = 2"

record 'v x402_payment_requirement =
  xr_scheme :: string
  xr_network :: string
  xr_asset :: "string option"
  xr_amount :: string
  xr_pay_to :: string
  xr_max_timeout_seconds :: "nat option"
  xr_extra :: "'v option"
  xr_raw :: 'v

record 'v x402_payment_required =
  xq_x402_version :: "nat option"
  xq_accepts :: "'v x402_payment_requirement list"
  xq_raw :: 'v

record 'v x402_settlement_response =
  xs_success :: bool
  xs_payer :: string
  xs_transaction :: string
  xs_network :: string
  xs_amount :: string
  xs_error_reason :: "string option"
  xs_error_message :: "string option"
  xs_raw :: 'v

datatype x402_error =
    Decode_header
  | Parse_header_json
  | Serialize_header_json
  | Unsupported_version nat
  | Missing_requirements
  | Requirements_not_object_or_array
  | No_requirements
  | Parse_requirement
  | Missing_scheme
  | Missing_network
  | Missing_amount
  | Missing_pay_to
  | Parse_settlement
  | Receipt_rail
  | Receipt_not_success
  | Receipt_missing "string list"
  | No_sender_address
  | Payer_mismatch
  | Not_a_transaction_hash
  | Amount_mismatch
  | Network_mismatch
  | Pay_to_mismatch
  | Amount_not_positive
  | Amount_not_decimal
  | Amount_too_large
  | Decimals_too_large
  | Too_many_decimals

subsection \<open>Networks and amounts\<close>

definition canonical_x402_network :: "string \<Rightarrow> string" where
  "canonical_x402_network network =
     (let n = to_ascii_lowercase (trim network)
      in if n \<in> {''base'', ''base-mainnet'', ''eip155:8453'', ''8453''} then ''eip155:8453''
         else if n \<in> {''base-sepolia'', ''base_sepolia'', ''eip155:84532'', ''84532''} then ''eip155:84532''
         else if n \<in> {''ethereum'', ''ethereum-mainnet'', ''mainnet'', ''eip155:1'', ''1''} then ''eip155:1''
         else if n \<in> {''polygon'', ''polygon-mainnet'', ''eip155:137'', ''137''} then ''eip155:137''
         else if n \<in> {''optimism'', ''optimism-mainnet'', ''eip155:10'', ''10''} then ''eip155:10''
         else if n \<in> {''arbitrum'', ''arbitrum-one'', ''eip155:42161'', ''42161''} then ''eip155:42161''
         else n)"

definition amounts_match :: "string \<Rightarrow> string \<Rightarrow> bool" where
  "amounts_match receipt_amount expected_amount =
     (case (parse_uint u128_max receipt_amount, parse_uint u128_max expected_amount) of
        (Some receipt, Some expected) \<Rightarrow> receipt = expected
      | _ \<Rightarrow> receipt_amount = expected_amount)"

definition stablecoin_decimals :: "string \<Rightarrow> nat option" where
  "stablecoin_decimals currency =
     (if to_ascii_uppercase (trim currency) \<in> {''USDC'', ''USDT''} then Some 6 else None)"

definition checked_pow10 :: "nat \<Rightarrow> nat option" where
  "checked_pow10 d = (if 10 ^ d \<le> u128_max then Some (10 ^ d) else None)"

definition trim_end_zeros :: "string \<Rightarrow> string" where
  "trim_end_zeros s = rev (dropWhile (\<lambda>c. c = CHR ''0'') (rev s))"

text \<open>The digits after the point, filled up with zeros on the right.\<close>

definition fractional_to_units :: "string \<Rightarrow> nat \<Rightarrow> x402_error + nat" where
  "fractional_to_units part decimals =
     (let fractional = trim_end_zeros part
      in if \<not> list_all is_ascii_digit fractional then Err Amount_not_decimal
         else if decimals < length fractional then Err Too_many_decimals
         else
           let padded = fractional @ replicate (decimals - length fractional) (CHR ''0'')
           in case parse_uint u128_max padded of None \<Rightarrow> Err Amount_too_large | Some n \<Rightarrow> Ok n)"

definition decimal_amount_to_base_units :: "string \<Rightarrow> nat \<Rightarrow> x402_error + string" where
  "decimal_amount_to_base_units amount0 decimals =
     (let amount = trim amount0
      in if amount = [] \<or> hd amount = CHR ''-'' then Err Amount_not_positive
         else
           let parts = split_on (CHR ''.'') amount
           in if 2 < length parts then Err Amount_not_decimal
              else
                let whole = (if parts ! 0 = [] then ''0'' else parts ! 0)
                in if \<not> list_all is_ascii_digit whole then Err Amount_not_decimal
                   else
                     case parse_uint u128_max whole of None \<Rightarrow> Err Amount_too_large
                     | Some whole_units \<Rightarrow>
                     (case checked_pow10 decimals of None \<Rightarrow> Err Decimals_too_large
                      | Some scale \<Rightarrow>
                     (case (if 1 < length parts then fractional_to_units (parts ! 1) decimals else Ok 0) of
                        Inl e \<Rightarrow> Err e
                      | Inr fractional_units \<Rightarrow>
                        if u128_max < whole_units * scale then Err Amount_too_large
                        else if u128_max < whole_units * scale + fractional_units then Err Amount_too_large
                        else if whole_units * scale + fractional_units = 0 then Err Amount_not_positive
                        else Ok (dec_str (whole_units * scale + fractional_units)))))"

definition format_base_units_as_decimal :: "nat \<Rightarrow> nat \<Rightarrow> string" where
  "format_base_units_as_decimal base_units decimals =
     (let scale = (case checked_pow10 decimals of None \<Rightarrow> 1 | Some n \<Rightarrow> n);
          whole = base_units div scale;
          fractional = base_units mod scale
      in if fractional = 0 then dec_str whole
         else
           let digits = dec_str fractional;
               padded = replicate (decimals - length digits) (CHR ''0'') @ digits
           in dec_str whole @ ''.'' @ trim_end_zeros padded)"

definition stablecoin_amount_to_base_units :: "string \<Rightarrow> string \<Rightarrow> x402_error + string option" where
  "stablecoin_amount_to_base_units amount currency =
     (case stablecoin_decimals currency of
        None \<Rightarrow> Ok None
      | Some decimals \<Rightarrow>
        (case decimal_amount_to_base_units amount decimals of Inl e \<Rightarrow> Err e | Inr s \<Rightarrow> Ok (Some s)))"

definition stablecoin_amount_from_base_units :: "string \<Rightarrow> string \<Rightarrow> string option" where
  "stablecoin_amount_from_base_units amount currency =
     (case stablecoin_decimals currency of
        None \<Rightarrow> None
      | Some decimals \<Rightarrow>
        (case parse_uint u128_max (trim amount) of
           None \<Rightarrow> None
         | Some base_units \<Rightarrow> Some (format_base_units_as_decimal base_units decimals)))"

subsection \<open>Requirements\<close>

definition requirement_currency_matches ::
  "'v json_api \<Rightarrow> 'v x402_payment_requirement \<Rightarrow> string \<Rightarrow> bool" where
  "requirement_currency_matches J r currency =
     (if is_some_and (xr_asset r) (\<lambda>asset. eq_ignore_ascii_case asset currency) then True
      else is_some_and
        (Option.bind (Option.bind (xr_extra r) (\<lambda>extra. j_get J extra ''name'')) (j_as_str J))
        (\<lambda>name. eq_ignore_ascii_case name currency))"

definition select_payment_requirement ::
  "'v json_api \<Rightarrow> 'v x402_payment_required \<Rightarrow> string option \<Rightarrow> string option \<Rightarrow> string option \<Rightarrow>
   'v x402_payment_requirement option" where
  "select_payment_requirement J required network amount currency =
     List.find (\<lambda>r.
         is_none_or network (\<lambda>n. canonical_x402_network (xr_network r) = canonical_x402_network n) \<and>
         is_none_or amount (\<lambda>a. amounts_match (xr_amount r) a) \<and>
         is_none_or currency (\<lambda>c. requirement_currency_matches J r c))
       (xq_accepts required)"

text \<open>\<open>from_value\<close> stands for the derived \<^verbatim>\<open>serde_json::from_value\<close> of a requirement.\<close>

definition parse_payment_requirement ::
  "('v \<Rightarrow> 'v x402_payment_requirement option) \<Rightarrow> 'v \<Rightarrow> x402_error + 'v x402_payment_requirement" where
  "parse_payment_requirement from_value v =
     (case from_value v of
        None \<Rightarrow> Err Parse_requirement
      | Some r \<Rightarrow>
        if blank (xr_scheme r) then Err Missing_scheme
        else if blank (xr_network r) then Err Missing_network
        else if blank (xr_amount r) then Err Missing_amount
        else if blank (xr_pay_to r) then Err Missing_pay_to
        else Ok (r\<lparr>xr_raw := v\<rparr>))"

fun parse_requirements ::
  "('v \<Rightarrow> 'v x402_payment_requirement option) \<Rightarrow> 'v list \<Rightarrow> x402_error + 'v x402_payment_requirement list"
  where
  "parse_requirements from_value [] = Ok []"
| "parse_requirements from_value (v # vs) =
     (case parse_payment_requirement from_value v of
        Inl e \<Rightarrow> Err e
      | Inr r \<Rightarrow> (case parse_requirements from_value vs of Inl e \<Rightarrow> Err e | Inr rs \<Rightarrow> Ok (r # rs)))"

definition parse_payment_required ::
  "'v json_api \<Rightarrow> ('v \<Rightarrow> 'v x402_payment_requirement option) \<Rightarrow> 'v \<Rightarrow> x402_error + 'v x402_payment_required"
  where
  "parse_payment_required J from_value v =
     (let x402_version = Option.bind (j_get J v ''x402Version'') (j_as_u64 J)
      in if is_some_and x402_version (\<lambda>version. version \<noteq> X402_VERSION)
         then Err (Unsupported_version (the x402_version))
         else
           case (case j_get J v ''accepts'' of Some r \<Rightarrow> Some r
                 | None \<Rightarrow> (case j_get J v ''paymentRequirements'' of Some r \<Rightarrow> Some r
                            | None \<Rightarrow> j_get J v ''paymentRequirementsList'')) of
             None \<Rightarrow> Err Missing_requirements
           | Some requirements \<Rightarrow>
             (case (case j_array J requirements of
                      Some vs \<Rightarrow> parse_requirements from_value vs
                    | None \<Rightarrow>
                      if j_is_object J requirements
                      then (case parse_payment_requirement from_value requirements of
                              Inl e \<Rightarrow> Err e | Inr r \<Rightarrow> Ok [r])
                      else Err Requirements_not_object_or_array) of
                Inl e \<Rightarrow> Err e
              | Inr accepts \<Rightarrow>
                if accepts = [] then Err No_requirements
                else Ok \<lparr>xq_x402_version = x402_version, xq_accepts = accepts, xq_raw = v\<rparr>))"

definition parse_settlement_response ::
  "('v \<Rightarrow> 'v x402_settlement_response option) \<Rightarrow> 'v \<Rightarrow> x402_error + 'v x402_settlement_response" where
  "parse_settlement_response from_value v =
     (case from_value v of None \<Rightarrow> Err Parse_settlement | Some r \<Rightarrow> Ok (r\<lparr>xs_raw := v\<rparr>))"

text \<open>The header codecs; \<open>from_slice\<close> and \<open>to_vec\<close> are those of \<^verbatim>\<open>serde_json\<close>.\<close>

definition decode_header_json :: "crypto \<Rightarrow> (string \<Rightarrow> 'v option) \<Rightarrow> string \<Rightarrow> x402_error + 'v" where
  "decode_header_json C from_slice header =
     (case b64_decode C (trim header) of
        None \<Rightarrow> Err Decode_header
      | Some decoded \<Rightarrow> (case from_slice decoded of None \<Rightarrow> Err Parse_header_json | Some v \<Rightarrow> Ok v))"

definition encode_header_json :: "crypto \<Rightarrow> ('v \<Rightarrow> string option) \<Rightarrow> 'v \<Rightarrow> x402_error + string" where
  "encode_header_json C to_vec v =
     (case to_vec v of None \<Rightarrow> Err Serialize_header_json | Some bytes \<Rightarrow> Ok (b64_encode C bytes))"

definition decode_payment_required_header ::
  "crypto \<Rightarrow> (string \<Rightarrow> 'v option) \<Rightarrow> 'v json_api \<Rightarrow> ('v \<Rightarrow> 'v x402_payment_requirement option) \<Rightarrow> string \<Rightarrow>
   x402_error + 'v x402_payment_required" where
  "decode_payment_required_header C from_slice J from_value header =
     (case decode_header_json C from_slice header of
        Inl e \<Rightarrow> Err e | Inr v \<Rightarrow> parse_payment_required J from_value v)"

definition decode_settlement_response_header ::
  "crypto \<Rightarrow> (string \<Rightarrow> 'v option) \<Rightarrow> ('v \<Rightarrow> 'v x402_settlement_response option) \<Rightarrow> string \<Rightarrow>
   x402_error + 'v x402_settlement_response" where
  "decode_settlement_response_header C from_slice from_value header =
     (case decode_header_json C from_slice header of
        Inl e \<Rightarrow> Err e | Inr v \<Rightarrow> parse_settlement_response from_value v)"

subsection \<open>Settlement receipts\<close>

fun find_map :: "('a \<Rightarrow> 'b option) \<Rightarrow> 'a list \<Rightarrow> 'b option" where
  "find_map f [] = None"
| "find_map f (x # xs) = (case f x of Some y \<Rightarrow> Some y | None \<Rightarrow> find_map f xs)"

definition receipt_bool :: "'v json_api \<Rightarrow> 'v \<Rightarrow> string list \<Rightarrow> bool option" where
  "receipt_bool J receipt keys = find_map (\<lambda>key. Option.bind (j_get J receipt key) (j_as_bool J)) keys"

definition receipt_string :: "'v json_api \<Rightarrow> 'v \<Rightarrow> string list \<Rightarrow> string option" where
  "receipt_string J receipt keys =
     (case find_map (\<lambda>key. Option.bind (j_get J receipt key) (j_as_str J)) keys of
        None \<Rightarrow> None
      | Some s \<Rightarrow> if trim s = [] then None else Some (trim s))"

definition required_receipt_string :: "'v json_api \<Rightarrow> 'v \<Rightarrow> string list \<Rightarrow> x402_error + string" where
  "required_receipt_string J receipt keys =
     (case receipt_string J receipt keys of None \<Rightarrow> Err (Receipt_missing keys) | Some s \<Rightarrow> Ok s)"

definition is_evm_transaction_hash :: "string \<Rightarrow> bool" where
  "is_evm_transaction_hash s \<longleftrightarrow>
     length s = 66 \<and> prefix ''0x'' s \<and> list_all is_ascii_hexdigit (drop 2 s)"

definition validate_x402_settlement_receipt ::
  "'v json_api \<Rightarrow> 'v payment_transaction \<Rightarrow> 'v \<Rightarrow> x402_error + unit" where
  "validate_x402_settlement_receipt J p receipt =
     (if \<not> eq_ignore_ascii_case (pt_rail p) ''x402'' then Ok ()
      else if is_some_and (receipt_string J receipt [''rail''])
                (\<lambda>rail. \<not> eq_ignore_ascii_case rail ''x402'') then Err Receipt_rail
      else if receipt_bool J receipt [''success''] \<noteq> Some True then Err Receipt_not_success
      else
        case required_receipt_string J receipt [''payer''] of Inl e \<Rightarrow> Err e
        | Inr payer \<Rightarrow>
        (case pt_sender_address p of None \<Rightarrow> Err No_sender_address
         | Some sender_address \<Rightarrow>
           if \<not> eq_ignore_ascii_case payer sender_address then Err Payer_mismatch
           else
        (case required_receipt_string J receipt [''transaction'', ''tx_hash'', ''txHash''] of
           Inl e \<Rightarrow> Err e
         | Inr transaction_hash \<Rightarrow>
           if \<not> is_evm_transaction_hash transaction_hash then Err Not_a_transaction_hash
           else
        (case required_receipt_string J receipt [''amount''] of Inl e \<Rightarrow> Err e
         | Inr receipt_amount \<Rightarrow>
           if \<not> amounts_match receipt_amount (pt_amount p) then Err Amount_mismatch
           else
        (case required_receipt_string J receipt [''network''] of Inl e \<Rightarrow> Err e
         | Inr receipt_network \<Rightarrow>
           if is_some_and (pt_network p) (\<lambda>expected_network.
                canonical_x402_network receipt_network \<noteq> canonical_x402_network expected_network)
           then Err Network_mismatch
           else if is_some_and (receipt_string J receipt [''payTo'', ''pay_to'', ''recipient'', ''to'']) (\<lambda>pay_to.
                is_some_and (pt_recipient_address p) (\<lambda>expected. \<not> eq_ignore_ascii_case pay_to expected))
           then Err Pay_to_mismatch
           else Ok ())))))"

subsection \<open>Amounts survive the round trip\<close>

lemma length_trim_end_zeros: "length (trim_end_zeros s) \<le> length s"
  using length_dropWhile_le [of _ "rev s"] by (simp add: trim_end_zeros_def)

lemma trim_end_zeros_pad:
  "trim_end_zeros s @ replicate (length s - length (trim_end_zeros s)) (CHR ''0'') = s"
proof (induction s rule: rev_induct)
  case (snoc c s)
  show ?case
  proof (cases "c = CHR ''0''")
    case True
    have le: "length (trim_end_zeros s) \<le> length s" by (rule length_trim_end_zeros)
    have "trim_end_zeros (s @ [c]) = trim_end_zeros s" using True by (simp add: trim_end_zeros_def)
    moreover have "replicate (Suc (length s) - length (trim_end_zeros s)) (CHR ''0'') =
        replicate (length s - length (trim_end_zeros s)) (CHR ''0'') @ [CHR ''0'']"
      using le by (simp add: Suc_diff_le replicate_append_same)
    ultimately show ?thesis using snoc True by (simp flip: append_assoc)
  next
    case False
    then show ?thesis by (simp add: trim_end_zeros_def)
  qed
qed (simp add: trim_end_zeros_def)

lemma trim_end_zeros_idem [simp]: "trim_end_zeros (trim_end_zeros s) = trim_end_zeros s"
  by (simp add: trim_end_zeros_def)

lemma set_trim_end_zeros: "c \<in> set (trim_end_zeros s) \<Longrightarrow> c \<in> set s"
  by (auto simp: trim_end_zeros_def dest: set_dropWhileD)

lemma fractional_roundtrip:
  assumes "0 < m" and "m < 10 ^ d" and "10 ^ d \<le> u128_max"
  shows "fractional_to_units (trim_end_zeros (replicate (d - length (dec_str m)) (CHR ''0'') @ dec_str m)) d = Ok m"
proof -
  let ?s = "replicate (d - length (dec_str m)) (CHR ''0'') @ dec_str m"
  have d: "0 < d" using assms(1,2) by (cases d) auto
  have len: "length ?s = d" using length_dec_str [OF assms(2) d] by simp
  have zero: "is_ascii_digit (CHR ''0'')" by (simp add: is_ascii_digit_def)
  have dig: "list_all is_ascii_digit ?s" using zero by (auto simp: list_all_iff intro: dec_str_digits)
  have "digits_val ?s = Some m"
    using digits_val_append [OF digits_val_zeros digits_val_dec_str] by simp
  then have "parse_uint u128_max ?s = Some m"
    using dig assms by (intro parse_digits) auto
  moreover have "list_all is_ascii_digit (trim_end_zeros ?s)"
    using dig set_trim_end_zeros by (force simp: list_all_iff)
  moreover have "trim_end_zeros ?s @ replicate (d - length (trim_end_zeros ?s)) (CHR ''0'') = ?s"
    using trim_end_zeros_pad [of ?s] unfolding len .
  moreover have "\<not> d < length (trim_end_zeros ?s)"
    using length_trim_end_zeros [of ?s] unfolding len by simp
  ultimately show ?thesis by (simp add: fractional_to_units_def Let_def)
qed

lemma parse_whole: "n \<le> u128_max \<Longrightarrow> parse_uint u128_max (dec_str (n div s)) = Some (n div s)"
  by (rule parse_dec_str) (meson div_le_dividend le_trans)

lemma dec_str_no_dot: "CHR ''.'' \<notin> set (dec_str n)"
  by (rule dec_str_no_sep) (simp add: is_ascii_digit_def)

lemma dec_str_hd: "hd (dec_str n) \<noteq> CHR ''-''"
proof -
  have "is_ascii_digit (hd (dec_str n))" by (rule dec_str_digits [of _ n]) simp
  then show ?thesis by (auto simp: is_ascii_digit_def char_le_nat)
qed

lemma base_units_roundtrip:
  assumes "0 < n" and "n \<le> u128_max" and "10 ^ d \<le> u128_max"
  shows "decimal_amount_to_base_units (format_base_units_as_decimal n d) d = Ok (dec_str n)"
proof -
  let ?w = "n div 10 ^ d" and ?m = "n mod 10 ^ d"
  have sum: "?w * 10 ^ d + ?m = n" by (rule div_mult_mod_eq)
  have small: "?w * 10 ^ d \<le> u128_max" using assms(2) sum by linarith
  have pow: "checked_pow10 d = Some (10 ^ d)" using assms(3) by (simp add: checked_pow10_def)
  show ?thesis
  proof (cases "?m = 0")
    case True
    with sum have w: "?w * 10 ^ d = n" by simp
    from True w small assms show ?thesis
      by (simp add: decimal_amount_to_base_units_def format_base_units_as_decimal_def pow Let_def
          split_on_no_sep dec_str_no_dot dec_str_hd parse_whole)
  next
    case False
    let ?f = "trim_end_zeros (replicate (d - length (dec_str ?m)) (CHR ''0'') @ dec_str ?m)"
    have fmt: "format_base_units_as_decimal n d = dec_str ?w @ CHR ''.'' # ?f"
      using False by (simp add: format_base_units_as_decimal_def pow Let_def)
    have dig: "is_ascii_digit c" if "c \<in> set ?f" for c
      using set_trim_end_zeros [OF that] by (auto simp: is_ascii_digit_def dest: dec_str_digits)
    then have dot: "CHR ''.'' \<notin> set ?f" by (force simp: is_ascii_digit_def)
    have "printable (CHR ''.'')" by (simp add: printable_def)
    then have trim: "trim (dec_str ?w @ CHR ''.'' # ?f) = dec_str ?w @ CHR ''.'' # ?f"
      using dig by (intro trim_printable)
        (auto simp: list_all_iff intro: printable_digit dec_str_digits)
    have parts: "split_on (CHR ''.'') (dec_str ?w @ CHR ''.'' # ?f) = [dec_str ?w, ?f]"
      by (simp add: split_on_append dec_str_no_dot split_on_no_sep [OF dot])
    have "fractional_to_units ?f d = Ok ?m"
      using False assms(3) by (intro fractional_roundtrip) auto
    with small sum assms(1,2) show ?thesis
      unfolding decimal_amount_to_base_units_def Let_def fmt trim parts
      by (simp add: dec_str_hd pow parse_whole)
  qed
qed

text \<open>
  C14: printing a positive stablecoin amount given in base units as a decimal and converting the
  decimal back gives the amount again, for every amount a \<^verbatim>\<open>u128\<close> can hold.
\<close>

theorem stablecoin_roundtrip:
  assumes "stablecoin_decimals currency = Some d" and "0 < n" and "n \<le> u128_max"
  shows "\<exists>decimal. stablecoin_amount_from_base_units (dec_str n) currency = Some decimal
     \<and> stablecoin_amount_to_base_units decimal currency = Ok (Some (dec_str n))"
proof -
  have "d = 6" using assms(1) by (simp add: stablecoin_decimals_def split: if_splits)
  then have "10 ^ d \<le> u128_max" by (simp add: u128_max_def)
  with base_units_roundtrip [OF assms(2,3)] show ?thesis
    by (simp add: stablecoin_amount_from_base_units_def stablecoin_amount_to_base_units_def assms
        parse_dec_str)
qed

lemma trim_USDC: "trim ''usdc'' = ''usdc''"
  by (rule trim_printable) (simp add: printable_def)

lemma stablecoin_roundtrip_witness:
  "\<exists>decimal. stablecoin_amount_from_base_units (dec_str 1500000) ''usdc'' = Some decimal
     \<and> stablecoin_amount_to_base_units decimal ''usdc'' = Ok (Some (dec_str 1500000))"
proof (rule stablecoin_roundtrip)
  have "to_ascii_uppercase ''usdc'' = ''USDC''"
    by (simp add: to_ascii_uppercase_def ascii_upper_def char_of_def bit_iff_odd del: One_nat_def)
  then show "stablecoin_decimals ''usdc'' = Some 6" by (simp add: stablecoin_decimals_def trim_USDC)
qed (simp_all add: u128_max_def)

subsection \<open>Networks\<close>

lemma canonical_constants:
  "canonical_x402_network ''eip155:8453'' = ''eip155:8453''"
  "canonical_x402_network ''eip155:84532'' = ''eip155:84532''"
  "canonical_x402_network ''eip155:1'' = ''eip155:1''"
  "canonical_x402_network ''eip155:137'' = ''eip155:137''"
  "canonical_x402_network ''eip155:10'' = ''eip155:10''"
  "canonical_x402_network ''eip155:42161'' = ''eip155:42161''"
  by (simp_all add: canonical_x402_network_def trim_printable printable_def to_ascii_lowercase_def
      ascii_lower_def Let_def)

lemma canonical_x402_network_idem:
  "canonical_x402_network (canonical_x402_network n) = canonical_x402_network n"
proof -
  let ?m = "to_ascii_lowercase (trim n)"
  have same: "canonical_x402_network ?m = canonical_x402_network n"
    by (simp add: canonical_x402_network_def)
  have "canonical_x402_network n \<in> {''eip155:8453'', ''eip155:84532'', ''eip155:1'', ''eip155:137'',
      ''eip155:10'', ''eip155:42161'', ?m}"
    by (simp add: canonical_x402_network_def Let_def)
  with same show ?thesis using canonical_constants by auto
qed

end
