(* ===== verification/Payments.thy ===== *)
theory Payments
  imports X402 Machines "HOL-Library.Multiset"
begin

text \<open>
  \<^verbatim>\<open>payments/mod.rs\<close>: the payment ledger. Payments are proposed, authorized, submitted,
  settled, rejected or cancelled locally, and merged with what remote agents report.
  The wallet crate, base64 and the JSON encoding of the authorization payload are a parameter,
  the record \<open>pay_env\<close>.
\<close>

record pay_env =
  pe_b64_decode :: "string \<Rightarrow> string option"
  pe_to_vec :: "payment_authorization_payload \<Rightarrow> string option"
  pe_secp256k1_verify :: "string \<Rightarrow> string \<Rightarrow> string \<Rightarrow> bool"
  pe_evm_address :: "string \<Rightarrow> string option"

datatype pay_error =
    Payment_not_found
  | Not_proposed payment_status
  | Payment_expired
  | Not_authorized payment_status
  | Not_settleable payment_status
  | Receipt_invalid x402_error
  | Not_rejectable payment_status
  | Not_cancellable payment_status
  | Signature_required
  | Public_key_required
  | Decode_authorization_signature
  | Serialize_authorization
  | Authorization_invalid
  | Sender_address_required
  | Address_underivable
  | Address_mismatch
  | Kind_status_mismatch
  | Wrong_actor
  | Not_a_participant

subsection \<open>Authorization signatures and agent messages\<close>

definition authorization_payload :: "'v payment_transaction \<Rightarrow> payment_authorization_payload" where
  "authorization_payload p =
     \<lparr>pap_payment_id = pt_payment_id p, pap_sender_did = pt_sender_did p,
      pap_recipient_did = pt_recipient_did p, pap_sender_public_id = pt_sender_public_id p,
      pap_recipient_public_id = pt_recipient_public_id p, pap_remote_node_id = pt_remote_node_id p,
      pap_amount = pt_amount p, pap_currency = pt_currency p, pap_rail = pt_rail p,
      pap_layer = pt_layer p, pap_network = pt_network p, pap_sender_address = pt_sender_address p,
      pap_recipient_address = pt_recipient_address p, pap_mission_id = pt_mission_id p,
      pap_task_id = pt_task_id p, pap_description = pt_description p,
      pap_expires_at = pt_expires_at p\<rparr>"

definition authorization_payload_bytes :: "pay_env \<Rightarrow> 'v payment_transaction \<Rightarrow> pay_error + string" where
  "authorization_payload_bytes E p =
     (case pe_to_vec E (authorization_payload p) of None \<Rightarrow> Err Serialize_authorization | Some b \<Rightarrow> Ok b)"

definition verify_payment_authorization_signature ::
  "pay_env \<Rightarrow> 'v payment_transaction \<Rightarrow> pay_error + unit" where
  "verify_payment_authorization_signature E p =
     (case pt_authorization_signature p of None \<Rightarrow> Err Signature_required
      | Some signature_b64 \<Rightarrow>
     (case pt_authorization_public_key p of None \<Rightarrow> Err Public_key_required
      | Some public_key \<Rightarrow>
     (case pe_b64_decode E signature_b64 of None \<Rightarrow> Err Decode_authorization_signature
      | Some signature \<Rightarrow>
     (case authorization_payload_bytes E p of Inl e \<Rightarrow> Err e
      | Inr bytes \<Rightarrow>
        if \<not> pe_secp256k1_verify E public_key bytes signature then Err Authorization_invalid
        else
     (case pt_sender_address p of None \<Rightarrow> Err Sender_address_required
      | Some sender_address \<Rightarrow>
     (case pe_evm_address E public_key of None \<Rightarrow> Err Address_underivable
      | Some derived_address \<Rightarrow>
        if \<not> eq_ignore_ascii_case derived_address sender_address then Err Address_mismatch
        else Ok ()))))))"

definition validate_agent_payment_message ::
  "pay_env \<Rightarrow> 'v payment_agent_message \<Rightarrow> string \<Rightarrow> pay_error + unit" where
  "validate_agent_payment_message E msg source_agent_did =
     (let payment = pam_payment msg; kind = pam_kind msg
      in if pt_status payment \<noteq> expected_status kind then Err Kind_status_mismatch
         else if is_some_and (expected_actor_did kind payment) (\<lambda>expected. expected \<noteq> source_agent_did)
         then Err Wrong_actor
         else if expected_actor_did kind payment = None \<and>
                 source_agent_did \<noteq> pt_sender_did payment \<and> source_agent_did \<noteq> pt_recipient_did payment
         then Err Not_a_participant
         else if kind = MsgAuthorized \<or> kind = MsgSubmitted \<or> kind = MsgSettled
         then verify_payment_authorization_signature E payment
         else Ok ())"

subsection \<open>Requests and the ledger\<close>

record 'v propose_payment_request =
  ppr_sender_public_id :: string
  ppr_remote_node_id :: string
  ppr_recipient_public_id :: string
  ppr_recipient_did :: string
  ppr_amount :: string
  ppr_currency :: string
  ppr_rail :: string
  ppr_layer :: settlement_layer
  ppr_network :: "string option"
  ppr_recipient_address :: "string option"
  ppr_mission_id :: "string option"
  ppr_task_id :: "string option"
  ppr_description :: "string option"
  ppr_metadata :: "'v option"
  ppr_expires_at :: "int option"

record authorize_payment_request =
  apr_payment_id :: string
  apr_authorization_signature :: string
  apr_authorization_public_key :: "string option"
  apr_sender_address :: "string option"

record 'v settle_payment_request =
  spr_payment_id :: string
  spr_settlement_receipt :: 'v

record reject_payment_request =
  rpr_payment_id :: string
  rpr_reject_reason :: string

record payment_query =
  pq_status :: "payment_status option"
  pq_sender_did :: "string option"
  pq_recipient_did :: "string option"
  pq_sender_public_id :: "string option"
  pq_recipient_public_id :: "string option"
  pq_remote_node_id :: "string option"
  pq_mission_id :: "string option"
  pq_task_id :: "string option"
  pq_rail :: "string option"
  pq_since :: "int option"
  pq_limit :: "nat option"

record payment_summary =
  ps_total_proposed :: nat
  ps_total_authorized :: nat
  ps_total_settled :: nat
  ps_total_rejected :: nat
  ps_total_cancelled :: nat
  ps_total_expired :: nat
  ps_total_amount_settled :: "(string, string) btree_map"

record 'v payment_ledger =
  pl_payments :: "(string, 'v payment_transaction) btree_map"

definition ledger_empty :: "'v payment_ledger" where
  "ledger_empty = \<lparr>pl_payments = bempty\<rparr>"

definition propose ::
  "string \<Rightarrow> 'v propose_payment_request \<Rightarrow> string \<Rightarrow> int \<Rightarrow> 'v payment_ledger \<Rightarrow>
   (pay_error + 'v payment_transaction) \<times> 'v payment_ledger" where
  "propose sender_did r uuid now l =
     (let payment_id = ''payment-'' @ uuid;
          p = \<lparr>pt_payment_id = payment_id, pt_sender_did = sender_did,
               pt_recipient_did = ppr_recipient_did r, pt_sender_public_id = ppr_sender_public_id r,
               pt_recipient_public_id = ppr_recipient_public_id r,
               pt_remote_node_id = ppr_remote_node_id r, pt_amount = ppr_amount r,
               pt_currency = ppr_currency r, pt_rail = ppr_rail r, pt_layer = ppr_layer r,
               pt_network = ppr_network r, pt_sender_address = None,
               pt_recipient_address = ppr_recipient_address r, pt_mission_id = ppr_mission_id r,
               pt_task_id = ppr_task_id r, pt_description = ppr_description r,
               pt_metadata = ppr_metadata r, pt_status = Proposed,
               pt_authorization_signature = None, pt_authorization_public_key = None,
               pt_settlement_receipt = None, pt_reject_reason = None, pt_proposed_at = now,
               pt_authorized_at = None, pt_settled_at = None, pt_expires_at = ppr_expires_at r\<rparr>
      in (Ok p, l\<lparr>pl_payments := binsert payment_id p (pl_payments l)\<rparr>))"

text \<open>
  The pattern of the methods that follow: \<^verbatim>\<open>get_mut(id)\<close>, guards, field updates. The
  function returns the result together with the transaction it leaves in place.
\<close>

definition modify_payment ::
  "string \<Rightarrow> ('v payment_transaction \<Rightarrow> (pay_error + 'v payment_transaction) \<times> 'v payment_transaction) \<Rightarrow>
   'v payment_ledger \<Rightarrow> (pay_error + 'v payment_transaction) \<times> 'v payment_ledger" where
  "modify_payment payment_id f l =
     (case bget (pl_payments l) payment_id of
        None \<Rightarrow> (Err Payment_not_found, l)
      | Some p \<Rightarrow>
        (let (r, p') = f p in (r, l\<lparr>pl_payments := binsert payment_id p' (pl_payments l)\<rparr>)))"

text \<open>\<open>t1\<close> is the reading for the expiry check, \<open>t2\<close> the one for \<^verbatim>\<open>authorized_at\<close>.\<close>

definition authorize ::
  "authorize_payment_request \<Rightarrow> int \<Rightarrow> int \<Rightarrow> 'v payment_ledger \<Rightarrow>
   (pay_error + 'v payment_transaction) \<times> 'v payment_ledger" where
  "authorize r t1 t2 =
     modify_payment (apr_payment_id r) (\<lambda>p.
       if pt_status p \<noteq> Proposed then (Err (Not_proposed (pt_status p)), p)
       else if is_some_and (pt_expires_at p) (\<lambda>expires_at. expires_at < t1)
       then (Err Payment_expired, p\<lparr>pt_status := Expired\<rparr>)
       else
         let p' = p\<lparr>pt_status := Authorized,
                    pt_authorization_signature := Some (apr_authorization_signature r),
                    pt_authorization_public_key := apr_authorization_public_key r,
                    pt_sender_address := apr_sender_address r,
                    pt_authorized_at := Some t2\<rparr>
         in (Ok p', p'))"

definition submit ::
  "string \<Rightarrow> 'v option \<Rightarrow> 'v payment_ledger \<Rightarrow> (pay_error + 'v payment_transaction) \<times> 'v payment_ledger" where
  "submit payment_id settlement_receipt =
     modify_payment payment_id (\<lambda>p.
       if pt_status p \<noteq> Authorized then (Err (Not_authorized (pt_status p)), p)
       else
         let p' = p\<lparr>pt_status := Submitted, pt_settlement_receipt := settlement_receipt\<rparr>
         in (Ok p', p'))"

definition settle ::
  "'v json_api \<Rightarrow> 'v settle_payment_request \<Rightarrow> int \<Rightarrow> 'v payment_ledger \<Rightarrow>
   (pay_error + 'v payment_transaction) \<times> 'v payment_ledger" where
  "settle J r now =
     modify_payment (spr_payment_id r) (\<lambda>p.
       if \<not> (pt_status p = Submitted \<or> pt_status p = Authorized)
       then (Err (Not_settleable (pt_status p)), p)
       else
         case (if eq_ignore_ascii_case (pt_rail p) ''x402''
               then validate_x402_settlement_receipt J p (spr_settlement_receipt r) else Ok ()) of
           Inl e \<Rightarrow> (Err (Receipt_invalid e), p)
         | Inr _ \<Rightarrow>
           let p' = p\<lparr>pt_status := Settled,
                      pt_settlement_receipt := Some (spr_settlement_receipt r),
                      pt_settled_at := Some now\<rparr>
           in (Ok p', p'))"

definition reject ::
  "reject_payment_request \<Rightarrow> 'v payment_ledger \<Rightarrow> (pay_error + 'v payment_transaction) \<times> 'v payment_ledger" where
  "reject r =
     modify_payment (rpr_payment_id r) (\<lambda>p.
       if pt_status p = Settled \<or> pt_status p = Cancelled \<or> pt_status p = Rejected
       then (Err (Not_rejectable (pt_status p)), p)
       else
         let p' = p\<lparr>pt_status := Rejected, pt_reject_reason := Some (rpr_reject_reason r)\<rparr>
         in (Ok p', p'))"

definition cancel ::
  "string \<Rightarrow> 'v payment_ledger \<Rightarrow> (pay_error + 'v payment_transaction) \<times> 'v payment_ledger" where
  "cancel payment_id =
     modify_payment payment_id (\<lambda>p.
       if \<not> (pt_status p = Proposed \<or> pt_status p = Authorized)
       then (Err (Not_cancellable (pt_status p)), p)
       else let p' = p\<lparr>pt_status := Cancelled\<rparr> in (Ok p', p'))"

definition get_payment :: "'v payment_ledger \<Rightarrow> string \<Rightarrow> 'v payment_transaction option" where
  "get_payment l payment_id = bget (pl_payments l) payment_id"

definition query_matches :: "payment_query \<Rightarrow> 'v payment_transaction \<Rightarrow> bool" where
  "query_matches q p \<longleftrightarrow>
     is_none_or (pq_status q) (\<lambda>x. pt_status p = x) \<and>
     is_none_or (pq_sender_did q) (\<lambda>x. pt_sender_did p = x) \<and>
     is_none_or (pq_recipient_did q) (\<lambda>x. pt_recipient_did p = x) \<and>
     is_none_or (pq_sender_public_id q) (\<lambda>x. pt_sender_public_id p = x) \<and>
     is_none_or (pq_recipient_public_id q) (\<lambda>x. pt_recipient_public_id p = x) \<and>
     is_none_or (pq_remote_node_id q) (\<lambda>x. pt_remote_node_id p = x) \<and>
     is_none_or (pq_mission_id q) (\<lambda>x. pt_mission_id p = Some x) \<and>
     is_none_or (pq_task_id q) (\<lambda>x. pt_task_id p = Some x) \<and>
     is_none_or (pq_rail q) (\<lambda>x. pt_rail p = x) \<and>
     is_none_or (pq_since q) (\<lambda>since. since \<le> pt_proposed_at p)"

definition query :: "'v payment_ledger \<Rightarrow> payment_query \<Rightarrow> 'v payment_transaction list" where
  "query l q =
     (let results = sort_key (\<lambda>p. - pt_proposed_at p) (filter (query_matches q) (bvalues (pl_payments l)))
      in case pq_limit q of None \<Rightarrow> results | Some limit \<Rightarrow> take limit results)"

definition add_settled_amount ::
  "'v payment_transaction \<Rightarrow> (string, string) btree_map \<Rightarrow> (string, string) btree_map" where
  "add_settled_amount p totals =
     (let entry = bget_or ''0'' totals (pt_currency p)
      in binsert (pt_currency p)
           (case (parse_uint u128_max entry, parse_uint u128_max (pt_amount p)) of
              (Some current, Some add) \<Rightarrow> dec_str ((current + add) mod 2 ^ 128)
            | _ \<Rightarrow> entry) totals)"

definition summary_step :: "payment_summary \<Rightarrow> 'v payment_transaction \<Rightarrow> payment_summary" where
  "summary_step sm p =
     (case pt_status p of
        Proposed \<Rightarrow> sm\<lparr>ps_total_proposed := ps_total_proposed sm + 1\<rparr>
      | Authorized \<Rightarrow> sm\<lparr>ps_total_authorized := ps_total_authorized sm + 1\<rparr>
      | Submitted \<Rightarrow> sm
      | Settled \<Rightarrow> sm\<lparr>ps_total_settled := ps_total_settled sm + 1,
                      ps_total_amount_settled := add_settled_amount p (ps_total_amount_settled sm)\<rparr>
      | Rejected \<Rightarrow> sm\<lparr>ps_total_rejected := ps_total_rejected sm + 1\<rparr>
      | Expired \<Rightarrow> sm\<lparr>ps_total_expired := ps_total_expired sm + 1\<rparr>
      | Cancelled \<Rightarrow> sm\<lparr>ps_total_cancelled := ps_total_cancelled sm + 1\<rparr>)"

definition summary_empty :: payment_summary where
  "summary_empty = \<lparr>ps_total_proposed = 0, ps_total_authorized = 0, ps_total_settled = 0,
     ps_total_rejected = 0, ps_total_cancelled = 0, ps_total_expired = 0,
     ps_total_amount_settled = bempty\<rparr>"

definition summary :: "'v payment_ledger \<Rightarrow> payment_summary" where
  "summary l = foldl summary_step summary_empty (bvalues (pl_payments l))"

definition all_payments :: "'v payment_ledger \<Rightarrow> 'v payment_transaction list" where
  "all_payments l = bvalues (pl_payments l)"

definition payments_len :: "'v payment_ledger \<Rightarrow> nat" where
  "payments_len l = blen (pl_payments l)"

definition payments_is_empty :: "'v payment_ledger \<Rightarrow> bool" where
  "payments_is_empty l = (blen (pl_payments l) = 0)"

subsection \<open>Merging what remote agents report\<close>

definition keep_first :: "'a option \<Rightarrow> 'a option \<Rightarrow> 'a option" where
  "keep_first x y = (case x of None \<Rightarrow> y | Some _ \<Rightarrow> x)"

definition merge_transaction ::
  "'v payment_transaction \<Rightarrow> 'v payment_transaction \<Rightarrow> 'v payment_transaction \<times> bool" where
  "merge_transaction current incoming =
     (let merged = current\<lparr>
            pt_status := if rank (pt_status current) \<le> rank (pt_status incoming)
                         then pt_status incoming else pt_status current,
            pt_sender_address := keep_first (pt_sender_address current) (pt_sender_address incoming),
            pt_recipient_address := keep_first (pt_recipient_address current) (pt_recipient_address incoming),
            pt_authorization_signature :=
              keep_first (pt_authorization_signature current) (pt_authorization_signature incoming),
            pt_authorization_public_key :=
              keep_first (pt_authorization_public_key current) (pt_authorization_public_key incoming),
            pt_settlement_receipt :=
              keep_first (pt_settlement_receipt current) (pt_settlement_receipt incoming),
            pt_reject_reason := keep_first (pt_reject_reason current) (pt_reject_reason incoming),
            pt_authorized_at := keep_first (pt_authorized_at current) (pt_authorized_at incoming),
            pt_settled_at := keep_first (pt_settled_at current) (pt_settled_at incoming),
            pt_expires_at := keep_first (pt_expires_at current) (pt_expires_at incoming)\<rparr>
      in (merged, merged \<noteq> current))"

definition merge_remote_transaction ::
  "'v payment_transaction \<Rightarrow> 'v payment_ledger \<Rightarrow>
   (pay_error + 'v payment_transaction \<times> bool) \<times> 'v payment_ledger" where
  "merge_remote_transaction t l =
     (case bget (pl_payments l) (pt_payment_id t) of
        Some existing \<Rightarrow>
          (let (merged, changed) = merge_transaction existing t
           in (Ok (merged, changed), l\<lparr>pl_payments := binsert (pt_payment_id t) merged (pl_payments l)\<rparr>))
      | None \<Rightarrow>
          (Ok (t, True), l\<lparr>pl_payments := binsert (pt_payment_id t) t (pl_payments l)\<rparr>))"

definition merge_remote_agent_message ::
  "pay_env \<Rightarrow> 'v payment_agent_message \<Rightarrow> string \<Rightarrow> 'v payment_ledger \<Rightarrow>
   (pay_error + 'v payment_transaction \<times> bool) \<times> 'v payment_ledger" where
  "merge_remote_agent_message E msg source_agent_did l =
     (case validate_agent_payment_message E msg source_agent_did of
        Inl e \<Rightarrow> (Err e, l)
      | Inr _ \<Rightarrow> merge_remote_transaction (pam_payment msg) l)"

subsection \<open>One step of the ledger\<close>

datatype 'v pay_op =
    Propose string "'v propose_payment_request" string int
  | Authorize authorize_payment_request int int
  | Submit string "'v option"
  | Settle "'v settle_payment_request" int
  | Reject reject_payment_request
  | Cancel string
  | Merge_transaction "'v payment_transaction"
  | Merge_message "'v payment_agent_message" string

definition pay_step ::
  "'v json_api \<Rightarrow> pay_env \<Rightarrow> 'v payment_ledger \<Rightarrow> 'v pay_op \<Rightarrow> 'v payment_ledger" where
  "pay_step J E l op =
     (case op of
        Propose sender r uuid now \<Rightarrow> snd (propose sender r uuid now l)
      | Authorize r t1 t2 \<Rightarrow> snd (authorize r t1 t2 l)
      | Submit i receipt \<Rightarrow> snd (submit i receipt l)
      | Settle r now \<Rightarrow> snd (settle J r now l)
      | Reject r \<Rightarrow> snd (reject r l)
      | Cancel i \<Rightarrow> snd (cancel i l)
      | Merge_transaction t \<Rightarrow> snd (merge_remote_transaction t l)
      | Merge_message msg source \<Rightarrow> snd (merge_remote_agent_message E msg source l))"

subsection \<open>The life of a payment\<close>

text \<open>The status changes the local operations may make.\<close>

inductive pay_next :: "payment_status \<Rightarrow> payment_status \<Rightarrow> bool" where
  authorizes: "pay_next Proposed Authorized"
| expires: "pay_next Proposed Expired"
| submits: "pay_next Authorized Submitted"
| settles_directly: "pay_next Authorized Settled"
| settles: "pay_next Submitted Settled"
| rejects: "s \<notin> {Settled, Cancelled, Rejected} \<Longrightarrow> pay_next s Rejected"
| cancels_proposed: "pay_next Proposed Cancelled"
| cancels_authorized: "pay_next Authorized Cancelled"

inductive_simps pay_next_iff: "pay_next s t"

definition final_status :: "payment_status \<Rightarrow> bool" where
  "final_status s \<longleftrightarrow> s = Settled \<or> s = Rejected \<or> s = Cancelled"

lemma pay_next_not_final: "pay_next s t \<Longrightarrow> \<not> final_status s"
  by (auto simp: final_status_def elim: pay_next.cases)

text \<open>What was fixed when the payment was proposed: everything but the status, what an authorization
  adds (the sender's address, the signature and its key) and what is recorded later.\<close>

definition payment_terms ::
  "'v payment_transaction \<Rightarrow> (string \<times> string \<times> string \<times> string \<times> string \<times> string) \<times> string \<times> string \<times> string \<times>
     settlement_layer \<times> string option \<times> string option \<times> string option \<times> string option \<times> string option \<times>
     'v option \<times> int \<times> int option" where
  "payment_terms p =
     ((pt_payment_id p, pt_sender_did p, pt_recipient_did p, pt_sender_public_id p,
       pt_recipient_public_id p, pt_remote_node_id p),
      pt_amount p, pt_currency p, pt_rail p, pt_layer p, pt_network p, pt_recipient_address p, pt_mission_id p,
      pt_task_id p, pt_description p, pt_metadata p, pt_proposed_at p, pt_expires_at p)"

text \<open>What the sender signed, and the signature.\<close>

definition payment_authorization ::
  "'v payment_transaction \<Rightarrow> payment_authorization_payload \<times> string option \<times> string option \<times> int option" where
  "payment_authorization p =
     (authorization_payload p, pt_authorization_signature p, pt_authorization_public_key p, pt_authorized_at p)"

lemma pay_next_not_proposed: "pay_next s t \<Longrightarrow> t \<noteq> Proposed"
  by (auto elim: pay_next.cases)

lemma pay_next_star_not_proposed: "pay_next\<^sup>*\<^sup>* s t \<Longrightarrow> s \<noteq> Proposed \<Longrightarrow> t \<noteq> Proposed"
  by (induction rule: rtranclp_induct) (auto dest: pay_next_not_proposed)

fun local_op :: "'v pay_op \<Rightarrow> bool" where
  "local_op (Merge_transaction _) = False"
| "local_op (Merge_message _ _) = False"
| "local_op _ = True"

fun proposes :: "string \<Rightarrow> 'v pay_op \<Rightarrow> bool" where
  "proposes i (Propose _ _ uuid _) = (''payment-'' @ uuid = i)"
| "proposes i _ = False"

lemma modify_payment_get:
  "bget (pl_payments (snd (modify_payment k f l))) j =
     (if j = k then map_option (\<lambda>p. snd (f p)) (bget (pl_payments l) k) else bget (pl_payments l) j)"
  by (simp add: modify_payment_def split: option.splits prod.splits)

text \<open>What one local operation does to a payment that is already in the ledger.\<close>

definition advances :: "string \<Rightarrow> 'v payment_ledger \<Rightarrow> 'v payment_ledger \<Rightarrow> bool" where
  "advances i l l' \<longleftrightarrow> (\<forall>p. bget (pl_payments l) i = Some p \<longrightarrow>
     (\<exists>q. bget (pl_payments l') i = Some q \<and> pay_next\<^sup>*\<^sup>* (pt_status p) (pt_status q) \<and>
          payment_terms q = payment_terms p \<and>
          (pt_status p \<noteq> Proposed \<longrightarrow> payment_authorization q = payment_authorization p) \<and>
          (final_status (pt_status p) \<longrightarrow> q = p)))"

lemma modify_payment_advances:
  assumes "\<And>p. snd (f p) = p \<or> pay_next (pt_status p) (pt_status (snd (f p))) \<and>
      payment_terms (snd (f p)) = payment_terms p \<and>
      (pt_status p \<noteq> Proposed \<longrightarrow> payment_authorization (snd (f p)) = payment_authorization p)"
  shows "advances i l (snd (modify_payment k f l))"
  unfolding advances_def
proof (intro allI impI)
  fix p
  assume get: "bget (pl_payments l) i = Some p"
  consider "i \<noteq> k \<or> snd (f p) = p" | "i = k" "pay_next (pt_status p) (pt_status (snd (f p)))"
    "payment_terms (snd (f p)) = payment_terms p"
    "pt_status p \<noteq> Proposed \<longrightarrow> payment_authorization (snd (f p)) = payment_authorization p"
    using assms by blast
  then show "\<exists>q. bget (pl_payments (snd (modify_payment k f l))) i = Some q \<and>
      pay_next\<^sup>*\<^sup>* (pt_status p) (pt_status q) \<and> payment_terms q = payment_terms p \<and>
      (pt_status p \<noteq> Proposed \<longrightarrow> payment_authorization q = payment_authorization p) \<and>
      (final_status (pt_status p) \<longrightarrow> q = p)"
  proof cases
    case 1
    then show ?thesis using get by (auto simp: modify_payment_get)
  next
    case 2
    then show ?thesis using get pay_next_not_final by (auto simp: modify_payment_get)
  qed
qed

lemmas payment_frame_defs = payment_terms_def payment_authorization_def authorization_payload_def

lemma advances_step:
  assumes "local_op op" and "\<not> proposes i op"
  shows "advances i l (pay_step J E l op)"
proof (cases op)
  case (Propose s r u n)
  with assms show ?thesis by (auto simp: advances_def pay_step_def propose_def Let_def)
next
  case (Authorize r t1 t2)
  then show ?thesis unfolding pay_step_def authorize_def
    by (auto simp: Let_def payment_frame_defs pay_next_iff intro!: modify_payment_advances)
next
  case (Submit j r)
  then show ?thesis unfolding pay_step_def submit_def
    by (auto simp: Let_def payment_frame_defs pay_next_iff intro!: modify_payment_advances)
next
  case (Settle r n)
  then show ?thesis unfolding pay_step_def settle_def
    by (auto simp: Let_def payment_frame_defs pay_next_iff split: sum.splits
        intro!: modify_payment_advances)
next
  case (Reject r)
  then show ?thesis unfolding pay_step_def reject_def
    by (auto simp: Let_def payment_frame_defs pay_next_iff intro!: modify_payment_advances)
next
  case (Cancel j)
  then show ?thesis unfolding pay_step_def cancel_def
    by (auto simp: Let_def payment_frame_defs pay_next_iff intro!: modify_payment_advances)
qed (use assms in auto)

interpretation pay_history: forward_machine "pay_step J E" "\<lambda>op. local_op op \<and> \<not> proposes i op" "advances i"
  for J E i
proof
  fix s t u :: "'a payment_ledger"
  show "advances i s s" by (simp add: advances_def)
  show "advances i s t \<Longrightarrow> advances i t u \<Longrightarrow> advances i s u"
    unfolding advances_def by (metis rtranclp_trans pay_next_star_not_proposed)
qed (simp add: advances_step)

text \<open>
  C2: under any sequence of local operations a payment moves only along the life cycle
  (proposed, authorized, submitted, settled, with rejection, expiry and cancellation as its exits),
  its terms (parties, amount, rail, network, the recipient's address, references, description,
  metadata and expiry) never change; once it has left the proposed state, what the sender signed
  and the signature do not change either; and once it is settled, rejected or cancelled nothing
  about it changes. The id must not be proposed again.
\<close>

theorem payment_lifecycle:
  assumes "get_payment l i = Some p"
    and "list_all (\<lambda>op. local_op op \<and> \<not> proposes i op) ops"
  shows "\<exists>q. get_payment (run (pay_step J E) l ops) i = Some q \<and> pay_next\<^sup>*\<^sup>* (pt_status p) (pt_status q)
     \<and> payment_terms q = payment_terms p
     \<and> (pt_status p \<noteq> Proposed \<longrightarrow> payment_authorization q = payment_authorization p)
     \<and> (final_status (pt_status p) \<longrightarrow> q = p)"
  using pay_history.run_le [OF assms(2), of l] assms(1) by (simp add: advances_def get_payment_def)

definition demo_json :: "unit json_api" where
  "demo_json = \<lparr>j_get = \<lambda>_ _. None, j_as_str = \<lambda>_. None, j_as_bool = \<lambda>_. None,
     j_as_u64 = \<lambda>_. None, j_array = \<lambda>_. None, j_is_object = \<lambda>_. False\<rparr>"

definition demo_pay_env :: pay_env where
  "demo_pay_env = \<lparr>pe_b64_decode = Some, pe_to_vec = \<lambda>_. Some [], pe_secp256k1_verify = \<lambda>_ _ _. True,
     pe_evm_address = Some\<rparr>"

definition demo_pay_request :: "unit propose_payment_request" where
  "demo_pay_request = \<lparr>ppr_sender_public_id = ''a'', ppr_remote_node_id = ''n'',
     ppr_recipient_public_id = ''b'', ppr_recipient_did = ''did:b'', ppr_amount = ''5'',
     ppr_currency = ''WATT'', ppr_rail = ''web2'', ppr_layer = Web2, ppr_network = None,
     ppr_recipient_address = None, ppr_mission_id = None, ppr_task_id = None,
     ppr_description = None, ppr_metadata = None, ppr_expires_at = Some 100\<rparr>"

definition demo_ledger :: "unit payment_ledger" where
  "demo_ledger = snd (propose ''did:a'' demo_pay_request ''1'' 10 ledger_empty)"

definition demo_authorize :: authorize_payment_request where
  "demo_authorize = \<lparr>apr_payment_id = ''payment-1'', apr_authorization_signature = ''s'',
     apr_authorization_public_key = Some ''k'', apr_sender_address = Some ''k''\<rparr>"

lemma payment_lifecycle_witness:
  "\<exists>p q. get_payment demo_ledger ''payment-1'' = Some p \<and>
     get_payment (run (pay_step demo_json demo_pay_env) demo_ledger
       [Authorize demo_authorize 20 20, Submit ''payment-1'' None, Cancel ''payment-1'']) ''payment-1'' = Some q \<and>
     pay_next\<^sup>*\<^sup>* (pt_status p) (pt_status q) \<and> pt_status q = Submitted \<and> payment_terms q = payment_terms p"
proof -
  let ?ops = "[Authorize demo_authorize 20 20, Submit ''payment-1'' None, Cancel ''payment-1'']"
  obtain p where p: "get_payment demo_ledger ''payment-1'' = Some p"
    by (simp add: get_payment_def demo_ledger_def propose_def Let_def)
  from payment_lifecycle [OF p, of ?ops demo_json demo_pay_env]
  obtain q where q: "get_payment (run (pay_step demo_json demo_pay_env) demo_ledger ?ops) ''payment-1'' = Some q"
    "pay_next\<^sup>*\<^sup>* (pt_status p) (pt_status q)" "payment_terms q = payment_terms p" by auto
  moreover from q(1) have "pt_status q = Submitted"
    by (auto simp: get_payment_def pay_step_def authorize_def submit_def cancel_def modify_payment_get
        demo_ledger_def propose_def demo_authorize_def demo_pay_request_def Let_def)
  ultimately show ?thesis using p by blast
qed

subsection \<open>Settled payments are backed\<close>

definition backed :: "'v json_api \<Rightarrow> 'v payment_transaction \<Rightarrow> bool" where [inv_defs]:
  "backed J p \<longleftrightarrow>
     (pt_status p \<in> {Authorized, Submitted, Settled} \<longrightarrow>
        pt_authorization_signature p \<noteq> None \<and> pt_authorized_at p \<noteq> None) \<and>
     (pt_status p = Settled \<longrightarrow> pt_settled_at p \<noteq> None \<and>
        (\<exists>r. pt_settlement_receipt p = Some r \<and> validate_x402_settlement_receipt J p r = Ok ()))"

definition ledger_backed :: "'v json_api \<Rightarrow> 'v payment_ledger \<Rightarrow> bool" where [inv_defs]:
  "ledger_backed J l \<longleftrightarrow> (\<forall>k p. bget (pl_payments l) k = Some p \<longrightarrow> pt_payment_id p = k \<and> backed J p)"

lemma validate_receipt_cong:
  assumes "pt_rail p = pt_rail q" and "pt_sender_address p = pt_sender_address q"
    and "pt_amount p = pt_amount q" and "pt_network p = pt_network q"
    and "pt_recipient_address p = pt_recipient_address q"
  shows "validate_x402_settlement_receipt J p = validate_x402_settlement_receipt J q"
  unfolding validate_x402_settlement_receipt_def fun_eq_iff assms by simp

lemma validate_receipt_upd [simp]:
  "validate_x402_settlement_receipt J (p\<lparr>pt_status := s\<rparr>) = validate_x402_settlement_receipt J p"
  "validate_x402_settlement_receipt J (p\<lparr>pt_settlement_receipt := x\<rparr>) = validate_x402_settlement_receipt J p"
  "validate_x402_settlement_receipt J (p\<lparr>pt_settled_at := t\<rparr>) = validate_x402_settlement_receipt J p"
  "validate_x402_settlement_receipt J (p\<lparr>pt_reject_reason := y\<rparr>) = validate_x402_settlement_receipt J p"
  by (rule validate_receipt_cong; simp)+

lemma validate_receipt_other_rail:
  "\<not> eq_ignore_ascii_case (pt_rail p) ''x402'' \<Longrightarrow> validate_x402_settlement_receipt J p r = Ok ()"
  by (simp add: validate_x402_settlement_receipt_def)

lemma modify_payment_backed:
  assumes "ledger_backed J l"
    and "\<And>p. backed J p \<Longrightarrow> backed J (snd (f p)) \<and> pt_payment_id (snd (f p)) = pt_payment_id p"
  shows "ledger_backed J (snd (modify_payment k f l))"
  using assms by (auto simp: ledger_backed_def modify_payment_get split: if_splits)

lemma ledger_backed_step:
  assumes "local_op op" and "ledger_backed J l"
  shows "ledger_backed J (pay_step J E l op)"
proof (cases op)
  case (Propose s r u n)
  with assms show ?thesis
    by (auto simp: ledger_backed_def backed_def pay_step_def propose_def Let_def)
next
  case (Authorize r t1 t2)
  with assms show ?thesis unfolding pay_step_def authorize_def
    by (auto simp: backed_def Let_def intro!: modify_payment_backed)
next
  case (Submit j r)
  with assms show ?thesis unfolding pay_step_def submit_def
    by (auto simp: backed_def Let_def intro!: modify_payment_backed)
next
  case (Settle r n)
  with assms show ?thesis unfolding pay_step_def settle_def
    by (auto simp: backed_def Let_def validate_receipt_other_rail split: sum.splits if_splits
        intro!: modify_payment_backed)
next
  case (Reject r)
  with assms show ?thesis unfolding pay_step_def reject_def
    by (auto simp: backed_def Let_def intro!: modify_payment_backed)
next
  case (Cancel j)
  with assms show ?thesis unfolding pay_step_def cancel_def
    by (auto simp: backed_def Let_def intro!: modify_payment_backed)
qed (use assms in auto)

interpretation pay_backing: invariant_machine "pay_step J E" local_op "ledger_backed J"
  for J E
  by unfold_locales (rule ledger_backed_step)

lemma ledger_backed_empty: "ledger_backed J ledger_empty"
  by (simp add: ledger_backed_def ledger_empty_def)

lemma x402_receipt_sound:
  assumes "validate_x402_settlement_receipt J p r = Ok ()" and "eq_ignore_ascii_case (pt_rail p) ''x402''"
  shows "receipt_bool J r [''success''] = Some True
     \<and> (\<exists>payer address. receipt_string J r [''payer''] = Some payer \<and> pt_sender_address p = Some address
          \<and> eq_ignore_ascii_case payer address)
     \<and> (\<exists>tx. receipt_string J r [''transaction'', ''tx_hash'', ''txHash''] = Some tx \<and> is_evm_transaction_hash tx)
     \<and> (\<exists>amount. receipt_string J r [''amount''] = Some amount \<and> amounts_match amount (pt_amount p))
     \<and> (\<exists>network. receipt_string J r [''network''] = Some network \<and>
          is_none_or (pt_network p) (\<lambda>n. canonical_x402_network network = canonical_x402_network n))
     \<and> is_none_or (receipt_string J r [''rail'']) (\<lambda>rail. eq_ignore_ascii_case rail ''x402'')
     \<and> is_none_or (receipt_string J r [''payTo'', ''pay_to'', ''recipient'', ''to'']) (\<lambda>pay_to.
          is_none_or (pt_recipient_address p) (\<lambda>recipient. eq_ignore_ascii_case pay_to recipient))"
  using assms unfolding validate_x402_settlement_receipt_def required_receipt_string_def
  by (auto simp: is_some_and_iff is_none_or_iff split: if_splits option.splits sum.splits)

text \<open>
  C3: in a ledger that only local operations have touched, every settled payment was authorized
  with a signature, and if its rail is x402 the stored receipt reports success, its payer is the
  sender's address, it carries an EVM transaction hash, its amount is the payment's amount, its
  network is the payment's network up to aliases, and the rail and the recipient it names, if it
  names them, are x402 and the recipient's address of the payment, if the payment has one.
\<close>

theorem settled_payments_backed:
  assumes "list_all local_op ops"
    and "get_payment (run (pay_step J E) ledger_empty ops) i = Some p" and "pt_status p = Settled"
  shows "pt_authorization_signature p \<noteq> None \<and> pt_settled_at p \<noteq> None
     \<and> (\<exists>r. pt_settlement_receipt p = Some r \<and>
         (eq_ignore_ascii_case (pt_rail p) ''x402'' \<longrightarrow>
            receipt_bool J r [''success''] = Some True
          \<and> (\<exists>payer address. receipt_string J r [''payer''] = Some payer \<and> pt_sender_address p = Some address
               \<and> eq_ignore_ascii_case payer address)
          \<and> (\<exists>tx. receipt_string J r [''transaction'', ''tx_hash'', ''txHash''] = Some tx \<and> is_evm_transaction_hash tx)
          \<and> (\<exists>amount. receipt_string J r [''amount''] = Some amount \<and> amounts_match amount (pt_amount p))
          \<and> (\<exists>network. receipt_string J r [''network''] = Some network \<and>
               is_none_or (pt_network p) (\<lambda>n. canonical_x402_network network = canonical_x402_network n))
          \<and> is_none_or (receipt_string J r [''rail'']) (\<lambda>rail. eq_ignore_ascii_case rail ''x402'')
          \<and> is_none_or (receipt_string J r [''payTo'', ''pay_to'', ''recipient'', ''to'']) (\<lambda>pay_to.
               is_none_or (pt_recipient_address p) (\<lambda>recipient. eq_ignore_ascii_case pay_to recipient))))"
proof -
  have "backed J p"
    using pay_backing.run_inv [OF assms(1) ledger_backed_empty] assms(2)
    by (auto simp: ledger_backed_def get_payment_def)
  then obtain r where "pt_settlement_receipt p = Some r"
      and "validate_x402_settlement_receipt J p r = Ok ()"
      and "pt_authorization_signature p \<noteq> None" and "pt_settled_at p \<noteq> None"
    using assms(3) by (auto simp: backed_def)
  then show ?thesis using x402_receipt_sound [of J p r] by blast
qed

text \<open>An x402 payment with a receipt that names its recipient. Receipts are association lists.\<close>

datatype demo_value = Demo_str string | Demo_true | Demo_object "(string \<times> demo_value) list"

definition demo_receipt_json :: "demo_value json_api" where
  "demo_receipt_json = \<lparr>
     j_get = \<lambda>v k. case v of Demo_object fs \<Rightarrow> map_of fs k | _ \<Rightarrow> None,
     j_as_str = \<lambda>v. case v of Demo_str s \<Rightarrow> Some s | _ \<Rightarrow> None,
     j_as_bool = \<lambda>v. case v of Demo_true \<Rightarrow> Some True | _ \<Rightarrow> None,
     j_as_u64 = \<lambda>_. None, j_array = \<lambda>_. None, j_is_object = \<lambda>_. True\<rparr>"

definition demo_tx_hash :: string where
  "demo_tx_hash = ''0x'' @ replicate 64 (CHR ''a'')"

definition demo_receipt :: demo_value where
  "demo_receipt = Demo_object
     [(''success'', Demo_true), (''payer'', Demo_str ''k''), (''transaction'', Demo_str demo_tx_hash),
      (''amount'', Demo_str ''5''), (''network'', Demo_str ''base''), (''payTo'', Demo_str ''shop'')]"

definition demo_x402_request :: "demo_value propose_payment_request" where
  "demo_x402_request = \<lparr>ppr_sender_public_id = ''a'', ppr_remote_node_id = ''n'',
     ppr_recipient_public_id = ''b'', ppr_recipient_did = ''did:b'', ppr_amount = ''5'',
     ppr_currency = ''USDC'', ppr_rail = ''x402'', ppr_layer = Web3, ppr_network = None,
     ppr_recipient_address = Some ''shop'', ppr_mission_id = None, ppr_task_id = None,
     ppr_description = None, ppr_metadata = None, ppr_expires_at = Some 100\<rparr>"

definition demo_x402_ops :: "demo_value pay_op list" where
  "demo_x402_ops = [Propose ''did:a'' demo_x402_request ''1'' 10, Authorize demo_authorize 20 20,
     Settle \<lparr>spr_payment_id = ''payment-1'', spr_settlement_receipt = demo_receipt\<rparr> 30]"

lemma demo_receipt_strings:
  "trim ''k'' = ''k''" "trim demo_tx_hash = demo_tx_hash" "trim ''5'' = ''5''" "trim ''base'' = ''base''"
  "trim ''shop'' = ''shop''"
  by (simp_all add: trim_printable printable_def demo_tx_hash_def list_all_iff)

lemma demo_receipt_valid:
  assumes "pt_rail p = ''x402''" "pt_sender_address p = Some ''k''" "pt_amount p = ''5''" "pt_network p = None"
    "pt_recipient_address p = Some ''shop''"
  shows "validate_x402_settlement_receipt demo_receipt_json p demo_receipt = Ok ()"
proof -
  have "is_evm_transaction_hash demo_tx_hash"
    by (simp add: is_evm_transaction_hash_def demo_tx_hash_def is_ascii_hexdigit_def list_all_iff)
  moreover have "demo_tx_hash \<noteq> []" by (simp add: demo_tx_hash_def)
  moreover have "amounts_match ''5'' ''5''" by (simp add: amounts_match_def split: option.split)
  ultimately show ?thesis using assms
    by (simp add: validate_x402_settlement_receipt_def required_receipt_string_def receipt_string_def
        receipt_bool_def demo_receipt_def demo_receipt_json_def demo_receipt_strings eq_ignore_ascii_case_def)
qed

lemma settled_payments_backed_witness:
  "list_all local_op demo_x402_ops
   \<and> (\<exists>p. get_payment (run (pay_step demo_receipt_json demo_pay_env) ledger_empty demo_x402_ops) ''payment-1'' = Some p
     \<and> pt_status p = Settled \<and> pt_authorization_signature p \<noteq> None
     \<and> (\<exists>r pay_to. pt_settlement_receipt p = Some r
         \<and> receipt_string demo_receipt_json r [''payTo'', ''pay_to'', ''recipient'', ''to''] = Some pay_to
         \<and> is_none_or (pt_recipient_address p) (\<lambda>recipient. eq_ignore_ascii_case pay_to recipient)))"
proof -
  have ops: "list_all local_op demo_x402_ops" by (simp add: demo_x402_ops_def)
  obtain p where p: "get_payment (run (pay_step demo_receipt_json demo_pay_env) ledger_empty demo_x402_ops) ''payment-1'' = Some p"
      "pt_status p = Settled" and rail: "pt_rail p = ''x402''" and r: "pt_settlement_receipt p = Some demo_receipt"
    by (auto simp: get_payment_def pay_step_def authorize_def settle_def modify_payment_get demo_receipt_valid
        ledger_empty_def propose_def demo_authorize_def demo_x402_request_def demo_x402_ops_def Let_def
        eq_ignore_ascii_case_def)
  have x402: "eq_ignore_ascii_case (pt_rail p) ''x402''" by (simp add: rail eq_ignore_ascii_case_def)
  have "receipt_string demo_receipt_json demo_receipt [''payTo'', ''pay_to'', ''recipient'', ''to''] = Some ''shop''"
    by (simp add: receipt_string_def demo_receipt_def demo_receipt_json_def demo_receipt_strings)
  with settled_payments_backed [OF ops p] x402 r p ops show ?thesis by auto
qed

subsection \<open>Merging\<close>

lemma keep_first_simps [simp]:
  "keep_first (Some x) y = Some x" "keep_first None y = y" "keep_first (keep_first u v) v = keep_first u v"
  by (simp_all add: keep_first_def split: option.splits)

lemma merge_status [simp]: "pt_status (fst (merge_transaction c t)) = max (pt_status c) (pt_status t)"
  by (auto simp: merge_transaction_def Let_def max_def less_eq_payment_status_def)

lemma merge_again: "merge_transaction (fst (merge_transaction c t)) t = (fst (merge_transaction c t), False)"
  by (simp add: merge_transaction_def Let_def)



lemma merge_remote_get:
  "bget (pl_payments (snd (merge_remote_transaction t l))) i =
     (if i = pt_payment_id t
      then Some (case bget (pl_payments l) i of None \<Rightarrow> t | Some c \<Rightarrow> fst (merge_transaction c t))
      else bget (pl_payments l) i)"
  by (simp add: merge_remote_transaction_def split: option.splits prod.splits)


lemma Max_insert_max:
  "finite S \<Longrightarrow> Max (insert (max a b) S) = Max (insert a (insert b S))" for a :: "'a::linorder"
  by (cases "S = {}") (simp_all add: max.assoc)

definition merge_all :: "'v payment_ledger \<Rightarrow> 'v payment_transaction list \<Rightarrow> 'v payment_ledger" where
  "merge_all l ts = foldl (\<lambda>l t. snd (merge_remote_transaction t l)) l ts"

lemma merge_all_status:
  assumes "get_payment l i = Some p"
  shows "\<exists>q. get_payment (merge_all l ts) i = Some q \<and>
     pt_status q = Max (insert (pt_status p) (pt_status ` {t \<in> set ts. pt_payment_id t = i}))"
  using assms
proof (induction ts arbitrary: l p)
  case (Cons t ts)
  let ?l = "snd (merge_remote_transaction t l)"
  define p' where "p' = (if i = pt_payment_id t then fst (merge_transaction p t) else p)"
  have "get_payment ?l i = Some p'"
    using Cons.prems by (auto simp: get_payment_def merge_remote_get p'_def)
  from Cons.IH [OF this] obtain q where q: "get_payment (merge_all ?l ts) i = Some q"
      "pt_status q = Max (insert (pt_status p') (pt_status ` {t \<in> set ts. pt_payment_id t = i}))"
    by blast
  let ?S = "pt_status ` {t \<in> set ts. pt_payment_id t = i}"
  have "Max (insert (pt_status p') ?S) =
      Max (insert (pt_status p) (pt_status ` {x \<in> set (t # ts). pt_payment_id x = i}))"
  proof (cases "i = pt_payment_id t")
    case True
    then have set: "pt_status ` {x \<in> set (t # ts). pt_payment_id x = i} = insert (pt_status t) ?S" by auto
    have "pt_status p' = max (pt_status p) (pt_status t)" using True by (simp add: p'_def)
    then show ?thesis
      unfolding set using Max_insert_max [of ?S "pt_status p" "pt_status t"] by (simp del: Max_insert)
  next
    case False
    then have "{x \<in> set (t # ts). pt_payment_id x = i} = {x \<in> set ts. pt_payment_id x = i}" by auto
    with False show ?thesis by (simp add: p'_def)
  qed
  with q show ?case by (simp add: merge_all_def)
qed (simp add: merge_all_def)

text \<open>
  C5: what remote agents report about a payment converges. Whatever the order and however often
  the reports are merged, the payment ends with the highest-ranked of its own status and the
  reported ones, and merging a report again changes nothing and says so.
\<close>

theorem merge_converges:
  assumes "get_payment l i = Some p"
  shows "\<exists>q. get_payment (merge_all l ts) i = Some q
     \<and> pt_status q = Max (insert (pt_status p) (pt_status ` {t \<in> set ts. pt_payment_id t = i}))
     \<and> (\<forall>t. pt_payment_id t = i \<longrightarrow>
          (let (_, l1) = merge_remote_transaction t (merge_all l ts)
           in \<exists>m. merge_remote_transaction t l1 = (Ok (m, False), l1)))"
proof -
  obtain q where q: "get_payment (merge_all l ts) i = Some q"
      "pt_status q = Max (insert (pt_status p) (pt_status ` {t \<in> set ts. pt_payment_id t = i}))"
    using merge_all_status [OF assms] by blast
  have "\<exists>m. merge_remote_transaction t l1 = (Ok (m, False), l1)"
    if "pt_payment_id t = i" and l1: "l1 = snd (merge_remote_transaction t (merge_all l ts))" for t l1
  proof -
    let ?m = "fst (merge_transaction q t)"
    have get: "bget (pl_payments l1) i = Some ?m"
      using q(1) that by (simp add: merge_remote_get get_payment_def)
    then have "binsert i ?m (pl_payments l1) = pl_payments l1"
      by (intro btree_map_eqI) simp
    with get that(1) show ?thesis
      by (simp add: merge_remote_transaction_def merge_again)
  qed
  with q show ?thesis by (auto simp: Let_def case_prod_beta)
qed

lemma merge_converges_witness:
  "\<exists>q. get_payment (merge_all demo_ledger
       (map (\<lambda>s. (the (get_payment demo_ledger ''payment-1''))\<lparr>pt_status := s\<rparr>) [Settled, Authorized])) ''payment-1'' = Some q
     \<and> pt_status q = Settled"
proof -
  obtain p where p: "get_payment demo_ledger ''payment-1'' = Some p" and s: "pt_status p = Proposed"
      and i: "pt_payment_id p = ''payment-1''"
    by (simp add: get_payment_def demo_ledger_def propose_def Let_def)
  have "{t \<in> set (map (\<lambda>s. p\<lparr>pt_status := s\<rparr>) [Settled, Authorized]). pt_payment_id t = ''payment-1''} =
      {p\<lparr>pt_status := Settled\<rparr>, p\<lparr>pt_status := Authorized\<rparr>}"
    using i by auto
  then have "pt_status ` {t \<in> set (map (\<lambda>s. p\<lparr>pt_status := s\<rparr>) [Settled, Authorized]).
      pt_payment_id t = ''payment-1''} = {Settled, Authorized}"
    by simp
  moreover have "Max {Proposed, Settled, Authorized} = Settled"
    by (simp add: max_def less_eq_payment_status_def)
  ultimately show ?thesis
    using merge_converges [OF p, of "map (\<lambda>s. p\<lparr>pt_status := s\<rparr>) [Settled, Authorized]"] p s by auto
qed







text \<open>A stranger that names itself the sender cancels a payment between two other agents.\<close>

lemma stranger_cancels:
  "let p = the (get_payment demo_ledger ''payment-1'');
       msg = agent_message (p\<lparr>pt_sender_did := ''did:m'', pt_status := Cancelled\<rparr>) MsgCancelled 15
   in ''did:m'' \<notin> {pt_sender_did p, pt_recipient_did p}
    \<and> map_option pt_status (get_payment (snd (merge_remote_agent_message demo_pay_env msg ''did:m'' demo_ledger)) ''payment-1'')
        = Some Cancelled"
  by (simp add: get_payment_def demo_ledger_def propose_def demo_pay_request_def Let_def agent_message_def
      merge_remote_agent_message_def validate_agent_payment_message_def merge_remote_get
      max_def less_eq_payment_status_def)

subsection \<open>Reports\<close>

lemma summary_counts_fold:
  "ps_total_proposed (foldl summary_step sm ps) = ps_total_proposed sm + length (filter (\<lambda>p. pt_status p = Proposed) ps)"
  "ps_total_authorized (foldl summary_step sm ps) = ps_total_authorized sm + length (filter (\<lambda>p. pt_status p = Authorized) ps)"
  "ps_total_settled (foldl summary_step sm ps) = ps_total_settled sm + length (filter (\<lambda>p. pt_status p = Settled) ps)"
  "ps_total_rejected (foldl summary_step sm ps) = ps_total_rejected sm + length (filter (\<lambda>p. pt_status p = Rejected) ps)"
  "ps_total_cancelled (foldl summary_step sm ps) = ps_total_cancelled sm + length (filter (\<lambda>p. pt_status p = Cancelled) ps)"
  "ps_total_expired (foldl summary_step sm ps) = ps_total_expired sm + length (filter (\<lambda>p. pt_status p = Expired) ps)"
  by (induction ps arbitrary: sm) (simp_all add: summary_step_def split: payment_status.splits)

definition settled_amount :: "'v payment_transaction \<Rightarrow> nat" where
  "settled_amount p = (case parse_uint u128_max (pt_amount p) of None \<Rightarrow> 0 | Some n \<Rightarrow> n)"

definition totals_rep :: "(string, string) btree_map \<Rightarrow> (string \<Rightarrow> nat option) \<Rightarrow> bool" where
  "totals_rep m f \<longleftrightarrow> (\<forall>c. bget m c = map_option (\<lambda>n. dec_str (n mod 2 ^ 128)) (f c))"

lemma totals_rep_add:
  assumes "totals_rep m f"
  shows "totals_rep (add_settled_amount p m)
     (f(pt_currency p \<mapsto> (case f (pt_currency p) of None \<Rightarrow> 0 | Some n \<Rightarrow> n) + settled_amount p))"
proof -
  let ?n = "case f (pt_currency p) of None \<Rightarrow> 0 | Some n \<Rightarrow> n"
  have entry: "bget_or ''0'' m (pt_currency p) = dec_str (?n mod 2 ^ 128)"
    using assms by (simp add: bget_or_def totals_rep_def dec_str_0 split: option.splits)
  have "?n mod 2 ^ 128 \<le> u128_max" by (simp add: u128_max_def)
  then have parse: "parse_uint u128_max (dec_str (?n mod 2 ^ 128)) = Some (?n mod 2 ^ 128)"
    by (rule parse_dec_str)
  show ?thesis using assms
    unfolding totals_rep_def add_settled_amount_def Let_def entry parse
    by (auto simp: settled_amount_def mod_add_left_eq split: option.splits)
qed

definition settled_in :: "string \<Rightarrow> 'v payment_transaction list \<Rightarrow> 'v payment_transaction list" where
  "settled_in c ps = filter (\<lambda>p. pt_status p = Settled \<and> pt_currency p = c) ps"

lemma settled_in_simps [simp]:
  "settled_in c [] = []"
  "settled_in c (p # ps) =
     (if pt_status p = Settled \<and> pt_currency p = c then p # settled_in c ps else settled_in c ps)"
  by (simp_all add: settled_in_def)

lemma totals_fold:
  "totals_rep (ps_total_amount_settled sm) f \<Longrightarrow>
   totals_rep (ps_total_amount_settled (foldl summary_step sm ps))
     (\<lambda>c. if settled_in c ps = [] then f c
          else Some ((case f c of None \<Rightarrow> 0 | Some n \<Rightarrow> n) + sum_list (map settled_amount (settled_in c ps))))"
proof (induction ps arbitrary: sm f)
  case (Cons p ps)
  show ?case
  proof (cases "pt_status p = Settled")
    case True
    define g where "g = f(pt_currency p \<mapsto> (case f (pt_currency p) of None \<Rightarrow> 0 | Some n \<Rightarrow> n) + settled_amount p)"
    have "totals_rep (ps_total_amount_settled (summary_step sm p)) g"
      using True totals_rep_add [OF Cons.prems] by (simp add: summary_step_def g_def)
    from Cons.IH [OF this] True show ?thesis
      unfolding totals_rep_def by (auto simp: g_def add.assoc)
  next
    case False
    then have "ps_total_amount_settled (summary_step sm p) = ps_total_amount_settled sm"
      by (cases "pt_status p") (simp_all add: summary_step_def)
    with Cons.prems have "totals_rep (ps_total_amount_settled (summary_step sm p)) f" by simp
    moreover have eq: "settled_in c (p # ps) = settled_in c ps" for c using False by simp
    ultimately show ?thesis using Cons.IH unfolding eq by simp
  qed
qed simp

text \<open>
  C15: the summary counts the payments of the ledger by status, and per currency it reports the
  sum of the settled amounts that are whole numbers, modulo \<open>2 ^ 128\<close>.
\<close>

theorem summary_correct:
  "let ps = all_payments l; sm = summary l
   in ps_total_proposed sm = length (filter (\<lambda>p. pt_status p = Proposed) ps)
    \<and> ps_total_authorized sm = length (filter (\<lambda>p. pt_status p = Authorized) ps)
    \<and> ps_total_settled sm = length (filter (\<lambda>p. pt_status p = Settled) ps)
    \<and> ps_total_rejected sm = length (filter (\<lambda>p. pt_status p = Rejected) ps)
    \<and> ps_total_cancelled sm = length (filter (\<lambda>p. pt_status p = Cancelled) ps)
    \<and> ps_total_expired sm = length (filter (\<lambda>p. pt_status p = Expired) ps)
    \<and> (\<forall>c. bget (ps_total_amount_settled sm) c =
         (if settled_in c ps = [] then None
          else Some (dec_str (sum_list (map settled_amount (settled_in c ps)) mod 2 ^ 128))))"
proof -
  have "totals_rep (ps_total_amount_settled summary_empty) (\<lambda>_. None)"
    by (simp add: totals_rep_def summary_empty_def)
  from totals_fold [OF this, of "bvalues (pl_payments l)"] show ?thesis
    by (simp add: Let_def summary_def all_payments_def totals_rep_def summary_counts_fold summary_empty_def)
qed

text \<open>Payments are filed under their ids.\<close>

definition filed_by_id :: "'v payment_ledger \<Rightarrow> bool" where
  "filed_by_id l \<longleftrightarrow> (\<forall>i p. bget (pl_payments l) i = Some p \<longrightarrow> pt_payment_id p = i)"

lemma modify_payment_filed:
  assumes "\<And>p. pt_payment_id (snd (f p)) = pt_payment_id p" and "filed_by_id l"
  shows "filed_by_id (snd (modify_payment k f l))"
  using assms by (auto simp: filed_by_id_def modify_payment_get split: if_splits)

lemma merge_remote_filed: "filed_by_id l \<Longrightarrow> filed_by_id (snd (merge_remote_transaction t l))"
  by (auto simp: filed_by_id_def merge_remote_get merge_transaction_def Let_def split: if_splits option.splits)

lemma filed_by_id_step: "filed_by_id l \<Longrightarrow> filed_by_id (pay_step J E l op)"
proof (cases op)
  case (Propose s r u n)
  assume "filed_by_id l"
  with Propose show ?thesis by (auto simp: filed_by_id_def pay_step_def propose_def Let_def)
next
  case (Merge_message msg source)
  assume "filed_by_id l"
  with Merge_message show ?thesis
    by (auto simp: pay_step_def merge_remote_agent_message_def merge_remote_filed split: sum.split)
qed (auto simp: pay_step_def authorize_def submit_def settle_def reject_def cancel_def Let_def merge_remote_filed
    split: sum.split intro!: modify_payment_filed)

interpretation pay_filing: invariant_machine "pay_step J E" "\<lambda>_. True" filed_by_id for J E
  by unfold_locales (rule filed_by_id_step)

text \<open>The order of a report: newest first, and by id within a second.\<close>

definition newer :: "'v payment_transaction \<Rightarrow> 'v payment_transaction \<Rightarrow> bool" where
  "newer p p' \<longleftrightarrow> pt_proposed_at p' < pt_proposed_at p
     \<or> pt_proposed_at p' = pt_proposed_at p \<and> pt_payment_id p < pt_payment_id p'"

lemma sort_key_stable:
  assumes "sorted_wrt R xs"
  shows "sorted_wrt (\<lambda>x y. f x < f y \<or> f x = f y \<and> R x y) (sort_key f xs)"
  using assms
proof (induction xs)
  case (Cons x xs)
  have ins: "sorted_wrt (\<lambda>x y. f x < f y \<or> f x = f y \<and> R x y) (insort_key f x ys)"
    if "sorted_wrt (\<lambda>x y. f x < f y \<or> f x = f y \<and> R x y) ys" "\<forall>y \<in> set ys. R x y" for ys
    using that by (induction ys) (auto simp: set_insort_key)
  from Cons show ?case by (auto intro!: ins)
qed simp

lemma bvalues_by_id: "filed_by_id l \<Longrightarrow> sorted_wrt (\<lambda>p p'. pt_payment_id p < pt_payment_id p') (bvalues (pl_payments l))"
proof -
  assume filed: "filed_by_id l"
  have "map pt_payment_id (bvalues (pl_payments l)) = map fst (entries (pl_payments l))"
    using filed by (auto simp: bvalues_def filed_by_id_def in_entries_iff)
  with sorted_entries [of "pl_payments l"] show ?thesis by (metis sorted_wrt_map)
qed

lemma sorted_wrt_take_rest:
  "sorted_wrt R xs \<Longrightarrow> x \<in> set (take n xs) \<Longrightarrow> y \<in> set xs \<Longrightarrow> y \<notin> set (take n xs) \<Longrightarrow> R x y"
proof -
  assume "sorted_wrt R xs" "x \<in> set (take n xs)" "y \<in> set xs" "y \<notin> set (take n xs)"
  moreover have "xs = take n xs @ drop n xs" by simp
  ultimately show "R x y" by (metis Un_iff set_append sorted_wrt_append)
qed

lemma newer_irrefl: "\<not> newer p p"
  by (simp add: newer_def)

lemma sorted_newer_distinct: "sorted_wrt newer ps \<Longrightarrow> distinct ps"
  by (induction ps) (auto simp: newer_irrefl)

text \<open>
  C16: what a query returns, on every ledger the operations reach. It returns payments of the
  ledger that agree with every criterion that is given: status, the two agents, their public ids,
  the remote node, mission, task and rail, and not before a given time. They come newest first,
  by id within a second, each once. Without a limit it returns all of them; with a limit as many
  as that allows, and every one it leaves out comes after all it returns.
\<close>

theorem query_correct:
  fixes J :: "'v json_api" and E :: pay_env and ops :: "'v pay_op list" and q :: payment_query
  defines "l \<equiv> run (pay_step J E) ledger_empty ops"
  defines "wanted \<equiv> {p. (\<exists>i. get_payment l i = Some p)
      \<and> (\<forall>x. pq_status q = Some x \<longrightarrow> pt_status p = x)
      \<and> (\<forall>x. pq_sender_did q = Some x \<longrightarrow> pt_sender_did p = x)
      \<and> (\<forall>x. pq_recipient_did q = Some x \<longrightarrow> pt_recipient_did p = x)
      \<and> (\<forall>x. pq_sender_public_id q = Some x \<longrightarrow> pt_sender_public_id p = x)
      \<and> (\<forall>x. pq_recipient_public_id q = Some x \<longrightarrow> pt_recipient_public_id p = x)
      \<and> (\<forall>x. pq_remote_node_id q = Some x \<longrightarrow> pt_remote_node_id p = x)
      \<and> (\<forall>x. pq_mission_id q = Some x \<longrightarrow> pt_mission_id p = Some x)
      \<and> (\<forall>x. pq_task_id q = Some x \<longrightarrow> pt_task_id p = Some x)
      \<and> (\<forall>x. pq_rail q = Some x \<longrightarrow> pt_rail p = x)
      \<and> (\<forall>t. pq_since q = Some t \<longrightarrow> t \<le> pt_proposed_at p)}"
  shows "set (query l q) \<subseteq> wanted \<and> sorted_wrt newer (query l q) \<and> distinct (query l q)
    \<and> length (query l q) = (case pq_limit q of None \<Rightarrow> card wanted | Some n \<Rightarrow> min n (card wanted))
    \<and> (\<forall>p \<in> set (query l q). \<forall>p' \<in> wanted - set (query l q). newer p p')"
proof -
  let ?full = "sort_key (\<lambda>p. - pt_proposed_at p) (filter (query_matches q) (bvalues (pl_payments l)))"
  have set: "set ?full = wanted"
    by (auto simp: wanted_def query_matches_def is_none_or_iff set_bvalues get_payment_def)
  have "filed_by_id l"
    unfolding l_def by (rule pay_filing.run_inv) (simp_all add: list_all_iff filed_by_id_def ledger_empty_def)
  then have "sorted_wrt (\<lambda>p p'. pt_payment_id p < pt_payment_id p') (filter (query_matches q) (bvalues (pl_payments l)))"
    by (intro sorted_wrt_filter bvalues_by_id)
  from sort_key_stable [OF this, of "\<lambda>p. - pt_proposed_at p"] have sorted: "sorted_wrt newer ?full"
    by (rule sorted_wrt_mono_rel [rotated]) (auto simp: newer_def)
  have len: "length ?full = card wanted"
    using distinct_card [OF sorted_newer_distinct [OF sorted]] by (simp only: set)
  define n where "n = (case pq_limit q of None \<Rightarrow> length ?full | Some n \<Rightarrow> n)"
  have query: "query l q = take n ?full" by (simp add: query_def Let_def n_def split: option.split)
  have "sorted_wrt newer (query l q)" unfolding query by (rule sorted_wrt_take [OF sorted])
  moreover have "length (query l q) = (case pq_limit q of None \<Rightarrow> card wanted | Some n \<Rightarrow> min n (card wanted))"
    unfolding query length_take n_def using len by (simp add: min.commute split: option.split)
  moreover have "newer p p'" if "p \<in> set (query l q)" "p' \<in> wanted - set (query l q)" for p p'
    using sorted_wrt_take_rest [OF sorted, of p n p'] that unfolding query set by blast
  moreover have "set (query l q) \<subseteq> wanted" unfolding query set [symmetric] by (rule set_take_subset)
  ultimately show ?thesis using sorted_newer_distinct by blast
qed

definition demo_query :: payment_query where
  "demo_query = \<lparr>pq_status = None, pq_sender_did = None, pq_recipient_did = None, pq_sender_public_id = None,
     pq_recipient_public_id = None, pq_remote_node_id = None, pq_mission_id = None, pq_task_id = None,
     pq_rail = Some ''web2'', pq_since = None, pq_limit = Some 1\<rparr>"

lemma query_correct_witness:
  "let l = run (pay_step demo_json demo_pay_env) ledger_empty
       [Propose ''did:a'' demo_pay_request ''1'' 10, Propose ''did:a'' demo_pay_request ''2'' 20]
   in length (query l demo_query) \<le> 1 \<and> (\<forall>p \<in> set (query l demo_query). pt_rail p = ''web2'')
    \<and> (\<exists>p. get_payment l ''payment-2'' = Some p \<and> pt_rail p = ''web2'')"
proof -
  let ?ops = "[Propose ''did:a'' demo_pay_request ''1'' 10, Propose ''did:a'' demo_pay_request ''2'' 20]"
  let ?l = "run (pay_step demo_json demo_pay_env) ledger_empty ?ops"
  from query_correct [of demo_json demo_pay_env ?ops demo_query]
  have "set (query ?l demo_query) \<subseteq> {p. pt_rail p = ''web2''}" "length (query ?l demo_query) \<le> 1"
    by (auto simp: demo_query_def)
  moreover have "\<exists>p. get_payment ?l ''payment-2'' = Some p \<and> pt_rail p = ''web2''"
    by (simp add: get_payment_def pay_step_def propose_def Let_def demo_pay_request_def)
  ultimately show ?thesis unfolding Let_def by blast
qed

end
