(* ===== verification/Registry.thy ===== *)
theory Registry
  imports Rust_Str Machines
begin

text \<open>
  The access pattern of the registries: \<^verbatim>\<open>self.map.get_mut(key).context(..)?\<close>, guards that
  return early, field updates in place, \<^verbatim>\<open>Ok(entry.clone())\<close>. The function given to
  \<open>bmodify\<close> returns the result together with the entry it leaves in place.
\<close>

definition bmodify ::
  "'e \<Rightarrow> 'k::linorder \<Rightarrow> ('v \<Rightarrow> ('e + 'r) \<times> 'v) \<Rightarrow> ('k, 'v) btree_map \<Rightarrow> ('e + 'r) \<times> ('k, 'v) btree_map" where
  "bmodify missing k f m =
     (case bget m k of
        None \<Rightarrow> (Err missing, m)
      | Some v \<Rightarrow> (let (r, v') = f v in (r, binsert k v' m)))"

text \<open>An entry that is returned as it is left.\<close>

abbreviation leaves :: "'v \<Rightarrow> ('e + 'v) \<times> 'v" where
  "leaves v \<equiv> (Ok v, v)"

lemma bmodify_get:
  "bget (snd (bmodify e k f m)) j =
     (if j = k then map_option (\<lambda>v. snd (f v)) (bget m k) else bget m j)"
  by (simp add: bmodify_def split: option.splits prod.splits)

lemma bmodify_result:
  "fst (bmodify e k f m) = (case bget m k of None \<Rightarrow> Err e | Some v \<Rightarrow> fst (f v))"
  by (simp add: bmodify_def split: option.splits prod.splits)

text \<open>What holds of every entry and is kept by the function holds of every entry afterwards.\<close>

lemma bmodify_all:
  assumes "\<And>j v. bget m j = Some v \<Longrightarrow> P j v"
    and "\<And>v. bget m k = Some v \<Longrightarrow> P k v \<Longrightarrow> P k (snd (f v))"
    and "bget (snd (bmodify e k f m)) j = Some v"
  shows "P j v"
  using assms by (auto simp: bmodify_get split: if_splits)

text \<open>A relation between what an entry was and what it becomes, kept when it is not touched.\<close>

definition entry_advances :: "('v \<Rightarrow> 'v \<Rightarrow> bool) \<Rightarrow> 'k::linorder \<Rightarrow> ('k, 'v) btree_map \<Rightarrow> ('k, 'v) btree_map \<Rightarrow> bool" where
  "entry_advances R i m m' \<longleftrightarrow> (\<forall>v. bget m i = Some v \<longrightarrow> (\<exists>v'. bget m' i = Some v' \<and> R v v'))"

lemma entry_advances_refl: "(\<And>v. R v v) \<Longrightarrow> entry_advances R i m m"
  by (simp add: entry_advances_def)

lemma entry_advances_trans:
  "(\<And>a b c. R a b \<Longrightarrow> R b c \<Longrightarrow> R a c) \<Longrightarrow> entry_advances R i m1 m2 \<Longrightarrow> entry_advances R i m2 m3 \<Longrightarrow>
     entry_advances R i m1 m3"
  unfolding entry_advances_def by blast

lemma bmodify_advances:
  "(\<And>v. R v v) \<Longrightarrow> (\<And>v. R v (snd (f v))) \<Longrightarrow> entry_advances R i m (snd (bmodify e k f m))"
  by (simp add: entry_advances_def bmodify_get)

lemma binsert_advances:
  "(\<And>v. R v v) \<Longrightarrow> i \<noteq> k \<Longrightarrow> entry_advances R i m (binsert k w m)"
  by (simp add: entry_advances_def)

end
