(* ===== verification/Profiles.thy ===== *)
theory Profiles
  imports Registry
begin

text \<open>
  \<^verbatim>\<open>civilization/profiles.rs\<close>: citizen profiles by agent, and the directive each strategy
  stands for.
\<close>

datatype faction = Order | Freeport | Raider

datatype role_path = Operator | Broker | Enforcer | Artificer

datatype strategy_profile = Conservative | Balanced | Aggressive

record citizen_profile =
  cz_agent_did :: string
  cz_faction :: faction
  cz_role :: role_path
  cz_strategy :: strategy_profile
  cz_home_subnet_id :: "string option"
  cz_home_zone_id :: "string option"
  cz_updated_at :: int

record strategy_directive_t =
  sd_max_auto_actions :: nat
  sd_allow_high_risk :: bool
  sd_emergency_recall_threshold :: nat

record citizen_registry =
  cr_profiles :: "(string, citizen_profile) btree_map"

definition set_profile ::
  "string \<Rightarrow> faction \<Rightarrow> role_path \<Rightarrow> strategy_profile \<Rightarrow> string option \<Rightarrow> string option \<Rightarrow> int \<Rightarrow>
   citizen_registry \<Rightarrow> citizen_profile \<times> citizen_registry" where
  "set_profile agent_did faction role strategy home_subnet_id home_zone_id now s =
     (let profile = \<lparr>cz_agent_did = agent_did, cz_faction = faction, cz_role = role,
            cz_strategy = strategy, cz_home_subnet_id = home_subnet_id,
            cz_home_zone_id = home_zone_id, cz_updated_at = now\<rparr>
      in (profile, s\<lparr>cr_profiles := binsert agent_did profile (cr_profiles s)\<rparr>))"

definition profile :: "citizen_registry \<Rightarrow> string \<Rightarrow> citizen_profile option" where
  "profile s agent_did = bget (cr_profiles s) agent_did"

definition list_profiles :: "citizen_registry \<Rightarrow> citizen_profile list" where
  "list_profiles s = bvalues (cr_profiles s)"

definition strategy_directive :: "strategy_profile \<Rightarrow> strategy_directive_t" where
  "strategy_directive strategy =
     (case strategy of
        Conservative \<Rightarrow>
          \<lparr>sd_max_auto_actions = 1, sd_allow_high_risk = False, sd_emergency_recall_threshold = 3\<rparr>
      | Balanced \<Rightarrow>
          \<lparr>sd_max_auto_actions = 2, sd_allow_high_risk = False, sd_emergency_recall_threshold = 4\<rparr>
      | Aggressive \<Rightarrow>
          \<lparr>sd_max_auto_actions = 3, sd_allow_high_risk = True, sd_emergency_recall_threshold = 5\<rparr>)"

lemma set_profile_lookup:
  "profile (snd (set_profile a f r st sub z now s)) b =
     (if b = a then Some (fst (set_profile a f r st sub z now s)) else profile s b)"
  by (simp add: set_profile_def profile_def Let_def)

end
