(* ===== verification/Missions.thy ===== *)
theory Missions
  imports Profiles
begin

text \<open>
  \<^verbatim>\<open>civilization/missions.rs\<close>: the mission board with its bounty escrows, local and relayed
  life-cycle updates, and the registry of claims on network missions. UUIDs and clock readings are
  arguments, one per reading.
\<close>

datatype mission_domain = Wealth | Power | Security | Trade | Culture

datatype mission_scope = RealWorld | InWorld

datatype mission_publisher_kind = Player | Organization | PlanetaryGovernment | NeutralHub | System

datatype mission_status = MOpen | MClaimed | MCompleted | MSettled | MCancelled

record mission_reward =
  mr_agent_watt :: int
  mr_reputation :: int
  mr_capacity :: int

record public_geo_payload =
  geo_lat :: f64
  geo_lng :: f64
  geo_coordinate_source :: string

record 'v civil_mission =
  cm_mission_id :: string
  cm_title :: string
  cm_description :: string
  cm_publisher :: string
  cm_publisher_kind :: mission_publisher_kind
  cm_domain :: mission_domain
  cm_scope :: mission_scope
  cm_subnet_id :: "string option"
  cm_zone_id :: "string option"
  cm_required_role :: "role_path option"
  cm_required_faction :: "faction option"
  cm_reward :: "mission_reward option"
  cm_payload :: 'v
  cm_lat :: "f64 option"
  cm_lng :: "f64 option"
  cm_coordinate_source :: "string option"
  cm_created_at :: int
  cm_updated_at :: int
  cm_claimed_by :: "string option"
  cm_claimed_by_display_name :: "string option"
  cm_completed_by :: "string option"
  cm_completion_result :: "'v option"
  cm_settled_at :: "int option"
  cm_status :: mission_status
  cm_escrow_id :: "string option"
  cm_escrow_confirmed :: bool
  cm_expires_at :: "int option"

definition is_expired :: "'v civil_mission \<Rightarrow> int \<Rightarrow> bool" where
  "is_expired m now = is_some_and (cm_expires_at m) (\<lambda>expires_at. expires_at \<le> now)"

definition has_unconfirmed_escrow :: "'v civil_mission \<Rightarrow> bool" where
  "has_unconfirmed_escrow m \<longleftrightarrow> cm_escrow_id m \<noteq> None \<and> \<not> cm_escrow_confirmed m"

record 'v mission_board =
  mb_missions :: "(string, 'v civil_mission) btree_map"

datatype mission_error =
    Mission_not_found
  | Mission_not_open
  | Mission_expired
  | Escrow_not_confirmed
  | Mission_not_claimed
  | Claimed_by_different_agent
  | Not_cancellable_anymore
  | Escrow_confirmed_or_absent
  | Already_settled
  | Mission_not_completed
  | Claimed_by_other
  | Completed_by_other

subsection \<open>Publishing\<close>

definition publish_with_scope_and_geo ::
  "string \<Rightarrow> string \<Rightarrow> string \<Rightarrow> mission_publisher_kind \<Rightarrow> mission_domain \<Rightarrow> mission_scope \<Rightarrow>
   string option \<Rightarrow> string option \<Rightarrow> role_path option \<Rightarrow> faction option \<Rightarrow> mission_reward option \<Rightarrow> 'v \<Rightarrow>
   public_geo_payload option \<Rightarrow> string \<Rightarrow> int \<Rightarrow> 'v mission_board \<Rightarrow> 'v civil_mission \<times> 'v mission_board" where
  "publish_with_scope_and_geo title description publisher publisher_kind domain scope subnet_id zone_id
     required_role required_faction reward payload public_geo uuid now b =
     (let mission = \<lparr>cm_mission_id = uuid, cm_title = title, cm_description = description,
            cm_publisher = publisher, cm_publisher_kind = publisher_kind, cm_domain = domain,
            cm_scope = scope, cm_subnet_id = subnet_id, cm_zone_id = zone_id,
            cm_required_role = required_role, cm_required_faction = required_faction,
            cm_reward = reward, cm_payload = payload,
            cm_lat = map_option geo_lat public_geo, cm_lng = map_option geo_lng public_geo,
            cm_coordinate_source = map_option geo_coordinate_source public_geo,
            cm_created_at = now, cm_updated_at = now, cm_claimed_by = None,
            cm_claimed_by_display_name = None, cm_completed_by = None,
            cm_completion_result = None, cm_settled_at = None, cm_status = MOpen,
            cm_escrow_id = None, cm_escrow_confirmed = False, cm_expires_at = None\<rparr>
      in (mission, b\<lparr>mb_missions := binsert uuid mission (mb_missions b)\<rparr>))"

definition publish_with_scope ::
  "string \<Rightarrow> string \<Rightarrow> string \<Rightarrow> mission_publisher_kind \<Rightarrow> mission_domain \<Rightarrow> mission_scope \<Rightarrow>
   string option \<Rightarrow> string option \<Rightarrow> role_path option \<Rightarrow> faction option \<Rightarrow> mission_reward \<Rightarrow> 'v \<Rightarrow>
   string \<Rightarrow> int \<Rightarrow> 'v mission_board \<Rightarrow> 'v civil_mission \<times> 'v mission_board" where
  "publish_with_scope title description publisher publisher_kind domain scope subnet_id zone_id
     required_role required_faction reward payload =
     publish_with_scope_and_geo title description publisher publisher_kind domain scope subnet_id zone_id
       required_role required_faction (Some reward) payload None"

definition publish ::
  "string \<Rightarrow> string \<Rightarrow> string \<Rightarrow> mission_publisher_kind \<Rightarrow> mission_domain \<Rightarrow>
   string option \<Rightarrow> string option \<Rightarrow> role_path option \<Rightarrow> faction option \<Rightarrow> mission_reward \<Rightarrow> 'v \<Rightarrow>
   string \<Rightarrow> int \<Rightarrow> 'v mission_board \<Rightarrow> 'v civil_mission \<times> 'v mission_board" where
  "publish title description publisher publisher_kind domain =
     publish_with_scope title description publisher publisher_kind domain RealWorld"

subsection \<open>Local life cycle\<close>

type_synonym 'v mission_result = "(mission_error + 'v civil_mission) \<times> 'v mission_board"

definition modify_mission ::
  "string \<Rightarrow> ('v civil_mission \<Rightarrow> (mission_error + 'r) \<times> 'v civil_mission) \<Rightarrow> 'v mission_board \<Rightarrow>
   (mission_error + 'r) \<times> 'v mission_board" where
  "modify_mission mission_id f b =
     (let (r, ms) = bmodify Mission_not_found mission_id f (mb_missions b) in (r, b\<lparr>mb_missions := ms\<rparr>))"

definition set_expiry :: "string \<Rightarrow> int option \<Rightarrow> int \<Rightarrow> 'v mission_board \<Rightarrow> 'v mission_result" where
  "set_expiry mission_id expires_at now =
     modify_mission mission_id (\<lambda>m. leaves (m\<lparr>cm_expires_at := expires_at, cm_updated_at := now\<rparr>))"

definition expired_missions :: "'v mission_board \<Rightarrow> int \<Rightarrow> 'v civil_mission list" where
  "expired_missions b now =
     filter (\<lambda>m. (cm_status m = MOpen \<or> cm_status m = MClaimed) \<and> is_expired m now)
       (bvalues (mb_missions b))"

definition unconfirmed_escrows :: "'v mission_board \<Rightarrow> 'v civil_mission list" where
  "unconfirmed_escrows b =
     filter (\<lambda>m. cm_status m \<noteq> MCancelled \<and> has_unconfirmed_escrow m) (bvalues (mb_missions b))"

definition clear_bounty_escrow :: "string \<Rightarrow> int \<Rightarrow> 'v mission_board \<Rightarrow> 'v mission_result" where
  "clear_bounty_escrow mission_id now =
     modify_mission mission_id (\<lambda>m. leaves (m\<lparr>cm_escrow_id := None, cm_escrow_confirmed := False,
       cm_updated_at := now\<rparr>))"

definition record_bounty_escrow_intent ::
  "string \<Rightarrow> string \<Rightarrow> int \<Rightarrow> 'v mission_board \<Rightarrow> 'v mission_result" where
  "record_bounty_escrow_intent mission_id escrow_id now =
     modify_mission mission_id (\<lambda>m. leaves (m\<lparr>cm_escrow_id := Some escrow_id, cm_escrow_confirmed := False,
       cm_updated_at := now\<rparr>))"

definition mark_bounty_escrowed ::
  "string \<Rightarrow> string \<Rightarrow> int \<Rightarrow> 'v mission_board \<Rightarrow> 'v mission_result" where
  "mark_bounty_escrowed mission_id escrow_id now =
     modify_mission mission_id (\<lambda>m. leaves (m\<lparr>cm_escrow_id := Some escrow_id, cm_escrow_confirmed := True,
       cm_updated_at := now\<rparr>))"

definition non_blank :: "string option \<Rightarrow> string option" where
  "non_blank s = (case s of None \<Rightarrow> None | Some x \<Rightarrow> if trim x = [] then None else Some (trim x))"

definition claim_as ::
  "string \<Rightarrow> string \<Rightarrow> string option \<Rightarrow> int \<Rightarrow> int \<Rightarrow> 'v mission_board \<Rightarrow> 'v mission_result" where
  "claim_as mission_id agent_did display_name t1 t2 =
     modify_mission mission_id (\<lambda>m.
       if cm_status m \<noteq> MOpen then (Err Mission_not_open, m)
       else if is_expired m t1 then (Err Mission_expired, m)
       else if has_unconfirmed_escrow m then (Err Escrow_not_confirmed, m)
       else leaves (m\<lparr>cm_claimed_by := Some agent_did,
                      cm_claimed_by_display_name := non_blank display_name,
                      cm_status := MClaimed, cm_updated_at := t2\<rparr>))"

definition claim :: "string \<Rightarrow> string \<Rightarrow> int \<Rightarrow> int \<Rightarrow> 'v mission_board \<Rightarrow> 'v mission_result" where
  "claim mission_id agent_did = claim_as mission_id agent_did None"

definition complete_mission ::
  "string \<Rightarrow> string \<Rightarrow> 'v option \<Rightarrow> int \<Rightarrow> int \<Rightarrow> 'v mission_board \<Rightarrow> 'v mission_result" where
  "complete_mission mission_id agent_did result t1 t2 =
     modify_mission mission_id (\<lambda>m.
       if cm_status m \<noteq> MClaimed then (Err Mission_not_claimed, m)
       else if cm_claimed_by m \<noteq> Some agent_did then (Err Claimed_by_different_agent, m)
       else if is_expired m t1 then (Err Mission_expired, m)
       else if has_unconfirmed_escrow m then (Err Escrow_not_confirmed, m)
       else leaves (m\<lparr>cm_completed_by := Some agent_did, cm_completion_result := result,
                      cm_status := MCompleted, cm_updated_at := t2\<rparr>))"

definition cancel_mission :: "string \<Rightarrow> int \<Rightarrow> 'v mission_board \<Rightarrow> 'v mission_result" where
  "cancel_mission mission_id now =
     modify_mission mission_id (\<lambda>m.
       if cm_status m = MCompleted \<or> cm_status m = MSettled then (Err Not_cancellable_anymore, m)
       else leaves (m\<lparr>cm_status := MCancelled, cm_updated_at := now\<rparr>))"

definition cancel_unfunded :: "string \<Rightarrow> int \<Rightarrow> 'v mission_board \<Rightarrow> 'v mission_result" where
  "cancel_unfunded mission_id now =
     modify_mission mission_id (\<lambda>m.
       if \<not> has_unconfirmed_escrow m then (Err Escrow_confirmed_or_absent, m)
       else if cm_status m = MSettled then (Err Already_settled, m)
       else leaves (m\<lparr>cm_status := MCancelled, cm_updated_at := now\<rparr>))"

definition settle_mission :: "string \<Rightarrow> int \<Rightarrow> 'v mission_board \<Rightarrow> 'v mission_result" where
  "settle_mission mission_id now =
     modify_mission mission_id (\<lambda>m.
       if cm_status m \<noteq> MCompleted then (Err Mission_not_completed, m)
       else leaves (m\<lparr>cm_status := MSettled, cm_settled_at := Some now, cm_updated_at := now\<rparr>))"

subsection \<open>Updates relayed from the network\<close>

definition cancel_if_expired :: "'v civil_mission \<Rightarrow> int \<Rightarrow> 'v civil_mission option" where
  "cancel_if_expired m now =
     (if (cm_status m = MOpen \<or> cm_status m = MClaimed) \<and> is_expired m now
      then Some (m\<lparr>cm_status := MCancelled, cm_updated_at := now\<rparr>) else None)"

definition ensure_same_claimer :: "'v civil_mission \<Rightarrow> string \<Rightarrow> mission_error + unit" where
  "ensure_same_claimer m agent_did =
     (if is_some_and (cm_claimed_by m) (\<lambda>claimer. agent_did \<noteq> [] \<and> claimer \<noteq> agent_did)
      then Err Claimed_by_other else Ok ())"

definition ensure_same_executor :: "'v civil_mission \<Rightarrow> string \<Rightarrow> mission_error + unit" where
  "ensure_same_executor m agent_did =
     (if is_some_and (cm_completed_by m) (\<lambda>executor. agent_did \<noteq> [] \<and> executor \<noteq> agent_did)
      then Err Completed_by_other else Ok ())"

text \<open>
  \<open>t1\<close> is the reading of the expiry check, \<open>t2\<close> that of the update. An unknown mission is
  not an error here: the result is \<^verbatim>\<open>Ok(None)\<close>.
\<close>

definition modify_remote ::
  "string \<Rightarrow> ('v civil_mission \<Rightarrow> (mission_error + 'v civil_mission option) \<times> 'v civil_mission) \<Rightarrow>
   'v mission_board \<Rightarrow> (mission_error + 'v civil_mission option) \<times> 'v mission_board" where
  "modify_remote mission_id f b =
     (case bget (mb_missions b) mission_id of
        None \<Rightarrow> (Ok None, b)
      | Some _ \<Rightarrow> modify_mission mission_id f b)"

definition apply_remote_claim_approved ::
  "string \<Rightarrow> string \<Rightarrow> int \<Rightarrow> int \<Rightarrow> 'v mission_board \<Rightarrow>
   (mission_error + 'v civil_mission option) \<times> 'v mission_board" where
  "apply_remote_claim_approved mission_id agent_did0 t1 t2 =
     modify_remote mission_id (\<lambda>m.
       case cancel_if_expired m t1 of
         Some cancelled \<Rightarrow> (Ok (Some cancelled), cancelled)
       | None \<Rightarrow>
         let agent_did = trim agent_did0
         in case cm_status m of
              MOpen \<Rightarrow>
                let m' = (if agent_did \<noteq> [] then m\<lparr>cm_claimed_by := Some agent_did\<rparr> else m)
                           \<lparr>cm_status := MClaimed, cm_updated_at := t2\<rparr>
                in (Ok (Some m'), m')
            | MClaimed \<Rightarrow>
                (case ensure_same_claimer m agent_did of Inl e \<Rightarrow> (Err e, m) | Inr _ \<Rightarrow> (Ok (Some m), m))
            | _ \<Rightarrow> (Ok (Some m), m))"

definition apply_remote_completed ::
  "string \<Rightarrow> string \<Rightarrow> 'v option \<Rightarrow> int \<Rightarrow> int \<Rightarrow> 'v mission_board \<Rightarrow>
   (mission_error + 'v civil_mission option) \<times> 'v mission_board" where
  "apply_remote_completed mission_id agent_did0 result t1 t2 =
     modify_remote mission_id (\<lambda>m.
       case cancel_if_expired m t1 of
         Some cancelled \<Rightarrow> (Ok (Some cancelled), cancelled)
       | None \<Rightarrow>
         let agent_did = trim agent_did0
         in if cm_status m = MCancelled then (Ok (Some m), m)
            else if cm_status m = MCompleted \<or> cm_status m = MSettled then
              (case ensure_same_executor m agent_did of Inl e \<Rightarrow> (Err e, m) | Inr _ \<Rightarrow> (Ok (Some m), m))
            else
              (case ensure_same_claimer m agent_did of
                 Inl e \<Rightarrow> (Err e, m)
               | Inr _ \<Rightarrow>
                 let m1 = (if agent_did \<noteq> []
                           then m\<lparr>cm_claimed_by := (case cm_claimed_by m of None \<Rightarrow> Some agent_did | Some c \<Rightarrow> Some c),
                                  cm_completed_by := Some agent_did\<rparr>
                           else m);
                     m2 = (if result \<noteq> None \<or> cm_completion_result m1 = None
                           then m1\<lparr>cm_completion_result := result\<rparr> else m1);
                     m3 = m2\<lparr>cm_status := MCompleted, cm_updated_at := t2\<rparr>
                 in (Ok (Some m3), m3)))"

definition list_missions :: "'v mission_board \<Rightarrow> mission_status option \<Rightarrow> 'v civil_mission list" where
  "list_missions b status =
     filter (\<lambda>m. is_none_or status (\<lambda>expected. cm_status m = expected)) (bvalues (mb_missions b))"

definition get_mission :: "'v mission_board \<Rightarrow> string \<Rightarrow> 'v civil_mission option" where
  "get_mission b mission_id = bget (mb_missions b) mission_id"

subsection \<open>Claims on network missions\<close>

record 'v network_mission_claim_metadata =
  nm_title :: "string option"
  nm_publisher_id :: "string option"
  nm_publisher_agent_did :: "string option"
  nm_publisher_display_name :: "string option"
  nm_publisher_wattswarm_node_id :: "string option"
  nm_domain :: "string option"
  nm_scope :: "string option"
  nm_task_status :: "string option"
  nm_mission_feed_key :: "string option"
  nm_mission_scope_hint :: "string option"
  nm_reward :: "'v option"
  nm_reward_watt :: "int option"
  nm_executor_bounty_watt :: "int option"
  nm_publisher_network_reward_watt :: "int option"

record 'v network_mission_claim_record =
  nc_mission_id :: string
  nc_task_id :: string
  nc_agent_did :: string
  nc_execution_id :: string
  nc_claimed_at :: int
  nc_status :: "string option"
  nc_metadata :: "'v network_mission_claim_metadata"

record 'v network_mission_claim_registry =
  nr_claims :: "(string, 'v network_mission_claim_record) btree_map"

definition network_claim_key :: "string \<Rightarrow> string \<Rightarrow> string \<Rightarrow> string" where
  "network_claim_key mission_id task_id agent_did =
     trim mission_id @ '':'' @ trim task_id @ '':'' @ trim agent_did"

definition claim_records :: "'v network_mission_claim_registry \<Rightarrow> 'v network_mission_claim_record list" where
  "claim_records r = bvalues (nr_claims r)"

definition claim_contains :: "'v network_mission_claim_registry \<Rightarrow> string \<Rightarrow> string \<Rightarrow> string \<Rightarrow> bool" where
  "claim_contains r mission_id task_id agent_did =
     bcontains (nr_claims r) (network_claim_key mission_id task_id agent_did)"

definition claim_get ::
  "'v network_mission_claim_registry \<Rightarrow> string \<Rightarrow> string \<Rightarrow> string \<Rightarrow> 'v network_mission_claim_record option" where
  "claim_get r mission_id task_id agent_did =
     bget (nr_claims r) (network_claim_key mission_id task_id agent_did)"

definition claim_record ::
  "string \<Rightarrow> string \<Rightarrow> string \<Rightarrow> string \<Rightarrow> string option \<Rightarrow> 'v network_mission_claim_metadata \<Rightarrow> int \<Rightarrow>
   'v network_mission_claim_registry \<Rightarrow> 'v network_mission_claim_record \<times> 'v network_mission_claim_registry" where
  "claim_record mission_id task_id agent_did execution_id status metadata now r =
     (let rec = \<lparr>nc_mission_id = mission_id, nc_task_id = task_id, nc_agent_did = agent_did,
            nc_execution_id = execution_id, nc_claimed_at = now, nc_status = status,
            nc_metadata = metadata\<rparr>
      in (rec, r\<lparr>nr_claims := binsert (network_claim_key mission_id task_id agent_did) rec (nr_claims r)\<rparr>))"

definition contains_mission :: "'v network_mission_claim_registry \<Rightarrow> string \<Rightarrow> bool" where
  "contains_mission r mission_id =
     list_ex (\<lambda>rec. nc_mission_id rec = trim mission_id) (bvalues (nr_claims r))"

definition set_claim_status :: "string \<Rightarrow> 'v network_mission_claim_record \<Rightarrow> 'v network_mission_claim_record" where
  "set_claim_status status rec = rec\<lparr>nc_status := Some status,
     nc_metadata := (nc_metadata rec)\<lparr>nm_task_status := Some status\<rparr>\<rparr>"

definition update_status_at ::
  "string \<Rightarrow> string \<Rightarrow> 'v network_mission_claim_registry \<Rightarrow>
   'v network_mission_claim_record option \<times> 'v network_mission_claim_registry" where
  "update_status_at key status r =
     (case bget (nr_claims r) key of
        None \<Rightarrow> (None, r)
      | Some rec \<Rightarrow>
        (Some (set_claim_status status rec),
         r\<lparr>nr_claims := binsert key (set_claim_status status rec) (nr_claims r)\<rparr>))"

definition update_status_by_mission ::
  "string \<Rightarrow> string \<Rightarrow> 'v network_mission_claim_registry \<Rightarrow>
   'v network_mission_claim_record option \<times> 'v network_mission_claim_registry" where
  "update_status_by_mission mission_id0 status0 r =
     (let mission_id = trim mission_id0; status = trim status0
      in if mission_id = [] \<or> status = [] then (None, r)
         else case List.find (\<lambda>(key, rec). nc_mission_id rec = mission_id) (entries (nr_claims r)) of
                None \<Rightarrow> (None, r)
              | Some (key, _) \<Rightarrow> update_status_at key status r)"

definition update_status ::
  "string \<Rightarrow> string \<Rightarrow> string \<Rightarrow> string \<Rightarrow> 'v network_mission_claim_registry \<Rightarrow>
   'v network_mission_claim_record option \<times> 'v network_mission_claim_registry" where
  "update_status mission_id task_id agent_did status0 r =
     (let status = trim status0
      in if status = [] then (None, r)
         else update_status_at (network_claim_key mission_id task_id agent_did) status r)"

subsection \<open>One step of the board\<close>

datatype 'v mission_op =
    Publish "'v civil_mission" "public_geo_payload option" string int
  | Set_expiry string "int option" int
  | Clear_escrow string int
  | Escrow_intent string string int
  | Mark_escrowed string string int
  | Claim_as string string "string option" int int
  | Complete string string "'v option" int int
  | Cancel_mission string int
  | Cancel_unfunded string int
  | Settle_mission string int
  | Remote_claim string string int int
  | Remote_completed string string "'v option" int int

text \<open>
  Publishing takes its arguments from a mission record: what it is asked to publish. The fields
  of the life cycle are not taken from it.
\<close>

definition mission_step :: "'v mission_board \<Rightarrow> 'v mission_op \<Rightarrow> 'v mission_board" where
  "mission_step b op =
     (case op of
        Publish m geo uuid now \<Rightarrow>
          snd (publish_with_scope_and_geo (cm_title m) (cm_description m) (cm_publisher m)
            (cm_publisher_kind m) (cm_domain m) (cm_scope m) (cm_subnet_id m) (cm_zone_id m)
            (cm_required_role m) (cm_required_faction m) (cm_reward m) (cm_payload m) geo uuid now b)
      | Set_expiry i e now \<Rightarrow> snd (set_expiry i e now b)
      | Clear_escrow i now \<Rightarrow> snd (clear_bounty_escrow i now b)
      | Escrow_intent i e now \<Rightarrow> snd (record_bounty_escrow_intent i e now b)
      | Mark_escrowed i e now \<Rightarrow> snd (mark_bounty_escrowed i e now b)
      | Claim_as i a n t1 t2 \<Rightarrow> snd (claim_as i a n t1 t2 b)
      | Complete i a r t1 t2 \<Rightarrow> snd (complete_mission i a r t1 t2 b)
      | Cancel_mission i now \<Rightarrow> snd (cancel_mission i now b)
      | Cancel_unfunded i now \<Rightarrow> snd (cancel_unfunded i now b)
      | Settle_mission i now \<Rightarrow> snd (settle_mission i now b)
      | Remote_claim i a t1 t2 \<Rightarrow> snd (apply_remote_claim_approved i a t1 t2 b)
      | Remote_completed i a r t1 t2 \<Rightarrow> snd (apply_remote_completed i a r t1 t2 b))"

subsection \<open>Well-formed boards\<close>

definition mission_board_empty :: "'v mission_board" where
  "mission_board_empty = \<lparr>mb_missions = bempty\<rparr>"

definition mission_ok :: "string \<Rightarrow> 'v civil_mission \<Rightarrow> bool" where [inv_defs]:
  "mission_ok k m \<longleftrightarrow> cm_mission_id m = k \<and>
     (cm_status m = MOpen \<longrightarrow> cm_claimed_by m = None) \<and>
     (cm_status m = MOpen \<or> cm_status m = MClaimed \<longrightarrow> cm_completed_by m = None) \<and>
     (\<forall>a. cm_completed_by m = Some a \<longrightarrow> cm_claimed_by m = Some a) \<and>
     (cm_settled_at m \<noteq> None \<longleftrightarrow> cm_status m = MSettled)"

definition board_ok :: "'v mission_board \<Rightarrow> bool" where [inv_defs]:
  "board_ok b \<longleftrightarrow> (\<forall>k m. bget (mb_missions b) k = Some m \<longrightarrow> mission_ok k m)"

text \<open>The status changes of a mission.\<close>

inductive mission_next :: "mission_status \<Rightarrow> mission_status \<Rightarrow> bool" where
  claims: "mission_next MOpen MClaimed"
| completes: "mission_next MClaimed MCompleted"
| completes_unclaimed: "mission_next MOpen MCompleted"
| settles: "mission_next MCompleted MSettled"
| cancels: "s \<noteq> MSettled \<Longrightarrow> mission_next s MCancelled"

inductive_simps mission_next_iff: "mission_next s t"

text \<open>
  What never changes once it is there: the claimer, the executor, and once the mission is
  completed, settled or cancelled the executor and the result; what was published never changes.
\<close>

definition mission_kept :: "'v civil_mission \<Rightarrow> 'v civil_mission \<Rightarrow> bool" where
  "mission_kept m m' \<longleftrightarrow> mission_next\<^sup>*\<^sup>* (cm_status m) (cm_status m') \<and>
     (cm_claimed_by m \<noteq> None \<longrightarrow> cm_claimed_by m' = cm_claimed_by m) \<and>
     (cm_completed_by m \<noteq> None \<longrightarrow> cm_completed_by m' = cm_completed_by m) \<and>
     (cm_status m \<in> {MCompleted, MSettled, MCancelled} \<longrightarrow>
        cm_completion_result m' = cm_completion_result m \<and> cm_completed_by m' = cm_completed_by m) \<and>
     (cm_publisher m', cm_reward m', cm_payload m', cm_created_at m') =
       (cm_publisher m, cm_reward m, cm_payload m, cm_created_at m)"

lemma mission_next_after_completed:
  "mission_next\<^sup>*\<^sup>* s t \<Longrightarrow> s \<in> {MCompleted, MSettled, MCancelled} \<Longrightarrow> t \<in> {MCompleted, MSettled, MCancelled}"
  by (induction rule: rtranclp_induct) (auto simp: mission_next_iff)

lemma mission_kept_refl [simp]: "mission_kept m m"
  by (simp add: mission_kept_def)

lemma mission_kept_trans:
  assumes "mission_kept a b" and "mission_kept b c"
  shows "mission_kept a c"
proof -
  have "mission_next\<^sup>*\<^sup>* (cm_status a) (cm_status c)"
    using assms unfolding mission_kept_def by (meson rtranclp_trans)
  moreover have "cm_status a \<in> {MCompleted, MSettled, MCancelled} \<longrightarrow>
      cm_status b \<in> {MCompleted, MSettled, MCancelled}"
    using assms(1) mission_next_after_completed unfolding mission_kept_def by blast
  ultimately show ?thesis
    using assms unfolding mission_kept_def by (metis (no_types, lifting) prod.inject)
qed

text \<open>One operation on one mission: it stays well formed and keeps what must be kept.\<close>

definition mission_sound :: "('v civil_mission \<Rightarrow> 'v civil_mission) \<Rightarrow> bool" where
  "mission_sound f \<longleftrightarrow> (\<forall>k m. mission_ok k m \<longrightarrow> mission_ok k (f m) \<and> mission_kept m (f m))"

lemma mission_soundI:
  "(\<And>k m. mission_ok k m \<Longrightarrow> f m \<noteq> m \<Longrightarrow> mission_ok k (f m) \<and> mission_kept m (f m)) \<Longrightarrow> mission_sound f"
  unfolding mission_sound_def by (metis mission_kept_refl)

definition board_forward :: "string \<Rightarrow> 'v mission_board \<Rightarrow> 'v mission_board \<Rightarrow> bool" where
  "board_forward i b b' \<longleftrightarrow>
     (board_ok b \<longrightarrow> board_ok b' \<and> entry_advances mission_kept i (mb_missions b) (mb_missions b'))"

lemma modify_mission_map: "mb_missions (snd (modify_mission k f b)) = snd (bmodify Mission_not_found k f (mb_missions b))"
  by (simp add: modify_mission_def case_prod_beta Let_def)

lemma modify_remote_map: "mb_missions (snd (modify_remote k f b)) = snd (bmodify Mission_not_found k f (mb_missions b))"
  by (simp add: modify_remote_def modify_mission_map bmodify_def split: option.splits)

lemma bmodify_forward:
  assumes "mission_sound (\<lambda>m. snd (f m))" and "mb_missions b' = snd (bmodify e k f (mb_missions b))"
  shows "board_forward i b b'"
  unfolding board_forward_def
proof
  assume ok: "board_ok b"
  have "board_ok b'"
    using ok assms(1) unfolding board_ok_def assms(2) mission_sound_def
    by (auto simp: bmodify_get split: if_splits)
  moreover have "entry_advances mission_kept i (mb_missions b) (mb_missions b')"
    using ok assms(1) unfolding board_ok_def assms(2) mission_sound_def entry_advances_def
    by (auto simp: bmodify_get)
  ultimately show "board_ok b' \<and> entry_advances mission_kept i (mb_missions b) (mb_missions b')" ..
qed

lemma mission_reach_step: "mission_next s t \<Longrightarrow> mission_next\<^sup>*\<^sup>* s t"
  by blast

lemmas mission_sound_simps = mission_ok_def mission_kept_def mission_next.intros mission_reach_step

fun publishes :: "string \<Rightarrow> 'v mission_op \<Rightarrow> bool" where
  "publishes i (Publish _ _ uuid _) = (uuid = i)"
| "publishes i _ = False"

lemma publish_forward:
  "i \<noteq> uuid \<Longrightarrow> board_forward i b (snd (publish_with_scope_and_geo t d p pk dm sc sn z rr rf rw pl geo uuid now b))"
  by (auto simp: board_forward_def publish_with_scope_and_geo_def Let_def board_ok_def mission_ok_def
      intro!: binsert_advances)

lemma modify_mission_forward:
  "(\<And>k m. mission_ok k m \<Longrightarrow> snd (f m) \<noteq> m \<Longrightarrow> mission_ok k (snd (f m)) \<and> mission_kept m (snd (f m))) \<Longrightarrow>
     board_forward i b (snd (modify_mission j f b))"
  by (rule bmodify_forward [OF mission_soundI modify_mission_map])

lemma modify_remote_forward:
  "(\<And>k m. mission_ok k m \<Longrightarrow> snd (f m) \<noteq> m \<Longrightarrow> mission_ok k (snd (f m)) \<and> mission_kept m (snd (f m))) \<Longrightarrow>
     board_forward i b (snd (modify_remote j f b))"
  by (rule bmodify_forward [OF mission_soundI modify_remote_map])

lemma claim_as_forward: "board_forward i b (snd (claim_as j a n t1 t2 b))"
  unfolding claim_as_def by (rule modify_mission_forward) (auto simp: mission_sound_simps split: if_splits)

lemma complete_forward: "board_forward i b (snd (complete_mission j a r t1 t2 b))"
  unfolding complete_mission_def by (rule modify_mission_forward) (auto simp: mission_sound_simps split: if_splits)

lemma cancel_mission_forward: "board_forward i b (snd (cancel_mission j n b))"
  unfolding cancel_mission_def by (rule modify_mission_forward) (auto simp: mission_sound_simps split: if_splits)

lemma cancel_unfunded_forward: "board_forward i b (snd (cancel_unfunded j n b))"
  unfolding cancel_unfunded_def by (rule modify_mission_forward) (auto simp: mission_sound_simps split: if_splits)

lemma settle_mission_forward: "board_forward i b (snd (settle_mission j n b))"
  unfolding settle_mission_def by (rule modify_mission_forward) (auto simp: mission_sound_simps split: if_splits)

lemma cancel_if_expired_sound:
  "cancel_if_expired m t = Some c \<Longrightarrow> mission_ok k m \<Longrightarrow> mission_ok k c \<and> mission_kept m c"
  by (auto simp: cancel_if_expired_def mission_sound_simps split: if_splits)

lemma apply_remote_claim_forward: "board_forward i b (snd (apply_remote_claim_approved j a t1 t2 b))"
  unfolding apply_remote_claim_approved_def
proof (rule modify_remote_forward, goal_cases)
  case (1 k m)
  show ?case
  proof (cases "cancel_if_expired m t1")
    case (Some c)
    with 1(1) show ?thesis by (simp add: cancel_if_expired_sound)
  next
    case None
    with 1(1) show ?thesis
      by (cases "cm_status m"; cases "ensure_same_claimer m (trim a)")
        (simp_all add: mission_sound_simps Let_def)
  qed
qed

lemma completed_sound:
  assumes "mission_ok k m" and "cm_status m = MOpen \<or> cm_status m = MClaimed"
    and "ensure_same_claimer m a = Ok u"
  shows "let m1 = (if a \<noteq> []
                   then m\<lparr>cm_claimed_by := (case cm_claimed_by m of None \<Rightarrow> Some a | Some c \<Rightarrow> Some c),
                          cm_completed_by := Some a\<rparr> else m);
             m2 = (if r \<noteq> None \<or> cm_completion_result m1 = None
                   then m1\<lparr>cm_completion_result := r\<rparr> else m1);
             m3 = m2\<lparr>cm_status := MCompleted, cm_updated_at := t2\<rparr>
         in mission_ok k m3 \<and> mission_kept m m3"
proof -
  have "mission_next\<^sup>*\<^sup>* (cm_status m) MCompleted"
    using assms(2) by (auto simp: mission_next.intros mission_reach_step)
  then show ?thesis using assms
    by (cases "cm_claimed_by m"; cases "a = []")
      (auto simp: Let_def mission_ok_def mission_kept_def ensure_same_claimer_def split: if_splits)
qed

lemma apply_remote_completed_forward: "board_forward i b (snd (apply_remote_completed j a r t1 t2 b))"
  unfolding apply_remote_completed_def
proof (rule modify_remote_forward, goal_cases)
  case (1 k m)
  show ?case
  proof (cases "cancel_if_expired m t1")
    case (Some c)
    with 1(1) show ?thesis by (simp add: cancel_if_expired_sound)
  next
    case None
    with 1(1) completed_sound [OF 1(1), of "trim a" _ r t2] show ?thesis
      by (cases "cm_status m"; cases "ensure_same_claimer m (trim a)"; cases "ensure_same_executor m (trim a)")
        (simp_all add: Let_def)
  qed
qed

lemmas mission_ops_forward = claim_as_forward complete_forward cancel_mission_forward
  cancel_unfunded_forward settle_mission_forward apply_remote_claim_forward apply_remote_completed_forward

lemma board_forward_step:
  assumes "\<not> publishes i op"
  shows "board_forward i b (mission_step b op)"
proof (cases op)
  case (Publish m g u n)
  with assms show ?thesis by (simp add: mission_step_def publish_forward)
next
  case (Set_expiry j e n)
  then show ?thesis
    unfolding mission_step_def set_expiry_def
    by (auto simp: mission_sound_simps intro!: modify_mission_forward)
next
  case (Clear_escrow j n)
  then show ?thesis
    unfolding mission_step_def clear_bounty_escrow_def
    by (auto simp: mission_sound_simps intro!: modify_mission_forward)
next
  case (Escrow_intent j e n)
  then show ?thesis
    unfolding mission_step_def record_bounty_escrow_intent_def
    by (auto simp: mission_sound_simps intro!: modify_mission_forward)
next
  case (Mark_escrowed j e n)
  then show ?thesis
    unfolding mission_step_def mark_bounty_escrowed_def
    by (auto simp: mission_sound_simps intro!: modify_mission_forward)
qed (use mission_ops_forward in \<open>simp_all add: mission_step_def\<close>)

interpretation mission_history: forward_machine mission_step "\<lambda>op. \<not> publishes i op" "board_forward i"
  for i
proof
  fix s t u :: "'a mission_board"
  show "board_forward i s s" by (simp add: board_forward_def entry_advances_refl)
  show "board_forward i s t \<Longrightarrow> board_forward i t u \<Longrightarrow> board_forward i s u"
    unfolding board_forward_def by (blast intro: entry_advances_trans mission_kept_trans)
qed (rule board_forward_step)

lemma board_ok_step: "board_ok b \<Longrightarrow> board_ok (mission_step b op)"
proof -
  assume ok: "board_ok b"
  show ?thesis
  proof (cases "\<exists>i. \<not> publishes i op")
    case True
    with board_forward_step ok show ?thesis unfolding board_forward_def by blast
  next
    case False
    then show ?thesis by (cases op) auto
  qed
qed

interpretation mission_boards: invariant_machine mission_step "\<lambda>_. True" board_ok
  by unfold_locales (rule board_ok_step)

lemma board_ok_empty: "board_ok mission_board_empty"
  by (simp add: board_ok_def mission_board_empty_def)

lemma board_ok_reachable: "board_ok (run mission_step mission_board_empty ops)"
  by (rule mission_boards.run_inv [OF _ board_ok_empty]) (simp add: list_all_iff)

text \<open>
  C17: whatever local operations and relayed updates a mission goes through, it follows the life
  cycle from open to claimed, completed and settled with cancellation before settlement; a claim
  is never reassigned, the executor is always the claimer and never changes, the result of a
  completed mission stays, and so do publisher, reward and payload.
\<close>

theorem mission_payee_integrity:
  assumes "get_mission (run mission_step mission_board_empty ops0) i = Some m"
    and "list_all (\<lambda>op. \<not> publishes i op) ops"
  shows "\<exists>m'. get_mission (run mission_step mission_board_empty (ops0 @ ops)) i = Some m'
     \<and> mission_next\<^sup>*\<^sup>* (cm_status m) (cm_status m')
     \<and> (cm_claimed_by m \<noteq> None \<longrightarrow> cm_claimed_by m' = cm_claimed_by m)
     \<and> (cm_completed_by m' \<noteq> None \<longrightarrow> cm_completed_by m' = cm_claimed_by m')
     \<and> (cm_status m \<in> {MCompleted, MSettled} \<longrightarrow>
          cm_completed_by m' = cm_completed_by m \<and> cm_completion_result m' = cm_completion_result m)
     \<and> cm_publisher m' = cm_publisher m \<and> cm_reward m' = cm_reward m \<and> cm_payload m' = cm_payload m"
proof -
  let ?b = "run mission_step mission_board_empty ops0"
  let ?b' = "run mission_step ?b ops"
  have fwd: "board_forward i ?b ?b'"
    by (rule mission_history.run_le [OF assms(2)])
  then obtain m' where m': "bget (mb_missions ?b') i = Some m'" "mission_kept m m'"
    using assms(1) board_ok_reachable [of ops0]
    unfolding board_forward_def entry_advances_def get_mission_def by blast
  moreover have "mission_ok i m'"
    using board_ok_reachable [of "ops0 @ ops"] m'(1) by (simp add: board_ok_def)
  ultimately show ?thesis
    unfolding get_mission_def by (auto simp: mission_kept_def mission_ok_def)
qed

definition demo_mission :: "unit civil_mission" where
  "demo_mission = \<lparr>cm_mission_id = [], cm_title = ''t'', cm_description = ''d'', cm_publisher = ''p'',
     cm_publisher_kind = Player, cm_domain = Trade, cm_scope = RealWorld, cm_subnet_id = None,
     cm_zone_id = None, cm_required_role = None, cm_required_faction = None,
     cm_reward = Some \<lparr>mr_agent_watt = 40, mr_reputation = 4, mr_capacity = 1\<rparr>, cm_payload = (),
     cm_lat = None, cm_lng = None, cm_coordinate_source = None, cm_created_at = 0, cm_updated_at = 0,
     cm_claimed_by = None, cm_claimed_by_display_name = None, cm_completed_by = None,
     cm_completion_result = None, cm_settled_at = None, cm_status = MOpen, cm_escrow_id = None,
     cm_escrow_confirmed = False, cm_expires_at = None\<rparr>"

lemmas mission_eval = mission_step_def get_mission_def publish_with_scope_and_geo_def
  mission_board_empty_def claim_as_def complete_mission_def settle_mission_def set_expiry_def
  apply_remote_completed_def apply_remote_claim_approved_def modify_mission_map modify_remote_map bmodify_get

lemma mission_payee_integrity_witness:
  "\<exists>m'. get_mission (run mission_step mission_board_empty
       ([Publish demo_mission None ''m1'' 1, Claim_as ''m1'' ''a'' None 2 2] @
        [Claim_as ''m1'' ''b'' None 3 3, Complete ''m1'' ''a'' None 4 4])) ''m1'' = Some m'
     \<and> cm_claimed_by m' = Some ''a'' \<and> cm_completed_by m' = Some ''a''"
proof -
  let ?start = "[Publish demo_mission None ''m1'' 1, Claim_as ''m1'' ''a'' None 2 2]"
  let ?rest = "[Claim_as ''m1'' ''b'' None 3 3, Complete ''m1'' ''a'' None 4 4]"
  have "map_option cm_claimed_by (get_mission (run mission_step mission_board_empty ?start) ''m1'') = Some (Some ''a'')"
    by (simp add: mission_eval Let_def is_expired_def has_unconfirmed_escrow_def)
  then obtain m where m: "get_mission (run mission_step mission_board_empty ?start) ''m1'' = Some m"
      and claimed: "cm_claimed_by m = Some ''a''"
    unfolding map_option_eq_Some by blast
  have "list_all (\<lambda>op. \<not> publishes ''m1'' op) ?rest" by simp
  note later = mission_payee_integrity [OF m this]
  have "map_option cm_completed_by
      (get_mission (run mission_step mission_board_empty (?start @ ?rest)) ''m1'') = Some (Some ''a'')"
    by (simp add: mission_eval Let_def is_expired_def has_unconfirmed_escrow_def)
  then obtain m' where m': "get_mission (run mission_step mission_board_empty (?start @ ?rest)) ''m1'' = Some m'"
      and completed: "cm_completed_by m' = Some ''a''"
    unfolding map_option_eq_Some by blast
  have "cm_claimed_by m' = Some ''a''"
    using later claimed unfolding m' by force
  with m' completed show ?thesis by blast
qed

subsection \<open>Expired missions are not paid\<close>

fun touches_expiry :: "string \<Rightarrow> 'v mission_op \<Rightarrow> bool" where
  "touches_expiry i (Set_expiry j _ _) = (j = i)"
| "touches_expiry i (Publish _ _ uuid _) = (uuid = i)"
| "touches_expiry i _ = False"

fun op_times :: "'v mission_op \<Rightarrow> int list" where
  "op_times (Claim_as _ _ _ t1 t2) = [t1, t2]"
| "op_times (Complete _ _ _ t1 t2) = [t1, t2]"
| "op_times (Remote_claim _ _ t1 t2) = [t1, t2]"
| "op_times (Remote_completed _ _ _ t1 t2) = [t1, t2]"
| "op_times _ = []"

definition expired_entry :: "string \<Rightarrow> int \<Rightarrow> 'v civil_mission \<Rightarrow> 'v mission_board \<Rightarrow> bool" where
  "expired_entry i e m b \<longleftrightarrow> (\<exists>m'. bget (mb_missions b) i = Some m' \<and> cm_expires_at m' = Some e \<and>
     (cm_status m' = cm_status m \<and> cm_status m \<in> {MOpen, MClaimed} \<or> cm_status m' = MCancelled) \<and>
     cm_claimed_by m' = cm_claimed_by m \<and> cm_completed_by m' = cm_completed_by m)"

lemma bmodify_expired:
  assumes "expired_entry i e m b" and "mb_missions b' = snd (bmodify x k f (mb_missions b))"
    and "\<And>v. cm_expires_at v = Some e \<Longrightarrow> cm_status v \<in> {MOpen, MClaimed, MCancelled} \<Longrightarrow> k = i \<Longrightarrow>
      cm_expires_at (snd (f v)) = Some e \<and> (cm_status (snd (f v)) = cm_status v \<or> cm_status (snd (f v)) = MCancelled) \<and>
      cm_claimed_by (snd (f v)) = cm_claimed_by v \<and> cm_completed_by (snd (f v)) = cm_completed_by v"
  shows "expired_entry i e m b'"
proof (cases "k = i")
  case True
  from assms(1) obtain v where v: "bget (mb_missions b) i = Some v" "cm_expires_at v = Some e"
      "cm_status v = cm_status m \<and> cm_status m \<in> {MOpen, MClaimed} \<or> cm_status v = MCancelled"
      "cm_claimed_by v = cm_claimed_by m" "cm_completed_by v = cm_completed_by m"
    unfolding expired_entry_def by blast
  moreover from v(3) have "cm_status v \<in> {MOpen, MClaimed, MCancelled}" by auto
  ultimately show ?thesis using assms(3) [of v] True
    unfolding expired_entry_def assms(2) by (auto simp: bmodify_get)
next
  case False
  with assms(1,2) show ?thesis by (auto simp: expired_entry_def bmodify_get)
qed

lemma modify_mission_expired:
  assumes "expired_entry i e m b"
    and "\<And>v. cm_expires_at v = Some e \<Longrightarrow> cm_status v \<in> {MOpen, MClaimed, MCancelled} \<Longrightarrow> k = i \<Longrightarrow>
      cm_expires_at (snd (f v)) = Some e \<and> (cm_status (snd (f v)) = cm_status v \<or> cm_status (snd (f v)) = MCancelled) \<and>
      cm_claimed_by (snd (f v)) = cm_claimed_by v \<and> cm_completed_by (snd (f v)) = cm_completed_by v"
  shows "expired_entry i e m (snd (modify_mission k f b))"
  using bmodify_expired [OF assms(1) modify_mission_map] assms(2) by blast

lemma modify_remote_expired:
  assumes "expired_entry i e m b"
    and "\<And>v. cm_expires_at v = Some e \<Longrightarrow> cm_status v \<in> {MOpen, MClaimed, MCancelled} \<Longrightarrow> k = i \<Longrightarrow>
      cm_expires_at (snd (f v)) = Some e \<and> (cm_status (snd (f v)) = cm_status v \<or> cm_status (snd (f v)) = MCancelled) \<and>
      cm_claimed_by (snd (f v)) = cm_claimed_by v \<and> cm_completed_by (snd (f v)) = cm_completed_by v"
  shows "expired_entry i e m (snd (modify_remote k f b))"
  using bmodify_expired [OF assms(1) modify_remote_map] assms(2) by blast

lemma expired_step:
  assumes "\<not> touches_expiry i op \<and> (\<forall>t \<in> set (op_times op). e \<le> t)" and "expired_entry i e m b"
  shows "expired_entry i e m (mission_step b op)"
proof (cases op)
  case (Publish x g u n)
  with assms show ?thesis
    by (auto simp: mission_step_def publish_with_scope_and_geo_def Let_def expired_entry_def)
next
  case (Remote_claim j a t1 t2)
  with assms show ?thesis
    by (auto simp: mission_step_def apply_remote_claim_approved_def cancel_if_expired_def is_expired_def
        intro!: modify_remote_expired)
next
  case (Remote_completed j a r t1 t2)
  with assms show ?thesis
    by (auto simp: mission_step_def apply_remote_completed_def cancel_if_expired_def is_expired_def
        intro!: modify_remote_expired)
qed (use assms in \<open>auto simp: mission_step_def set_expiry_def clear_bounty_escrow_def
    record_bounty_escrow_intent_def mark_bounty_escrowed_def claim_as_def complete_mission_def cancel_mission_def
    cancel_unfunded_def settle_mission_def is_expired_def intro!: modify_mission_expired split: if_splits\<close>)

interpretation mission_expiry: invariant_machine mission_step
  "\<lambda>op. \<not> touches_expiry i op \<and> (\<forall>t \<in> set (op_times op). e \<le> t)" "expired_entry i e m"
  for i e m
  by unfold_locales (rule expired_step)

text \<open>
  C18: from its expiry on an open or claimed mission is never claimed, completed or settled any
  more, by a local operation or a relayed update: it keeps its status until it is cancelled, and
  its claimer and executor stay what they were.
\<close>

theorem expired_mission_not_payable:
  assumes "get_mission b i = Some m" and "cm_expires_at m = Some e"
    and "cm_status m = MOpen \<or> cm_status m = MClaimed"
    and "list_all (\<lambda>op. \<not> touches_expiry i op \<and> (\<forall>t \<in> set (op_times op). e \<le> t)) ops"
  shows "\<exists>m'. get_mission (run mission_step b ops) i = Some m'
     \<and> (cm_status m' = cm_status m \<or> cm_status m' = MCancelled)
     \<and> cm_claimed_by m' = cm_claimed_by m \<and> cm_completed_by m' = cm_completed_by m"
proof -
  have "expired_entry i e m b"
    using assms(1-3) by (auto simp: expired_entry_def get_mission_def)
  from mission_expiry.run_inv [OF assms(4) this] show ?thesis
    by (auto simp: expired_entry_def get_mission_def)
qed

lemma expired_mission_not_payable_witness:
  "\<exists>m'. get_mission (run mission_step (mission_board_empty\<lparr>mb_missions :=
         binsert ''m1'' (demo_mission\<lparr>cm_expires_at := Some 10\<rparr>) bempty\<rparr>)
       [Claim_as ''m1'' ''a'' None 10 10, Remote_completed ''m1'' ''a'' None 11 11]) ''m1'' = Some m'
     \<and> cm_status m' \<in> {MOpen, MCancelled} \<and> cm_completed_by m' = None"
proof -
  let ?m = "demo_mission\<lparr>cm_expires_at := Some 10\<rparr>"
  let ?b = "mission_board_empty\<lparr>mb_missions := binsert ''m1'' ?m bempty\<rparr>"
  have "get_mission ?b ''m1'' = Some ?m" and "cm_expires_at ?m = Some 10"
    and "cm_status ?m = MOpen \<or> cm_status ?m = MClaimed"
    by (simp_all add: get_mission_def demo_mission_def)
  from expired_mission_not_payable [OF this, of "[Claim_as ''m1'' ''a'' None 10 10,
      Remote_completed ''m1'' ''a'' None 11 11]"]
  show ?thesis by (auto simp: demo_mission_def)
qed

subsection \<open>Claim keys\<close>

text \<open>
  Two claims share a key only if their mission, task and agent are the same up to white
  space, provided mission and task ids contain no colon; the agent may, as a DID does. A recorded
  claim is then found again under its own ids and no other claim is disturbed.
\<close>

theorem network_claim_key_injective:
  assumes "CHR '':'' \<notin> set m" and "CHR '':'' \<notin> set t" and "CHR '':'' \<notin> set m'" and "CHR '':'' \<notin> set t'"
  shows "(network_claim_key m t a = network_claim_key m' t' a' \<longleftrightarrow>
       trim m = trim m' \<and> trim t = trim t' \<and> trim a = trim a')
     \<and> claim_get (snd (claim_record m t a x st md now r)) m' t' a' =
         (if trim m = trim m' \<and> trim t = trim t' \<and> trim a = trim a'
          then Some (fst (claim_record m t a x st md now r)) else claim_get r m' t' a')"
proof -
  have no_colon: "CHR '':'' \<notin> set (trim s)" if "CHR '':'' \<notin> set s" for s
    using that set_trim [of s] by blast
  have cut: "u = u' \<and> v = v'"
    if "u @ CHR '':'' # v = u' @ CHR '':'' # v'" "CHR '':'' \<notin> set u" "CHR '':'' \<notin> set u'" for u v u' v'
    by (rule append_eq_append_sep [OF that])
  have inj: "network_claim_key m t a = network_claim_key m' t' a' \<longleftrightarrow>
       trim m = trim m' \<and> trim t = trim t' \<and> trim a = trim a'"
  proof
    assume "network_claim_key m t a = network_claim_key m' t' a'"
    then have "trim m @ CHR '':'' # (trim t @ CHR '':'' # trim a) = trim m' @ CHR '':'' # (trim t' @ CHR '':'' # trim a')"
      by (simp add: network_claim_key_def)
    from cut [OF this no_colon [OF assms(1)] no_colon [OF assms(3)]]
    have "trim m = trim m'" and tail: "trim t @ CHR '':'' # trim a = trim t' @ CHR '':'' # trim a'" by simp_all
    with cut [OF tail no_colon [OF assms(2)] no_colon [OF assms(4)]]
    show "trim m = trim m' \<and> trim t = trim t' \<and> trim a = trim a'" by simp
  qed (simp add: network_claim_key_def)
  then have sym: "network_claim_key m' t' a' = network_claim_key m t a \<longleftrightarrow>
       trim m = trim m' \<and> trim t = trim t' \<and> trim a = trim a'"
    by (simp only: eq_commute [of "network_claim_key m' t' a'"])
  show ?thesis unfolding inj by (simp add: claim_get_def claim_record_def Let_def sym)
qed

lemma network_claim_key_injective_witness:
  "network_claim_key ''m'' ''t'' ''did:key:a'' \<noteq> network_claim_key ''m'' ''t'' ''did:key:b''"
proof -
  have "trim ''did:key:a'' \<noteq> trim ''did:key:b''"
    by (simp add: trim_printable printable_def)
  with conjunct1 [OF network_claim_key_injective [of "''m''" "''t''" "''m''" "''t''" "''did:key:a''" "''did:key:b''"]]
  show ?thesis by simp
qed

end
