(* ===== verification/Economy.thy ===== *)
theory Economy
  imports Missions
begin

text \<open>
  The standing an agent derives from the mission board
  (\<^verbatim>\<open>src/crates/kernel-core/src/economy.rs\<close>): the sums of reputation and capacity over the
  settled missions it executed, with the wrap-around of \<^verbatim>\<open>i64\<close>.
\<close>

record agent_stats =
  as_power :: int
  as_watt :: int
  as_reputation :: int
  as_capacity :: int

definition DEFAULT_AGENT_COMPUTE :: int where
  "DEFAULT_AGENT_COMPUTE = 1"

record mission_standing_t =
  ms_reputation :: int
  ms_capacity :: int

definition default_standing :: mission_standing_t where
  "default_standing = \<lparr>ms_reputation = 0, ms_capacity = 0\<rparr>"

definition stats_with_watt :: "mission_standing_t \<Rightarrow> int \<Rightarrow> agent_stats" where
  "stats_with_watt st watt =
     \<lparr>as_power = max (to_i64 (DEFAULT_AGENT_COMPUTE + i64_div (ms_capacity st) 10)) DEFAULT_AGENT_COMPUTE,
      as_watt = watt, as_reputation = ms_reputation st, as_capacity = ms_capacity st\<rparr>"

text \<open>The body of the loop of \<open>mission_standing\<close>.\<close>

definition standing_add :: "string \<Rightarrow> mission_standing_t \<Rightarrow> 'v civil_mission \<Rightarrow> mission_standing_t" where
  "standing_add controller_id st m =
     (if cm_completed_by m \<noteq> Some controller_id then st
      else case cm_reward m of
             None \<Rightarrow> st
           | Some r \<Rightarrow> st\<lparr>ms_reputation := to_i64 (ms_reputation st + mr_reputation r),
                          ms_capacity := to_i64 (ms_capacity st + mr_capacity r)\<rparr>)"

definition mission_standing :: "'v mission_board \<Rightarrow> string \<Rightarrow> mission_standing_t" where
  "mission_standing b controller_id =
     foldl (standing_add controller_id) default_standing (list_missions b (Some MSettled))"

subsection \<open>Standing as a sum over the board\<close>

definition credit :: "(mission_reward \<Rightarrow> int) \<Rightarrow> string \<Rightarrow> 'v civil_mission \<Rightarrow> int" where
  "credit f c m =
     (if cm_status m = MSettled \<and> cm_completed_by m = Some c
      then (case cm_reward m of None \<Rightarrow> 0 | Some r \<Rightarrow> f r) else 0)"

definition board_credit :: "(mission_reward \<Rightarrow> int) \<Rightarrow> string \<Rightarrow> 'v mission_board \<Rightarrow> int" where
  "board_credit f c b = sum_list (map (\<lambda>e. credit f c (snd e)) (entries (mb_missions b)))"

lemma foldl_standing:
  "list_all (\<lambda>m. cm_status m = MSettled) ms \<Longrightarrow> i64_ok (ms_reputation st) \<Longrightarrow> i64_ok (ms_capacity st) \<Longrightarrow>
     foldl (standing_add c) st ms =
       \<lparr>ms_reputation = to_i64 (ms_reputation st + sum_list (map (credit mr_reputation c) ms)),
        ms_capacity = to_i64 (ms_capacity st + sum_list (map (credit mr_capacity c) ms))\<rparr>"
proof (induction ms arbitrary: st)
  case Nil
  then show ?case by (simp add: to_i64_id)
next
  case (Cons m ms)
  have "foldl (standing_add c) st (m # ms) = foldl (standing_add c) (standing_add c st m) ms" by simp
  also have "\<dots> = \<lparr>ms_reputation = to_i64 (ms_reputation (standing_add c st m) + sum_list (map (credit mr_reputation c) ms)),
        ms_capacity = to_i64 (ms_capacity (standing_add c st m) + sum_list (map (credit mr_capacity c) ms))\<rparr>"
    using Cons.prems by (intro Cons.IH) (auto simp: standing_add_def split: option.splits)
  also have "\<dots> = \<lparr>ms_reputation = to_i64 (ms_reputation st + sum_list (map (credit mr_reputation c) (m # ms))),
        ms_capacity = to_i64 (ms_capacity st + sum_list (map (credit mr_capacity c) (m # ms)))\<rparr>"
    using Cons.prems by (auto simp: standing_add_def credit_def add.assoc split: option.splits)
  finally show ?case .
qed

lemma mission_standing_sum:
  "mission_standing b c =
     \<lparr>ms_reputation = to_i64 (board_credit mr_reputation c b), ms_capacity = to_i64 (board_credit mr_capacity c b)\<rparr>"
proof -
  have settled: "list_all (\<lambda>m. cm_status m = MSettled) (list_missions b (Some MSettled))"
    by (auto simp: list_missions_def list_all_iff)
  have "sum_list (map (credit f c) (list_missions b (Some MSettled))) = board_credit f c b" for f
    unfolding list_missions_def board_credit_def bvalues_def sum_list_filter_if
    by (auto simp: comp_def credit_def intro!: arg_cong [where f = sum_list] map_cong)
  with foldl_standing [OF settled, of default_standing c] show ?thesis
    by (simp add: mission_standing_def default_standing_def i64_ok_def)
qed

lemma board_credit_bmodify:
  assumes "mb_missions b' = snd (bmodify e k g (mb_missions b))"
  shows "board_credit f c b' = board_credit f c b +
    (case bget (mb_missions b) k of None \<Rightarrow> 0 | Some m \<Rightarrow> credit f c (snd (g m)) - credit f c m)"
  unfolding board_credit_def assms
  by (auto simp: bmodify_def bmap.sum_upd simp del: entries_simps split: option.splits prod.splits)

lemma standing_unchanged:
  assumes "mb_missions b' = snd (bmodify e k g (mb_missions b))" and "\<And>f m. credit f c (snd (g m)) = credit f c m"
  shows "mission_standing b' c = mission_standing b c"
  by (simp add: mission_standing_sum board_credit_bmodify [OF assms(1)] assms(2) split: option.splits)

lemmas standing_unchanged_mission = standing_unchanged [OF modify_mission_map]
lemmas standing_unchanged_remote = standing_unchanged [OF modify_remote_map]

lemma remote_claim_credit:
  "mission_standing (snd (apply_remote_claim_approved i a t1 t2 b)) c = mission_standing b c"
  unfolding apply_remote_claim_approved_def
  by (rule standing_unchanged_remote)
    (auto simp: credit_def cancel_if_expired_def Let_def split: option.splits mission_status.splits sum.splits if_splits)

lemma remote_completed_credit:
  "mission_standing (snd (apply_remote_completed i a r t1 t2 b)) c = mission_standing b c"
  unfolding apply_remote_completed_def
proof (rule standing_unchanged_remote, goal_cases)
  case (1 f m)
  show ?case
  proof (cases "cancel_if_expired m t1")
    case None
    then show ?thesis
      by (cases "cm_status m"; cases "ensure_same_claimer m (trim a)"; cases "ensure_same_executor m (trim a)")
        (simp_all add: credit_def Let_def)
  qed (auto simp: credit_def cancel_if_expired_def split: if_splits)
qed

lemma publish_credit:
  "get_mission b uuid = None \<Longrightarrow>
     mission_standing (snd (publish_with_scope_and_geo t d p pk dm sc sn z rr rf rw pl geo uuid now b)) c =
       mission_standing b c"
  by (auto simp: mission_standing_sum board_credit_def publish_with_scope_and_geo_def Let_def get_mission_def
      bmap.sum_upd credit_def simp del: entries_simps)

lemma local_ops_credit:
  "mission_standing (snd (set_expiry i e n b)) c = mission_standing b c"
  "mission_standing (snd (clear_bounty_escrow i n b)) c = mission_standing b c"
  "mission_standing (snd (record_bounty_escrow_intent i x n b)) c = mission_standing b c"
  "mission_standing (snd (mark_bounty_escrowed i x n b)) c = mission_standing b c"
  "mission_standing (snd (claim_as i a dn t1 t2 b)) c = mission_standing b c"
  "mission_standing (snd (complete_mission i a r t1 t2 b)) c = mission_standing b c"
  "mission_standing (snd (cancel_mission i n b)) c = mission_standing b c"
  "mission_standing (snd (cancel_unfunded i n b)) c = mission_standing b c"
  unfolding set_expiry_def clear_bounty_escrow_def record_bounty_escrow_intent_def mark_bounty_escrowed_def
    claim_as_def complete_mission_def cancel_mission_def cancel_unfunded_def
  by (rule standing_unchanged_mission; auto simp: credit_def)+

text \<open>What settling the mission adds to the standing of \<open>c\<close>.\<close>

definition settlement_credit :: "'v mission_board \<Rightarrow> string \<Rightarrow> string \<Rightarrow> (mission_reward \<Rightarrow> int) \<Rightarrow> int" where
  "settlement_credit b i c f =
     (case get_mission b i of
        None \<Rightarrow> 0
      | Some m \<Rightarrow> if cm_status m = MCompleted \<and> cm_completed_by m = Some c
                  then (case cm_reward m of None \<Rightarrow> 0 | Some r \<Rightarrow> f r) else 0)"

lemma settle_credit:
  "board_credit f c (snd (settle_mission i n b)) = board_credit f c b + settlement_credit b i c f"
  unfolding settle_mission_def settlement_credit_def
  by (auto simp: board_credit_bmodify [OF modify_mission_map] credit_def get_mission_def split: option.splits)

text \<open>
  C19: an agent's standing changes only when a completed mission that it executed is settled, and
  then by exactly the mission's reward, in the arithmetic of an \<^verbatim>\<open>i64\<close>. No other operation
  of the board, local or relayed, changes anybody's standing, and a settled reward is never lost,
  provided a mission is not published under an id that is already taken (the ids are fresh UUIDs).
\<close>

theorem standing_changes_by_settlement:
  assumes "\<forall>i. publishes i op \<longrightarrow> get_mission b i = None"
  shows "mission_standing (mission_step b op) c =
    (case op of
       Settle_mission i now \<Rightarrow>
         \<lparr>ms_reputation = to_i64 (ms_reputation (mission_standing b c) + settlement_credit b i c mr_reputation),
          ms_capacity = to_i64 (ms_capacity (mission_standing b c) + settlement_credit b i c mr_capacity)\<rparr>
     | _ \<Rightarrow> mission_standing b c)"
proof (cases op)
  case (Publish m geo uuid now)
  with assms show ?thesis by (simp add: mission_step_def publish_credit)
next
  case (Settle_mission i now)
  then show ?thesis by (simp add: mission_step_def mission_standing_sum settle_credit)
qed (simp_all add: mission_step_def local_ops_credit remote_claim_credit remote_completed_credit)

lemma standing_changes_by_settlement_witness:
  "let m = demo_mission\<lparr>cm_status := MCompleted, cm_claimed_by := Some ''a'', cm_completed_by := Some ''a''\<rparr>;
       b = mission_board_empty\<lparr>mb_missions := binsert ''m1'' m bempty\<rparr>
   in ms_reputation (mission_standing (mission_step b (Settle_mission ''m1'' 5)) ''a'') = 4
      \<and> mission_standing (mission_step b (Settle_mission ''m1'' 5)) ''b'' = default_standing"
proof -
  let ?m = "demo_mission\<lparr>cm_status := MCompleted, cm_claimed_by := Some ''a'', cm_completed_by := Some ''a''\<rparr>"
  let ?b = "mission_board_empty\<lparr>mb_missions := binsert ''m1'' ?m bempty\<rparr>"
  have fresh: "\<forall>i. publishes i (Settle_mission ''m1'' 5) \<longrightarrow> get_mission ?b i = None" by simp
  have start: "mission_standing ?b c = default_standing" for c
    by (simp add: mission_standing_def list_missions_def bvalues_def)
  have gain: "settlement_credit ?b ''m1'' ''a'' mr_reputation = 4"
    and others: "settlement_credit ?b ''m1'' ''b'' mr_reputation = 0" "settlement_credit ?b ''m1'' ''b'' mr_capacity = 0"
    by (simp_all add: settlement_credit_def get_mission_def demo_mission_def)
  note settled = standing_changes_by_settlement [OF fresh]
  have "ms_reputation (mission_standing (mission_step ?b (Settle_mission ''m1'' 5)) ''a'') = 4"
    by (simp add: settled start gain) (simp add: default_standing_def to_i64_def)
  moreover have "mission_standing (mission_step ?b (Settle_mission ''m1'' 5)) ''b'' = default_standing"
    by (simp add: settled start others) (simp add: default_standing_def to_i64_def)
  ultimately show ?thesis by (simp add: Let_def)
qed

lemma stats_power_bounds:
  "i64_ok (ms_capacity st) \<Longrightarrow> as_power (stats_with_watt st w) =
     (if ms_capacity st < 10 then 1 else 1 + ms_capacity st div 10)"
proof -
  assume ok: "i64_ok (ms_capacity st)"
  show ?thesis
  proof (cases "ms_capacity st < 10")
    case True
    then show ?thesis
    proof (cases "ms_capacity st < 0")
      case neg: True
      with ok have "- (2 ^ 63) \<le> - (\<bar>ms_capacity st\<bar> div 10)" and "- (\<bar>ms_capacity st\<bar> div 10) \<le> 0"
        by (auto simp: i64_ok_def)
      with True neg show ?thesis
        by (simp add: stats_with_watt_def DEFAULT_AGENT_COMPUTE_def i64_div_def to_i64_id i64_ok_def)
    qed (simp add: stats_with_watt_def DEFAULT_AGENT_COMPUTE_def i64_div_def to_i64_id i64_ok_def sgn_if)
  next
    case False
    with ok show ?thesis
      by (simp add: stats_with_watt_def DEFAULT_AGENT_COMPUTE_def i64_div_def to_i64_small i64_ok_def sgn_if)
  qed
qed

end
