(* ===== verification/Organizations.thy ===== *)
theory Organizations
  imports Registry Profiles
begin

text \<open>
  Organizations (\<^verbatim>\<open>src/crates/kernel-core/src/civilization/organizations.rs\<close>): members and
  their permissions, the treasury, the proposals members vote on, applications for a subnet
  charter and the readiness track that makes an organization eligible for one.
\<close>

subsection \<open>Data\<close>

datatype organization_kind = Guild | Consortium | Fleet | CivicUnion

datatype organization_role = Founder | Officer | Member

datatype organization_permission = ManageMembers | ManageTreasury | PublishMissions | ManageGovernance

datatype organization_proposal_kind = SubnetCharter

datatype organization_proposal_status = Org_open | Org_accepted | Org_rejected

record organization_proposal =
  op_proposal_id :: string
  op_organization_id :: string
  op_kind :: organization_proposal_kind
  op_title :: string
  op_summary :: string
  op_proposed_subnet_id :: "string option"
  op_proposed_subnet_name :: "string option"
  op_created_by_public_id :: string
  op_created_at :: int
  op_votes_for :: "string btree_set"
  op_votes_against :: "string btree_set"
  op_status :: organization_proposal_status

record organization_readiness_gate =
  rg_key :: string
  rg_title :: string
  rg_complete :: bool
  rg_current :: int
  rg_target :: int
  rg_unit :: string
  rg_hint :: string

record organization_autonomy_track =
  at_current_status :: string
  at_next_action :: string
  at_eligible_for_subnet_charter :: bool
  at_gates :: "organization_readiness_gate list"

datatype organization_subnet_charter_status = PendingGovernance

record organization_subnet_charter_application =
  ca_application_id :: string
  ca_organization_id :: string
  ca_proposal_id :: string
  ca_requested_by_public_id :: string
  ca_sponsor_controller_id :: string
  ca_proposed_subnet_id :: string
  ca_proposed_subnet_name :: string
  ca_summary :: string
  ca_created_at :: int
  ca_status :: organization_subnet_charter_status
  ca_readiness_snapshot :: organization_autonomy_track

record organization_profile =
  og_organization_id :: string
  og_name :: string
  og_kind :: organization_kind
  og_summary :: string
  og_faction_alignment :: "faction option"
  og_home_subnet_id :: "string option"
  og_home_zone_id :: "string option"
  og_treasury_watt :: int
  og_created_by_public_id :: string
  og_active :: bool
  og_created_at :: int
  og_updated_at :: int

record organization_create_spec =
  oc_organization_id :: string
  oc_name :: string
  oc_kind :: organization_kind
  oc_summary :: string
  oc_faction_alignment :: "faction option"
  oc_home_subnet_id :: "string option"
  oc_home_zone_id :: "string option"
  oc_founder_public_id :: string

record organization_proposal_create_spec =
  pc_organization_id :: string
  pc_kind :: organization_proposal_kind
  pc_title :: string
  pc_summary :: string
  pc_proposed_subnet_id :: "string option"
  pc_proposed_subnet_name :: "string option"
  pc_created_by_public_id :: string

record organization_membership =
  om_organization_id :: string
  om_public_id :: string
  om_role :: organization_role
  om_title :: "string option"
  om_active :: bool
  om_joined_at :: int
  om_updated_at :: int

record organization_registry =
  or_organizations :: "(string, organization_profile) btree_map"
  or_memberships :: "(string, organization_membership list) btree_map"
  or_proposals :: "(string, organization_proposal) btree_map"
  or_charter_applications :: "(string, organization_subnet_charter_application) btree_map"

datatype organization_error =
    Organization_exists
  | Organization_missing
  | Funding_not_positive
  | Spend_not_positive
  | Insufficient_treasury
  | Membership_required
  | Org_proposal_not_found
  | Org_proposal_not_open
  | Not_ready_for_charter
  | Not_a_charter_proposal
  | Proposal_not_accepted
  | Application_exists
  | Missing_subnet_id
  | Missing_subnet_name

subsection \<open>Members\<close>

text \<open>The update through \<^verbatim>\<open>iter_mut().find(..)\<close>: the first match is replaced, or the entry is pushed.\<close>

fun upsert_entry :: "('a \<Rightarrow> bool) \<Rightarrow> 'a \<Rightarrow> 'a list \<Rightarrow> 'a list" where
  "upsert_entry P x [] = [x]"
| "upsert_entry P x (y # ys) = (if P y then x # ys else y # upsert_entry P x ys)"

definition touch_organization :: "string \<Rightarrow> int \<Rightarrow> organization_registry \<Rightarrow> organization_registry" where
  "touch_organization organization_id now r =
     (case bget (or_organizations r) organization_id of
        None \<Rightarrow> r
      | Some o' \<Rightarrow> r\<lparr>or_organizations := binsert organization_id (o'\<lparr>og_updated_at := now\<rparr>) (or_organizations r)\<rparr>)"

definition upsert_membership ::
  "string \<Rightarrow> string \<Rightarrow> organization_role \<Rightarrow> string option \<Rightarrow> bool \<Rightarrow> int \<Rightarrow> organization_registry \<Rightarrow>
   (organization_error + organization_membership) \<times> organization_registry" where
  "upsert_membership organization_id public_id role title active now r =
     (if \<not> bcontains (or_organizations r) organization_id then (Err Organization_missing, r)
      else
        let ms = bget_or [] (or_memberships r) organization_id;
            joined_at = (case List.find (\<lambda>m. om_public_id m = public_id) ms of
                           None \<Rightarrow> now | Some m \<Rightarrow> om_joined_at m);
            membership = \<lparr>om_organization_id = organization_id, om_public_id = public_id, om_role = role,
              om_title = title, om_active = active, om_joined_at = joined_at, om_updated_at = now\<rparr>;
            ms' = upsert_entry (\<lambda>m. om_public_id m = public_id) membership ms;
            r1 = r\<lparr>or_memberships := binsert organization_id ms' (or_memberships r)\<rparr>
        in (Ok membership, touch_organization organization_id now r1))"

text \<open>\<open>t1\<close> is the reading for the organization, \<open>t2\<close> the one the founder's membership makes.\<close>

definition create_organization ::
  "organization_create_spec \<Rightarrow> int \<Rightarrow> int \<Rightarrow> organization_registry \<Rightarrow>
   (organization_error + organization_profile) \<times> organization_registry" where
  "create_organization spec t1 t2 r =
     (if bcontains (or_organizations r) (oc_organization_id spec) then (Err Organization_exists, r)
      else
        let org = \<lparr>og_organization_id = oc_organization_id spec, og_name = oc_name spec,
              og_kind = oc_kind spec, og_summary = oc_summary spec,
              og_faction_alignment = oc_faction_alignment spec, og_home_subnet_id = oc_home_subnet_id spec,
              og_home_zone_id = oc_home_zone_id spec, og_treasury_watt = 0,
              og_created_by_public_id = oc_founder_public_id spec, og_active = True,
              og_created_at = t1, og_updated_at = t1\<rparr>;
            r1 = r\<lparr>or_organizations := binsert (oc_organization_id spec) org (or_organizations r)\<rparr>
        in case upsert_membership (oc_organization_id spec) (oc_founder_public_id spec) Founder
                  (Some ''Founder'') True t2 r1 of
             (Inl e, r2) \<Rightarrow> (Err e, r2)
           | (Inr _, r2) \<Rightarrow> (Ok org, r2))"

definition modify_organization ::
  "string \<Rightarrow> (organization_profile \<Rightarrow> (organization_error + organization_profile) \<times> organization_profile) \<Rightarrow>
   organization_registry \<Rightarrow> (organization_error + organization_profile) \<times> organization_registry" where
  "modify_organization organization_id f r =
     (let (res, os) = bmodify Organization_missing organization_id f (or_organizations r)
      in (res, r\<lparr>or_organizations := os\<rparr>))"

definition org_fund_treasury ::
  "string \<Rightarrow> int \<Rightarrow> int \<Rightarrow> organization_registry \<Rightarrow>
   (organization_error + organization_profile) \<times> organization_registry" where
  "org_fund_treasury organization_id amount_watt now r =
     (if amount_watt \<le> 0 then (Err Funding_not_positive, r)
      else modify_organization organization_id (\<lambda>o'. leaves
             (o'\<lparr>og_treasury_watt := to_i64 (og_treasury_watt o' + amount_watt), og_updated_at := now\<rparr>)) r)"

definition org_spend_treasury ::
  "string \<Rightarrow> int \<Rightarrow> int \<Rightarrow> organization_registry \<Rightarrow>
   (organization_error + organization_profile) \<times> organization_registry" where
  "org_spend_treasury organization_id amount_watt now r =
     (if amount_watt \<le> 0 then (Err Spend_not_positive, r)
      else modify_organization organization_id (\<lambda>o'.
             if og_treasury_watt o' < amount_watt then (Err Insufficient_treasury, o')
             else leaves (o'\<lparr>og_treasury_watt := to_i64 (og_treasury_watt o' - amount_watt),
                             og_updated_at := now\<rparr>)) r)"

definition organization :: "organization_registry \<Rightarrow> string \<Rightarrow> organization_profile option" where
  "organization r organization_id = bget (or_organizations r) organization_id"

definition memberships :: "organization_registry \<Rightarrow> string \<Rightarrow> organization_membership list" where
  "memberships r organization_id = bget_or [] (or_memberships r) organization_id"

definition memberships_for_public :: "organization_registry \<Rightarrow> string \<Rightarrow> organization_membership list" where
  "memberships_for_public r public_id =
     filter (\<lambda>m. om_active m \<and> om_public_id m = public_id) (concat (bvalues (or_memberships r)))"

definition organizations_for_public ::
  "organization_registry \<Rightarrow> string \<Rightarrow> (organization_profile \<times> organization_membership) list" where
  "organizations_for_public r public_id =
     List.map_filter (\<lambda>m. map_option (\<lambda>o'. (o', m)) (organization r (om_organization_id m)))
       (memberships_for_public r public_id)"

definition list_organizations :: "organization_registry \<Rightarrow> organization_profile list" where
  "list_organizations r = bvalues (or_organizations r)"

definition membership_for_public ::
  "organization_registry \<Rightarrow> string \<Rightarrow> string \<Rightarrow> organization_membership option" where
  "membership_for_public r organization_id public_id =
     List.find (\<lambda>m. om_active m \<and> om_public_id m = public_id) (memberships r organization_id)"

definition permissions_for_role :: "organization_role \<Rightarrow> organization_permission list" where
  "permissions_for_role role =
     (case role of
        Founder \<Rightarrow> [ManageMembers, ManageTreasury, PublishMissions, ManageGovernance]
      | Officer \<Rightarrow> [ManageTreasury, PublishMissions, ManageGovernance]
      | Member \<Rightarrow> [])"

definition permissions_for_public ::
  "organization_registry \<Rightarrow> string \<Rightarrow> string \<Rightarrow> organization_permission list" where
  "permissions_for_public r organization_id public_id =
     (case membership_for_public r organization_id public_id of
        None \<Rightarrow> []
      | Some m \<Rightarrow> permissions_for_role (om_role m))"

definition has_permission ::
  "organization_registry \<Rightarrow> string \<Rightarrow> string \<Rightarrow> organization_permission \<Rightarrow> bool" where
  "has_permission r organization_id public_id permission \<longleftrightarrow>
     permission \<in> set (permissions_for_public r organization_id public_id)"

subsection \<open>Proposals\<close>

definition org_create_proposal ::
  "organization_proposal_create_spec \<Rightarrow> int \<Rightarrow> organization_registry \<Rightarrow>
   (organization_error + organization_proposal) \<times> organization_registry" where
  "org_create_proposal spec now r =
     (if organization r (pc_organization_id spec) = None then (Err Organization_missing, r)
      else if membership_for_public r (pc_organization_id spec) (pc_created_by_public_id spec) = None
      then (Err Membership_required, r)
      else
        let proposal = \<lparr>op_proposal_id = pc_organization_id spec @ ''-proposal-'' @ dec_int now,
              op_organization_id = pc_organization_id spec, op_kind = pc_kind spec, op_title = pc_title spec,
              op_summary = pc_summary spec, op_proposed_subnet_id = pc_proposed_subnet_id spec,
              op_proposed_subnet_name = pc_proposed_subnet_name spec,
              op_created_by_public_id = pc_created_by_public_id spec, op_created_at = now,
              op_votes_for = bempty, op_votes_against = bempty, op_status = Org_open\<rparr>;
            r1 = r\<lparr>or_proposals := binsert (op_proposal_id proposal) proposal (or_proposals r)\<rparr>
        in (Ok proposal, touch_organization (pc_organization_id spec) now r1))"

definition org_cast_vote :: "organization_proposal \<Rightarrow> string \<Rightarrow> bool \<Rightarrow> organization_proposal" where
  "org_cast_vote p voter approve =
     (let yes = bs_remove voter (op_votes_for p);
          no = bs_remove voter (op_votes_against p)
      in if approve
         then p\<lparr>op_votes_for := bs_insert voter yes, op_votes_against := no\<rparr>
         else p\<lparr>op_votes_for := yes, op_votes_against := bs_insert voter no\<rparr>)"

definition org_vote_proposal ::
  "string \<Rightarrow> string \<Rightarrow> bool \<Rightarrow> organization_registry \<Rightarrow>
   (organization_error + organization_proposal) \<times> organization_registry" where
  "org_vote_proposal proposal_id voter_public_id approve r =
     (case bget (or_proposals r) proposal_id of
        None \<Rightarrow> (Err Org_proposal_not_found, r)
      | Some p \<Rightarrow>
        if membership_for_public r (op_organization_id p) voter_public_id = None
        then (Err Membership_required, r)
        else if op_status p \<noteq> Org_open then (Err Org_proposal_not_open, r)
        else let p' = org_cast_vote p voter_public_id approve
             in (Ok p', r\<lparr>or_proposals := binsert proposal_id p' (or_proposals r)\<rparr>))"

definition org_proposal_passes :: "nat \<Rightarrow> organization_proposal \<Rightarrow> bool" where
  "org_proposal_passes min_votes_for p \<longleftrightarrow>
     min_votes_for \<le> bs_len (op_votes_for p) \<and> bs_len (op_votes_against p) < bs_len (op_votes_for p)"

definition org_finalize_proposal ::
  "string \<Rightarrow> nat \<Rightarrow> organization_registry \<Rightarrow>
   (organization_error + organization_proposal) \<times> organization_registry" where
  "org_finalize_proposal proposal_id min_votes_for r =
     (case bget (or_proposals r) proposal_id of
        None \<Rightarrow> (Err Org_proposal_not_found, r)
      | Some p \<Rightarrow>
        if op_status p \<noteq> Org_open then (Err Org_proposal_not_open, r)
        else let p' = p\<lparr>op_status := (if org_proposal_passes min_votes_for p then Org_accepted else Org_rejected)\<rparr>
             in (Ok p', r\<lparr>or_proposals := binsert proposal_id p' (or_proposals r)\<rparr>))"

definition org_list_proposals :: "organization_registry \<Rightarrow> string option \<Rightarrow> organization_proposal list" where
  "org_list_proposals r organization_id =
     filter (\<lambda>p. is_none_or organization_id (\<lambda>i. op_organization_id p = i)) (bvalues (or_proposals r))"

subsection \<open>Charter applications\<close>

definition create_subnet_charter_application ::
  "string \<Rightarrow> string \<Rightarrow> string \<Rightarrow> organization_autonomy_track \<Rightarrow> int \<Rightarrow> organization_registry \<Rightarrow>
   (organization_error + organization_subnet_charter_application) \<times> organization_registry" where
  "create_subnet_charter_application proposal_id requested_by sponsor readiness now r =
     (if \<not> at_eligible_for_subnet_charter readiness then (Err Not_ready_for_charter, r)
      else case bget (or_proposals r) proposal_id of
        None \<Rightarrow> (Err Org_proposal_not_found, r)
      | Some p \<Rightarrow>
        if op_kind p \<noteq> SubnetCharter then (Err Not_a_charter_proposal, r)
        else if op_status p \<noteq> Org_accepted then (Err Proposal_not_accepted, r)
        else if membership_for_public r (op_organization_id p) requested_by = None
        then (Err Membership_required, r)
        else if list_ex (\<lambda>a. ca_proposal_id a = proposal_id) (bvalues (or_charter_applications r))
        then (Err Application_exists, r)
        else case op_proposed_subnet_id p of
               None \<Rightarrow> (Err Missing_subnet_id, r)
             | Some subnet_id \<Rightarrow>
               (case op_proposed_subnet_name p of
                  None \<Rightarrow> (Err Missing_subnet_name, r)
                | Some subnet_name \<Rightarrow>
                  let application = \<lparr>ca_application_id = op_organization_id p @ ''-charter-'' @ dec_int now,
                        ca_organization_id = op_organization_id p, ca_proposal_id = op_proposal_id p,
                        ca_requested_by_public_id = requested_by, ca_sponsor_controller_id = sponsor,
                        ca_proposed_subnet_id = subnet_id, ca_proposed_subnet_name = subnet_name,
                        ca_summary = op_summary p, ca_created_at = now, ca_status = PendingGovernance,
                        ca_readiness_snapshot = readiness\<rparr>
                  in (Ok application, r\<lparr>or_charter_applications :=
                        binsert (ca_application_id application) application (or_charter_applications r)\<rparr>)))"

definition list_subnet_charter_applications ::
  "organization_registry \<Rightarrow> string option \<Rightarrow> organization_subnet_charter_application list" where
  "list_subnet_charter_applications r organization_id =
     filter (\<lambda>a. is_none_or organization_id (\<lambda>i. ca_organization_id a = i)) (bvalues (or_charter_applications r))"

subsection \<open>Readiness\<close>

definition readiness_gate ::
  "string \<Rightarrow> string \<Rightarrow> int \<Rightarrow> int \<Rightarrow> string \<Rightarrow> string \<Rightarrow> organization_readiness_gate" where
  "readiness_gate key title current target unit hint =
     \<lparr>rg_key = key, rg_title = title, rg_complete = (target \<le> current), rg_current = current,
      rg_target = target, rg_unit = unit, rg_hint = hint\<rparr>"

definition autonomy_gates :: "organization_profile \<Rightarrow> nat \<Rightarrow> nat \<Rightarrow> bool \<Rightarrow> organization_readiness_gate list" where
  "autonomy_gates org active_member_count settled_mission_count home_subnet_governed =
     [readiness_gate ''member_core'' ''Build a three-member operating core''
        (i64_of_usize active_member_count) 3 ''members''
        ''Recruit enough active members to distribute civic, trade, and security work.'',
      readiness_gate ''treasury_buffer'' ''Maintain a forty-watt treasury buffer''
        (og_treasury_watt org) 40 ''watt''
        ''A stable treasury is required before an organization can underwrite subnet autonomy.'',
      readiness_gate ''settled_ops'' ''Settle at least two organization missions''
        (i64_of_usize settled_mission_count) 2 ''missions''
        ''Use published missions to prove the organization can coordinate repeatable work.'',
      readiness_gate ''home_anchor'' ''Bind the organization to a home subnet''
        (if og_home_subnet_id org \<noteq> None then 1 else 0) 1 ''anchor''
        ''A subnet or zone anchor gives the organization a concrete civic base.'',
      readiness_gate ''governed_home'' ''Operate around a governed home subnet''
        (if home_subnet_governed then 1 else 0) 1 ''governed''
        ''Subnet creation should emerge from proven home coordination, not from a cold start.'']"

definition compute_autonomy_track ::
  "organization_profile \<Rightarrow> nat \<Rightarrow> nat \<Rightarrow> nat \<Rightarrow> bool \<Rightarrow> organization_autonomy_track" where
  "compute_autonomy_track org active_member_count open_mission_count settled_mission_count home_subnet_governed =
     (let gates = autonomy_gates org active_member_count settled_mission_count home_subnet_governed;
          eligible = list_all rg_complete gates;
          current_status =
            (if eligible then ''subnet-ready''
             else if 2 \<le> active_member_count \<and> 0 < open_mission_count \<and> 10 \<le> og_treasury_watt org
             then ''mission-operational''
             else if 3 \<le> active_member_count then ''forming-civic-core''
             else if 2 \<le> active_member_count then ''operational-cell''
             else ''founder-led'');
          next_action =
            (if \<not> rg_complete (gates ! 0)
             then ''Recruit one more active member into the organization core.''
             else if \<not> rg_complete (gates ! 1)
             then ''Increase the organization treasury until it can underwrite subnet operations.''
             else if \<not> rg_complete (gates ! 2)
             then ''Publish and settle organization missions to prove repeatable coordination.''
             else if \<not> rg_complete (gates ! 3)
             then ''Assign the organization to a concrete home subnet or civic anchor.''
             else if \<not> rg_complete (gates ! 4)
             then ''Operate against a governed home subnet before petitioning for expansion autonomy.''
             else ''Prepare a subnet charter and governance coalition from the organization's home anchor.'')
      in \<lparr>at_current_status = current_status, at_next_action = next_action,
          at_eligible_for_subnet_charter = eligible, at_gates = gates\<rparr>)"

subsection \<open>One step of the registry\<close>

datatype organization_op =
    Create_organization organization_create_spec int int
  | Upsert_membership string string organization_role "string option" bool int
  | Org_fund string int int
  | Org_spend string int int
  | Org_create_proposal organization_proposal_create_spec int
  | Org_vote string string bool
  | Org_finalize string nat
  | Charter_application string string string organization_autonomy_track int

definition organization_step :: "organization_registry \<Rightarrow> organization_op \<Rightarrow> organization_registry" where
  "organization_step r op =
     (case op of
        Create_organization spec t1 t2 \<Rightarrow> snd (create_organization spec t1 t2 r)
      | Upsert_membership i p role title active now \<Rightarrow> snd (upsert_membership i p role title active now r)
      | Org_fund i a now \<Rightarrow> snd (org_fund_treasury i a now r)
      | Org_spend i a now \<Rightarrow> snd (org_spend_treasury i a now r)
      | Org_create_proposal spec now \<Rightarrow> snd (org_create_proposal spec now r)
      | Org_vote i p approve \<Rightarrow> snd (org_vote_proposal i p approve r)
      | Org_finalize i n \<Rightarrow> snd (org_finalize_proposal i n r)
      | Charter_application i p sponsor readiness now \<Rightarrow>
          snd (create_subnet_charter_application i p sponsor readiness now r))"

definition organization_registry_empty :: organization_registry where
  "organization_registry_empty = \<lparr>or_organizations = bempty, or_memberships = bempty,
     or_proposals = bempty, or_charter_applications = bempty\<rparr>"

subsection \<open>Well-formed registries\<close>

lemma touch_organization_same [simp]:
  "or_memberships (touch_organization i now r) = or_memberships r"
  "or_proposals (touch_organization i now r) = or_proposals r"
  "or_charter_applications (touch_organization i now r) = or_charter_applications r"
  by (simp_all add: touch_organization_def split: option.splits)

lemma touch_organization_get [simp]:
  "bget (or_organizations (touch_organization i now r)) j =
     (if j = i then map_option (\<lambda>o'. o'\<lparr>og_updated_at := now\<rparr>) (bget (or_organizations r) i)
      else bget (or_organizations r) j)"
  by (simp add: touch_organization_def split: option.splits)

lemma modify_organization_same [simp]:
  "or_memberships (snd (modify_organization i f r)) = or_memberships r"
  "or_proposals (snd (modify_organization i f r)) = or_proposals r"
  "or_charter_applications (snd (modify_organization i f r)) = or_charter_applications r"
  by (simp_all add: modify_organization_def case_prod_beta Let_def)

lemma modify_organization_get [simp]:
  "bget (or_organizations (snd (modify_organization i f r))) j =
     (if j = i then map_option (\<lambda>o'. snd (f o')) (bget (or_organizations r) i) else bget (or_organizations r) j)"
  by (simp add: modify_organization_def case_prod_beta Let_def bmodify_get)

lemma set_upsert_entry:
  "set (upsert_entry P x ys) \<subseteq> insert x (set ys)" "x \<in> set (upsert_entry P x ys)"
  by (induction ys) auto

lemma upsert_entry_keys:
  assumes "key x = k"
  shows "set (map key (upsert_entry (\<lambda>y. key y = k) x ys)) = insert k (set (map key ys))"
    and "distinct (map key ys) \<Longrightarrow> distinct (map key (upsert_entry (\<lambda>y. key y = k) x ys))"
proof -
  show eq: "set (map key (upsert_entry (\<lambda>y. key y = k) x ys)) = insert k (set (map key ys))" for ys
    using assms by (induction ys) auto
  show "distinct (map key ys) \<Longrightarrow> distinct (map key (upsert_entry (\<lambda>y. key y = k) x ys))"
  proof (induction ys)
    case (Cons y ys)
    with eq [of ys] assms show ?case by auto
  qed (simp add: assms)
qed

lemma find_upsert_entry:
  assumes "key x = k" and "distinct (map key ys)"
  shows "List.find (\<lambda>y. act y \<and> key y = q) (upsert_entry (\<lambda>y. key y = k) x ys) =
    (if q = k then if act x then Some x else None else List.find (\<lambda>y. act y \<and> key y = q) ys)"
  using assms(2)
proof (induction ys)
  case (Cons y ys)
  have "key y = k \<Longrightarrow> List.find (\<lambda>z. act z \<and> key z = k) ys = None"
    using Cons.prems by (force simp: find_None_iff image_iff)
  with Cons assms(1) show ?case by auto
qed (use assms(1) in auto)

definition members_ok :: "string \<Rightarrow> organization_membership list \<Rightarrow> bool" where
  "members_ok k ms \<longleftrightarrow> distinct (map om_public_id ms) \<and> (\<forall>m \<in> set ms. om_organization_id m = k)"

text \<open>The public ids that are or were members.\<close>

definition enrolled :: "organization_registry \<Rightarrow> string \<Rightarrow> string set" where
  "enrolled r i = om_public_id ` set (memberships r i)"

definition org_proposal_ok :: "organization_registry \<Rightarrow> string \<Rightarrow> organization_proposal \<Rightarrow> bool" where
  "org_proposal_ok r k p \<longleftrightarrow>
     op_proposal_id p = k \<and> organization r (op_organization_id p) \<noteq> None
     \<and> op_created_by_public_id p \<in> enrolled r (op_organization_id p)
     \<and> bs_set (op_votes_for p) \<inter> bs_set (op_votes_against p) = {}
     \<and> bs_set (op_votes_for p) \<union> bs_set (op_votes_against p) \<subseteq> enrolled r (op_organization_id p)
     \<and> (op_status p = Org_accepted \<longrightarrow>
          card (bs_set (op_votes_against p)) < card (bs_set (op_votes_for p)))"

definition organizations_ok :: "organization_registry \<Rightarrow> bool" where
  "organizations_ok r \<longleftrightarrow>
     (\<forall>k o'. bget (or_organizations r) k = Some o' \<longrightarrow>
        og_organization_id o' = k \<and> i64_ok (og_treasury_watt o') \<and> og_created_by_public_id o' \<in> enrolled r k)"

definition org_inv :: "organization_registry \<Rightarrow> bool" where [inv_defs]:
  "org_inv r \<longleftrightarrow>
     organizations_ok r
     \<and> (\<forall>k ms. bget (or_memberships r) k = Some ms \<longrightarrow> members_ok k ms)
     \<and> (\<forall>k p. bget (or_proposals r) k = Some p \<longrightarrow> org_proposal_ok r k p)"

lemma members_ok_get: "org_inv r \<Longrightarrow> members_ok k (memberships r k)"
  by (auto simp: org_inv_def memberships_def bget_or_def members_ok_def split: option.splits)

lemma upsert_membership_enrolled:
  "enrolled (snd (upsert_membership i p role title act now r)) j =
     (if j = i \<and> organization r i \<noteq> None then insert p (enrolled r j) else enrolled r j)"
  using upsert_entry_keys(1) [of om_public_id _ p "bget_or [] (or_memberships r) i"]
  by (auto simp: upsert_membership_def enrolled_def memberships_def organization_def Let_def bget_or_def)

lemma upsert_membership_get:
  "or_proposals (snd (upsert_membership i p role title act now r)) = or_proposals r"
  "or_charter_applications (snd (upsert_membership i p role title act now r)) = or_charter_applications r"
  "bget (or_organizations (snd (upsert_membership i p role title act now r))) j =
     (if j = i then map_option (\<lambda>o'. o'\<lparr>og_updated_at := now\<rparr>) (bget (or_organizations r) i)
      else bget (or_organizations r) j)"
  by (auto simp: upsert_membership_def Let_def)

lemma upsert_membership_list:
  assumes "organization r i \<noteq> None"
  obtains m where "om_organization_id m = i" and "om_public_id m = p" and "om_role m = role" and "om_active m = act"
    and "or_memberships (snd (upsert_membership i p role title act now r)) =
      binsert i (upsert_entry (\<lambda>m. om_public_id m = p) m (memberships r i)) (or_memberships r)"
  using assms
  by (intro that [of "projr (fst (upsert_membership i p role title act now r))"])
    (auto simp: upsert_membership_def Let_def memberships_def organization_def)

lemma upsert_membership_members:
  assumes "\<And>k ms. bget (or_memberships r) k = Some ms \<Longrightarrow> members_ok k ms"
    and "bget (or_memberships (snd (upsert_membership i p role title act now r))) k = Some ms"
  shows "members_ok k ms"
proof (cases "organization r i = None")
  case False
  then obtain m where m: "om_organization_id m = i" "om_public_id m = p"
      and new: "or_memberships (snd (upsert_membership i p role title act now r)) =
        binsert i (upsert_entry (\<lambda>m. om_public_id m = p) m (memberships r i)) (or_memberships r)"
    by (rule upsert_membership_list)
  have "members_ok i (memberships r i)"
    using assms(1) by (auto simp: memberships_def bget_or_def members_ok_def split: option.splits)
  then have "members_ok i (upsert_entry (\<lambda>m. om_public_id m = p) m (memberships r i))"
    using m set_upsert_entry(1) [of "\<lambda>m. om_public_id m = p" m "memberships r i"]
      upsert_entry_keys(2) [of om_public_id m p "memberships r i"]
    by (auto simp: members_ok_def)
  with assms new show ?thesis by (auto split: if_splits)
next
  case True
  with assms show ?thesis by (auto simp: upsert_membership_def organization_def)
qed

text \<open>What the record of a proposal needs of the registry only grows.\<close>

lemma org_proposal_ok_mono:
  "org_proposal_ok r k p \<Longrightarrow> (\<And>i. organization r i \<noteq> None \<Longrightarrow> organization r' i \<noteq> None) \<Longrightarrow>
     (\<And>i. enrolled r i \<subseteq> enrolled r' i) \<Longrightarrow> org_proposal_ok r' k p"
  unfolding org_proposal_ok_def by (meson subset_trans subsetD)

lemma upsert_membership_inv: "org_inv r \<Longrightarrow> org_inv (snd (upsert_membership i p role title act now r))"
  unfolding org_inv_def
proof (intro conjI allI impI)
  assume inv: "organizations_ok r \<and> (\<forall>k ms. bget (or_memberships r) k = Some ms \<longrightarrow> members_ok k ms)
     \<and> (\<forall>k p. bget (or_proposals r) k = Some p \<longrightarrow> org_proposal_ok r k p)"
  let ?r = "snd (upsert_membership i p role title act now r)"
  show "organizations_ok ?r"
    using inv by (auto simp: organizations_ok_def upsert_membership_get upsert_membership_enrolled split: if_splits)
  show "members_ok k ms" if "bget (or_memberships ?r) k = Some ms" for k ms
    using upsert_membership_members [OF _ that] inv by blast
  show "org_proposal_ok ?r k q" if "bget (or_proposals ?r) k = Some q" for k q
  proof (rule org_proposal_ok_mono)
    show "org_proposal_ok r k q" using inv that by (simp add: upsert_membership_get)
  qed (auto simp: organization_def upsert_membership_get upsert_membership_enrolled)
qed

lemma create_organization_upsert:
  assumes "\<not> bcontains (or_organizations r) (oc_organization_id spec)"
  obtains org where "og_organization_id org = oc_organization_id spec" and "og_treasury_watt org = 0"
    and "og_created_by_public_id org = oc_founder_public_id spec"
    and "snd (create_organization spec t1 t2 r) =
      snd (upsert_membership (oc_organization_id spec) (oc_founder_public_id spec) Founder (Some ''Founder'') True t2
        (r\<lparr>or_organizations := binsert (oc_organization_id spec) org (or_organizations r)\<rparr>))"
  using assms
  by (intro that [of "projr (fst (create_organization spec t1 t2 r))"])
    (auto simp: create_organization_def upsert_membership_def Let_def)

lemma create_organization_inv: "org_inv r \<Longrightarrow> org_inv (snd (create_organization spec t1 t2 r))"
proof (cases "bcontains (or_organizations r) (oc_organization_id spec)")
  case False
  assume inv: "org_inv r"
  from False obtain org where org_def: "og_organization_id org = oc_organization_id spec" "og_treasury_watt org = 0"
      "og_created_by_public_id org = oc_founder_public_id spec"
    and eq: "snd (create_organization spec t1 t2 r) =
      snd (upsert_membership (oc_organization_id spec) (oc_founder_public_id spec) Founder (Some ''Founder'') True t2
        (r\<lparr>or_organizations := binsert (oc_organization_id spec) org (or_organizations r)\<rparr>))"
    by (rule create_organization_upsert)
  define r1 where "r1 = r\<lparr>or_organizations := binsert (oc_organization_id spec) org (or_organizations r)\<rparr>"
  let ?r = "snd (upsert_membership (oc_organization_id spec) (oc_founder_public_id spec) Founder (Some ''Founder'') True t2 r1)"
  have r1: "or_memberships r1 = or_memberships r" "or_proposals r1 = or_proposals r" "enrolled r1 = enrolled r"
    "bget (or_organizations r1) j = (if j = oc_organization_id spec then Some org else bget (or_organizations r) j)" for j
    by (auto simp: r1_def enrolled_def memberships_def organization_def fun_eq_iff)
  have "organizations_ok ?r"
    using inv by (auto simp: org_inv_def organizations_ok_def upsert_membership_get upsert_membership_enrolled
        r1 organization_def org_def i64_ok_def split: if_splits)
  moreover have "members_ok k ms" if "bget (or_memberships ?r) k = Some ms" for k ms
    using upsert_membership_members [OF _ that] inv by (simp add: r1 org_inv_def)
  moreover have "org_proposal_ok ?r k q" if "bget (or_proposals ?r) k = Some q" for k q
  proof (rule org_proposal_ok_mono)
    show "org_proposal_ok r k q" using inv that by (simp add: upsert_membership_get r1 org_inv_def)
  qed (auto simp: organization_def upsert_membership_get upsert_membership_enrolled r1)
  ultimately show ?thesis by (simp add: eq [folded r1_def] org_inv_def)
qed (simp add: create_organization_def)

lemma org_inv_profiles:
  assumes "org_inv r" and "or_memberships r' = or_memberships r" and "or_proposals r' = or_proposals r"
    and "\<And>k. bget (or_organizations r) k \<noteq> None \<Longrightarrow> bget (or_organizations r') k \<noteq> None"
    and "organizations_ok r'"
  shows "org_inv r'"
proof -
  have "enrolled r' = enrolled r" using assms(2) by (auto simp: enrolled_def memberships_def fun_eq_iff)
  then have "org_proposal_ok r' k p" if "org_proposal_ok r k p" for k p
    by (intro org_proposal_ok_mono [OF that]) (use assms(4) in \<open>simp_all add: organization_def\<close>)
  with assms show ?thesis by (simp add: org_inv_def)
qed

lemma organizations_ok_modify:
  assumes "org_inv r" and "\<And>o'. i64_ok (og_treasury_watt o') \<Longrightarrow> i64_ok (og_treasury_watt (snd (f o')))"
    and "\<And>o'. og_organization_id (snd (f o')) = og_organization_id o'
      \<and> og_created_by_public_id (snd (f o')) = og_created_by_public_id o'"
  shows "org_inv (snd (modify_organization i f r))"
proof (rule org_inv_profiles [OF assms(1)])
  have "enrolled (snd (modify_organization i f r)) = enrolled r"
    by (simp add: enrolled_def memberships_def fun_eq_iff)
  with assms show "organizations_ok (snd (modify_organization i f r))"
    by (auto simp: org_inv_def organizations_ok_def split: if_splits)
qed auto

lemma org_treasury_inv:
  "org_inv r \<Longrightarrow> org_inv (snd (org_fund_treasury i a now r))"
  "org_inv r \<Longrightarrow> org_inv (snd (org_spend_treasury i a now r))"
  by (auto simp: org_fund_treasury_def org_spend_treasury_def intro!: organizations_ok_modify)

lemma member_enrolled: "membership_for_public r i p \<noteq> None \<Longrightarrow> p \<in> enrolled r i"
  by (auto simp: membership_for_public_def enrolled_def dest!: find_Some_iff2)

lemma org_inv_proposal:
  assumes "org_inv r" and "org_proposal_ok r k p" and "or_proposals r' = binsert k p (or_proposals r)"
    and "or_memberships r' = or_memberships r"
    and "\<And>k. bget (or_organizations r) k \<noteq> None \<Longrightarrow> bget (or_organizations r') k \<noteq> None"
    and "organizations_ok r'"
  shows "org_inv r'"
proof -
  have "enrolled r' = enrolled r" using assms(4) by (auto simp: enrolled_def memberships_def fun_eq_iff)
  then have "org_proposal_ok r' k p" if "org_proposal_ok r k p" for k p
    by (intro org_proposal_ok_mono [OF that]) (use assms(5) in \<open>simp_all add: organization_def\<close>)
  with assms show ?thesis by (auto simp: org_inv_def)
qed

lemma org_create_proposal_inv: "org_inv r \<Longrightarrow> org_inv (snd (org_create_proposal spec now r))"
proof (cases "fst (org_create_proposal spec now r)")
  case (Inl e)
  assume "org_inv r"
  with Inl show ?thesis by (auto simp: org_create_proposal_def Let_def split: if_splits)
next
  case (Inr p)
  assume inv: "org_inv r"
  let ?r1 = "r\<lparr>or_proposals := binsert (op_proposal_id p) p (or_proposals r)\<rparr>"
  have new: "snd (org_create_proposal spec now r) = touch_organization (op_organization_id p) now ?r1"
    and "organization r (op_organization_id p) \<noteq> None"
    and "membership_for_public r (op_organization_id p) (op_created_by_public_id p) \<noteq> None"
    and "op_votes_for p = bempty \<and> op_votes_against p = bempty \<and> op_status p = Org_open"
    using Inr by (auto simp: org_create_proposal_def Let_def split: if_splits)
  then have p_ok: "org_proposal_ok r (op_proposal_id p) p"
    by (simp add: org_proposal_ok_def member_enrolled)
  show ?thesis unfolding new
  proof (rule org_inv_proposal [OF inv p_ok])
    have "enrolled (touch_organization (op_organization_id p) now ?r1) = enrolled r"
      by (simp add: enrolled_def memberships_def fun_eq_iff)
    with inv show "organizations_ok (touch_organization (op_organization_id p) now ?r1)"
      by (auto simp: org_inv_def organizations_ok_def split: if_splits)
  qed (auto split: if_splits)
qed

interpretation org_ballot: ballot "\<lambda>p. bs_set (op_votes_for p)" "\<lambda>p. bs_set (op_votes_against p)" org_cast_vote
  by unfold_locales (auto simp: org_cast_vote_def Let_def)

lemma org_cast_vote_same [simp]:
  "op_proposal_id (org_cast_vote p v y) = op_proposal_id p"
  "op_organization_id (org_cast_vote p v y) = op_organization_id p"
  "op_created_by_public_id (org_cast_vote p v y) = op_created_by_public_id p"
  "op_proposed_subnet_id (org_cast_vote p v y) = op_proposed_subnet_id p"
  "op_proposed_subnet_name (org_cast_vote p v y) = op_proposed_subnet_name p"
  "op_status (org_cast_vote p v y) = op_status p"
  by (simp_all add: org_cast_vote_def Let_def)

lemma organizations_ok_proposals: "organizations_ok (r\<lparr>or_proposals := ps\<rparr>) = organizations_ok r"
  by (simp add: organizations_ok_def enrolled_def memberships_def)

lemma org_vote_proposal_inv: "org_inv r \<Longrightarrow> org_inv (snd (org_vote_proposal i v y r))"
proof (cases "fst (org_vote_proposal i v y r)")
  case (Inl e)
  assume "org_inv r"
  with Inl show ?thesis by (auto simp: org_vote_proposal_def Let_def split: if_splits option.splits)
next
  case (Inr p')
  assume inv: "org_inv r"
  from Inr obtain p where p: "bget (or_proposals r) i = Some p" "op_status p = Org_open"
      "membership_for_public r (op_organization_id p) v \<noteq> None" "p' = org_cast_vote p v y"
      and new: "snd (org_vote_proposal i v y r) = r\<lparr>or_proposals := binsert i p' (or_proposals r)\<rparr>"
    by (auto simp: org_vote_proposal_def Let_def split: if_splits option.splits)
  have "org_proposal_ok r i p" using inv p(1) by (simp add: org_inv_def)
  moreover have "v \<in> enrolled r (op_organization_id p)" using p(3) by (rule member_enrolled)
  ultimately have "org_proposal_ok r i p'"
    using org_ballot.cast_disjoint [of p v y] p(2)
    by (auto simp: org_proposal_ok_def p(4) org_ballot.cast_for org_ballot.cast_against)
  with inv show ?thesis
    unfolding new by (intro org_inv_proposal [OF inv]) (auto simp: organizations_ok_proposals org_inv_def)
qed

lemma org_finalize_proposal_inv: "org_inv r \<Longrightarrow> org_inv (snd (org_finalize_proposal i n r))"
proof (cases "fst (org_finalize_proposal i n r)")
  case (Inl e)
  assume "org_inv r"
  with Inl show ?thesis by (auto simp: org_finalize_proposal_def Let_def split: if_splits option.splits)
next
  case (Inr p')
  assume inv: "org_inv r"
  from Inr obtain p where p: "bget (or_proposals r) i = Some p"
      "p' = p\<lparr>op_status := (if org_proposal_passes n p then Org_accepted else Org_rejected)\<rparr>"
      and new: "snd (org_finalize_proposal i n r) = r\<lparr>or_proposals := binsert i p' (or_proposals r)\<rparr>"
    by (auto simp: org_finalize_proposal_def Let_def split: if_splits option.splits)
  have "org_proposal_ok r i p" using inv p(1) by (simp add: org_inv_def)
  then have "org_proposal_ok r i p'"
    by (auto simp: org_proposal_ok_def p(2) org_proposal_passes_def bs_len_card)
  with inv show ?thesis
    unfolding new by (intro org_inv_proposal [OF inv]) (auto simp: organizations_ok_proposals org_inv_def)
qed

lemma charter_application_same:
  "or_organizations (snd (create_subnet_charter_application i p s rd now r)) = or_organizations r"
  "or_memberships (snd (create_subnet_charter_application i p s rd now r)) = or_memberships r"
  "or_proposals (snd (create_subnet_charter_application i p s rd now r)) = or_proposals r"
  by (auto simp: create_subnet_charter_application_def Let_def split: option.splits)

lemma charter_application_inv: "org_inv r \<Longrightarrow> org_inv (snd (create_subnet_charter_application i p s rd now r))"
  by (rule org_inv_profiles)
    (auto simp: charter_application_same org_inv_def organizations_ok_def enrolled_def memberships_def)

lemmas organization_ops_inv = create_organization_inv upsert_membership_inv org_treasury_inv
  org_create_proposal_inv org_vote_proposal_inv org_finalize_proposal_inv charter_application_inv

interpretation org_machine: invariant_machine organization_step "\<lambda>_. True" org_inv
  by unfold_locales (auto simp: organization_step_def split: organization_op.splits intro: organization_ops_inv)

lemma org_inv_empty: "org_inv organization_registry_empty"
  by (simp add: org_inv_def organization_registry_empty_def organizations_ok_def)

lemma org_reachable_inv: "org_inv (run organization_step organization_registry_empty ops)"
  by (rule org_machine.run_inv) (simp_all add: org_inv_empty list_all_iff)

subsection \<open>Charter applications rest on a vote\<close>

definition reuses_proposal_id :: "organization_op \<Rightarrow> organization_registry \<Rightarrow> bool" where
  "reuses_proposal_id op r =
     (case op of
        Org_create_proposal spec now \<Rightarrow>
          bget (or_proposals r) (pc_organization_id spec @ ''-proposal-'' @ dec_int now) \<noteq> None
      | _ \<Rightarrow> False)"

text \<open>
  The registries reached from an empty one when no two proposals of an organization are created
  in the same second: their ids are made of the organization's id and the clock.
\<close>

inductive org_reachable :: "organization_registry \<Rightarrow> bool" where
  org_start: "org_reachable organization_registry_empty"
| org_next: "org_reachable r \<Longrightarrow> \<not> reuses_proposal_id op r \<Longrightarrow> org_reachable (organization_step r op)"

lemma org_reachable_org_inv: "org_reachable r \<Longrightarrow> org_inv r"
  by (induction rule: org_reachable.induct) (auto intro: org_inv_empty org_machine.step_inv)

lemma create_organization_same [simp]:
  "or_proposals (snd (create_organization spec t1 t2 r)) = or_proposals r"
  "or_charter_applications (snd (create_organization spec t1 t2 r)) = or_charter_applications r"
  by (auto simp: create_organization_def Let_def upsert_membership_def)

lemma create_organization_enrolled:
  "enrolled r i \<subseteq> enrolled (snd (create_organization spec t1 t2 r)) i"
proof (cases "bcontains (or_organizations r) (oc_organization_id spec)")
  case False
  then obtain org where "snd (create_organization spec t1 t2 r) =
      snd (upsert_membership (oc_organization_id spec) (oc_founder_public_id spec) Founder (Some ''Founder'') True t2
        (r\<lparr>or_organizations := binsert (oc_organization_id spec) org (or_organizations r)\<rparr>))"
    by (rule create_organization_upsert)
  moreover have "enrolled (r\<lparr>or_organizations := os\<rparr>) i = enrolled r i" for os
    by (simp add: enrolled_def memberships_def)
  ultimately show ?thesis by (auto simp: upsert_membership_enrolled)
qed (simp add: create_organization_def)

lemma enrolled_eq: "or_memberships r' = or_memberships r \<Longrightarrow> enrolled r' = enrolled r"
  by (simp add: enrolled_def memberships_def fun_eq_iff)

lemma vote_finalize_same:
  "or_memberships (snd (org_vote_proposal i v y r)) = or_memberships r"
  "or_memberships (snd (org_finalize_proposal i n r)) = or_memberships r"
  "or_memberships (snd (org_create_proposal spec now r)) = or_memberships r"
  "or_memberships (snd (org_fund_treasury i a now r)) = or_memberships r"
  "or_memberships (snd (org_spend_treasury i a now r)) = or_memberships r"
  "or_charter_applications (snd (org_vote_proposal i v y r)) = or_charter_applications r"
  "or_charter_applications (snd (org_finalize_proposal i n r)) = or_charter_applications r"
  "or_charter_applications (snd (org_create_proposal spec now r)) = or_charter_applications r"
  "or_charter_applications (snd (org_fund_treasury i a now r)) = or_charter_applications r"
  "or_charter_applications (snd (org_spend_treasury i a now r)) = or_charter_applications r"
  "or_proposals (snd (org_fund_treasury i a now r)) = or_proposals r"
  "or_proposals (snd (org_spend_treasury i a now r)) = or_proposals r"
  by (auto simp: org_vote_proposal_def org_finalize_proposal_def org_create_proposal_def org_fund_treasury_def
      org_spend_treasury_def Let_def split: option.splits)

lemma enrolled_step: "enrolled r i \<subseteq> enrolled (organization_step r op) i"
  by (cases op) (auto simp: organization_step_def upsert_membership_enrolled
      enrolled_eq [OF vote_finalize_same(1)] enrolled_eq [OF vote_finalize_same(2)]
      enrolled_eq [OF vote_finalize_same(3)] enrolled_eq [OF vote_finalize_same(4)]
      enrolled_eq [OF vote_finalize_same(5)] enrolled_eq [OF charter_application_same(2)]
      dest: subsetD [OF create_organization_enrolled])

lemma accepted_proposal_kept:
  assumes "\<not> reuses_proposal_id op r" and "bget (or_proposals r) k = Some p" and "op_status p = Org_accepted"
  shows "bget (or_proposals (organization_step r op)) k = Some p"
  using assms
  by (cases op) (auto simp: organization_step_def upsert_membership_get vote_finalize_same charter_application_same
      reuses_proposal_id_def org_create_proposal_def org_vote_proposal_def org_finalize_proposal_def Let_def
      split: option.splits)

definition application_ok :: "organization_registry \<Rightarrow> organization_subnet_charter_application \<Rightarrow> bool" where
  "application_ok r a \<longleftrightarrow>
     (\<exists>p. bget (or_proposals r) (ca_proposal_id a) = Some p \<and> op_status p = Org_accepted
        \<and> op_organization_id p = ca_organization_id a
        \<and> op_proposed_subnet_id p = Some (ca_proposed_subnet_id a)
        \<and> op_proposed_subnet_name p = Some (ca_proposed_subnet_name a))
     \<and> at_eligible_for_subnet_charter (ca_readiness_snapshot a)
     \<and> ca_requested_by_public_id a \<in> enrolled r (ca_organization_id a)"

lemma application_ok_step:
  "\<not> reuses_proposal_id op r \<Longrightarrow> application_ok r a \<Longrightarrow> application_ok (organization_step r op) a"
  unfolding application_ok_def using accepted_proposal_kept enrolled_step by blast

definition applications_ok :: "organization_registry \<Rightarrow> bool" where
  "applications_ok r \<longleftrightarrow>
     (\<forall>k a. bget (or_charter_applications r) k = Some a \<longrightarrow> application_ok r a)
     \<and> (\<forall>k a k' a'. bget (or_charter_applications r) k = Some a \<longrightarrow> bget (or_charter_applications r) k' = Some a' \<longrightarrow>
          ca_proposal_id a = ca_proposal_id a' \<longrightarrow> k = k')"

lemma charter_application_new:
  assumes "org_inv r" and "fst (create_subnet_charter_application i p s rd now r) = Ok a"
  shows "application_ok r a \<and> ca_proposal_id a = i
    \<and> (\<forall>a'. a' \<in> set (bvalues (or_charter_applications r)) \<longrightarrow> ca_proposal_id a' \<noteq> i)
    \<and> or_charter_applications (snd (create_subnet_charter_application i p s rd now r)) =
        binsert (ca_application_id a) a (or_charter_applications r)"
proof -
  from assms(2) obtain q where q: "bget (or_proposals r) i = Some q"
    and a: "ca_proposal_id a = op_proposal_id q" "ca_organization_id a = op_organization_id q" "op_status q = Org_accepted"
      "op_proposed_subnet_id q = Some (ca_proposed_subnet_id a)" "op_proposed_subnet_name q = Some (ca_proposed_subnet_name a)"
      "at_eligible_for_subnet_charter (ca_readiness_snapshot a)" "ca_requested_by_public_id a = p"
      "membership_for_public r (op_organization_id q) p \<noteq> None"
      "\<not> list_ex (\<lambda>a. ca_proposal_id a = i) (bvalues (or_charter_applications r))"
    and new: "or_charter_applications (snd (create_subnet_charter_application i p s rd now r)) =
        binsert (ca_application_id a) a (or_charter_applications r)"
    by (auto simp: create_subnet_charter_application_def Let_def split: if_splits option.splits)
  have "op_proposal_id q = i" using assms(1) q by (simp add: org_inv_def org_proposal_ok_def)
  with q a new member_enrolled [OF a(8)] show ?thesis
    by (auto simp: application_ok_def list_ex_iff)
qed

lemma applications_ok_step:
  assumes "org_inv r" and "applications_ok r" and "\<not> reuses_proposal_id op r"
  shows "applications_ok (organization_step r op)"
proof (cases "\<exists>i p s rd now a. op = Charter_application i p s rd now
    \<and> fst (create_subnet_charter_application i p s rd now r) = Ok a")
  case True
  then obtain i p s rd now a where op: "op = Charter_application i p s rd now"
    and ok: "fst (create_subnet_charter_application i p s rd now r) = Ok a" by blast
  note new = charter_application_new [OF assms(1) ok]
  have "bget (or_charter_applications (organization_step r op)) k =
      (if k = ca_application_id a then Some a else bget (or_charter_applications r) k)" for k
    using new by (simp add: op organization_step_def)
  then show ?thesis
    using assms new application_ok_step [OF assms(3)] unfolding applications_ok_def set_bvalues
    by (smt (verit) option.inject)
next
  case False
  then have "or_charter_applications (organization_step r op) = or_charter_applications r"
    by (cases op) (auto simp: organization_step_def upsert_membership_get vote_finalize_same
        create_subnet_charter_application_def Let_def split: option.splits if_splits)
  with assms application_ok_step [OF assms(3)] show ?thesis by (simp add: applications_ok_def)
qed

lemma org_reachable_applications: "org_reachable r \<Longrightarrow> applications_ok r"
proof (induction rule: org_reachable.induct)
  case org_start
  show ?case by (simp add: applications_ok_def organization_registry_empty_def)
next
  case (org_next r op)
  then show ?case by (intro applications_ok_step) (simp_all add: org_reachable_org_inv)
qed

text \<open>
  C20: every charter application rests on a vote. Its proposal exists, belongs to the same
  organization, names the same subnet and was accepted with more votes for than against, all cast
  by people enrolled in that organization; the readiness recorded with it is eligible; and no
  other application is for the same proposal. This holds of every registry that is reached when
  no organization creates two proposals in the same second.
\<close>

theorem charter_backed_by_vote:
  assumes "org_reachable r" and "bget (or_charter_applications r) k = Some a"
  shows "(\<exists>p. bget (or_proposals r) (ca_proposal_id a) = Some p \<and> op_status p = Org_accepted
       \<and> op_organization_id p = ca_organization_id a
       \<and> op_proposed_subnet_id p = Some (ca_proposed_subnet_id a)
       \<and> card (bs_set (op_votes_against p)) < card (bs_set (op_votes_for p))
       \<and> bs_set (op_votes_for p) \<subseteq> om_public_id ` set (memberships r (ca_organization_id a)))
     \<and> at_eligible_for_subnet_charter (ca_readiness_snapshot a)
     \<and> (\<forall>k' a'. bget (or_charter_applications r) k' = Some a' \<longrightarrow> ca_proposal_id a' = ca_proposal_id a \<longrightarrow> k' = k)"
proof -
  have ok: "applications_ok r" using assms(1) by (rule org_reachable_applications)
  then have a: "application_ok r a" using assms(2) by (auto simp: applications_ok_def)
  then obtain p where p: "bget (or_proposals r) (ca_proposal_id a) = Some p" "op_status p = Org_accepted"
      "op_organization_id p = ca_organization_id a" "op_proposed_subnet_id p = Some (ca_proposed_subnet_id a)"
    by (auto simp: application_ok_def)
  have "org_proposal_ok r (ca_proposal_id a) p"
    using org_reachable_org_inv [OF assms(1)] p(1) by (simp add: org_inv_def)
  with p have "card (bs_set (op_votes_against p)) < card (bs_set (op_votes_for p))
      \<and> bs_set (op_votes_for p) \<subseteq> om_public_id ` set (memberships r (ca_organization_id a))"
    by (simp add: org_proposal_ok_def enrolled_def)
  moreover have "\<forall>k' a'. bget (or_charter_applications r) k' = Some a' \<longrightarrow> ca_proposal_id a' = ca_proposal_id a \<longrightarrow> k' = k"
    using ok assms(2) unfolding applications_ok_def by blast
  moreover have "at_eligible_for_subnet_charter (ca_readiness_snapshot a)"
    using a by (simp add: application_ok_def)
  ultimately show ?thesis using p by blast
qed

definition demo_org :: organization_create_spec where
  "demo_org = \<lparr>oc_organization_id = ''o'', oc_name = ''n'', oc_kind = Guild, oc_summary = [],
     oc_faction_alignment = None, oc_home_subnet_id = None, oc_home_zone_id = None, oc_founder_public_id = ''f''\<rparr>"

definition demo_charter :: organization_proposal_create_spec where
  "demo_charter = \<lparr>pc_organization_id = ''o'', pc_kind = SubnetCharter, pc_title = [], pc_summary = [],
     pc_proposed_subnet_id = Some ''s'', pc_proposed_subnet_name = Some ''S'', pc_created_by_public_id = ''f''\<rparr>"

definition demo_track :: organization_autonomy_track where
  "demo_track = \<lparr>at_current_status = ''subnet-ready'', at_next_action = [],
     at_eligible_for_subnet_charter = True, at_gates = []\<rparr>"

lemmas organization_eval = organization_step_def create_organization_def upsert_membership_def touch_organization_def
  org_create_proposal_def org_vote_proposal_def org_finalize_proposal_def create_subnet_charter_application_def
  organization_def memberships_def membership_for_public_def org_cast_vote_def org_proposal_passes_def
  reuses_proposal_id_def organization_registry_empty_def bget_or_def bvalues_def bs_len_card dec_int_def dec_str_0
  demo_org_def demo_charter_def demo_track_def

lemma charter_backed_by_vote_witness:
  "let r = run organization_step organization_registry_empty
       [Create_organization demo_org 0 0, Org_create_proposal demo_charter 0,
        Org_vote ''o-proposal-0'' ''f'' True, Org_finalize ''o-proposal-0'' 1,
        Charter_application ''o-proposal-0'' ''f'' ''c'' demo_track 0]
   in \<exists>a p. bget (or_charter_applications r) ''o-charter-0'' = Some a
        \<and> bget (or_proposals r) (ca_proposal_id a) = Some p \<and> op_status p = Org_accepted"
proof -
  let ?ops = "[Create_organization demo_org 0 0, Org_create_proposal demo_charter 0,
        Org_vote ''o-proposal-0'' ''f'' True, Org_finalize ''o-proposal-0'' 1,
        Charter_application ''o-proposal-0'' ''f'' ''c'' demo_track 0]"
  let ?r = "run organization_step organization_registry_empty ?ops"
  have "org_reachable ?r"
    unfolding run_simps
    by (rule org_reachable.intros)+ (simp_all add: organization_eval Let_def)
  moreover have "\<exists>a. bget (or_charter_applications ?r) ''o-charter-0'' = Some a"
    by (simp add: organization_eval Let_def)
  ultimately show ?thesis
    unfolding Let_def using charter_backed_by_vote by blast
qed

subsection \<open>Permissions\<close>

text \<open>
  C21: a member's permissions are those of the role it was last given. After a membership is
  recorded its holder has exactly the permissions of the role if the membership is active and none
  if it is not, and nobody else's permissions change, here or in any other organization.
\<close>

theorem permissions_follow_membership:
  assumes "r = run organization_step organization_registry_empty ops" and "organization r i \<noteq> None"
  shows "has_permission (snd (upsert_membership i p role title active now r)) j q permission \<longleftrightarrow>
    (if j = i \<and> q = p then active \<and> permission \<in> set (permissions_for_role role)
     else has_permission r j q permission)"
proof -
  obtain m where m: "om_public_id m = p" "om_role m = role" "om_active m = active"
      and new: "or_memberships (snd (upsert_membership i p role title active now r)) =
        binsert i (upsert_entry (\<lambda>m. om_public_id m = p) m (memberships r i)) (or_memberships r)"
    using assms(2) by (rule upsert_membership_list)
  have "distinct (map om_public_id (memberships r i))"
    using members_ok_get [OF org_reachable_inv] by (simp add: assms(1) members_ok_def)
  note found = find_upsert_entry [OF m(1) this, of om_active]
  show ?thesis
    by (auto simp: has_permission_def permissions_for_public_def membership_for_public_def memberships_def
        new bget_or_def m found [unfolded memberships_def bget_or_def])
qed

lemma permissions_follow_membership_witness:
  "let r = run organization_step organization_registry_empty [Create_organization demo_org 0 0];
       r' = snd (upsert_membership ''o'' ''m'' Officer None True 1 r)
   in has_permission r' ''o'' ''m'' ManageTreasury \<and> \<not> has_permission r' ''o'' ''m'' ManageMembers"
proof -
  let ?r = "run organization_step organization_registry_empty [Create_organization demo_org 0 0]"
  have "organization ?r ''o'' \<noteq> None" by (simp add: organization_eval Let_def)
  from permissions_follow_membership [OF refl this] show ?thesis
    unfolding Let_def by (simp add: permissions_for_role_def)
qed

subsection \<open>Readiness for a charter\<close>

lemma i64_of_usize_ge: "0 \<le> k \<Longrightarrow> k \<le> i64_max \<Longrightarrow> k \<le> i64_of_usize n \<longleftrightarrow> k \<le> int n"
  by (auto simp: i64_of_usize_def)

text \<open>
  An organization is eligible for a subnet charter exactly when it has three active members,
  forty watt, two settled missions and a governed home subnet it is bound to; it is then, and only
  then, reported as ready; and an application is refused without it.
\<close>

theorem charter_eligibility:
  "let track = compute_autonomy_track org members open_missions settled_missions governed
   in (at_eligible_for_subnet_charter track \<longleftrightarrow>
         3 \<le> members \<and> 40 \<le> og_treasury_watt org \<and> 2 \<le> settled_missions
         \<and> og_home_subnet_id org \<noteq> None \<and> governed)
    \<and> (at_current_status track = ''subnet-ready'' \<longleftrightarrow> at_eligible_for_subnet_charter track)
    \<and> (is_ok (fst (create_subnet_charter_application i p s track now r)) \<longleftrightarrow>
         at_eligible_for_subnet_charter track
         \<and> (\<exists>q. bget (or_proposals r) i = Some q \<and> op_kind q = SubnetCharter \<and> op_status q = Org_accepted
              \<and> membership_for_public r (op_organization_id q) p \<noteq> None
              \<and> op_proposed_subnet_id q \<noteq> None \<and> op_proposed_subnet_name q \<noteq> None)
         \<and> (\<nexists>a. a \<in> set (bvalues (or_charter_applications r)) \<and> ca_proposal_id a = i))
    \<and> (is_ok (fst (create_subnet_charter_application i p s track now r))
       \<or> snd (create_subnet_charter_application i p s track now r) = r)"
proof -
  let ?track = "compute_autonomy_track org members open_missions settled_missions governed"
  have "at_eligible_for_subnet_charter ?track \<longleftrightarrow>
         3 \<le> members \<and> 40 \<le> og_treasury_watt org \<and> 2 \<le> settled_missions
         \<and> og_home_subnet_id org \<noteq> None \<and> governed"
    by (auto simp: compute_autonomy_track_def autonomy_gates_def readiness_gate_def Let_def i64_of_usize_ge i64_max_def)
  moreover have "at_current_status ?track = ''subnet-ready'' \<longleftrightarrow> at_eligible_for_subnet_charter ?track"
    by (simp add: compute_autonomy_track_def Let_def)
  moreover have "is_ok (fst (create_subnet_charter_application i p s t now r)) \<longleftrightarrow>
         at_eligible_for_subnet_charter t
         \<and> (\<exists>q. bget (or_proposals r) i = Some q \<and> op_kind q = SubnetCharter \<and> op_status q = Org_accepted
              \<and> membership_for_public r (op_organization_id q) p \<noteq> None
              \<and> op_proposed_subnet_id q \<noteq> None \<and> op_proposed_subnet_name q \<noteq> None)
         \<and> (\<nexists>a. a \<in> set (bvalues (or_charter_applications r)) \<and> ca_proposal_id a = i)" for t
    by (auto simp: create_subnet_charter_application_def Let_def list_ex_iff split: option.splits)
  moreover have "is_ok (fst (create_subnet_charter_application i p s t now r))
       \<or> snd (create_subnet_charter_application i p s t now r) = r" for t
    by (auto simp: create_subnet_charter_application_def Let_def split: option.splits)
  ultimately show ?thesis by (simp only: Let_def)
qed

subsection \<open>The treasury\<close>

definition org_treasury_of :: "organization_registry \<Rightarrow> string \<Rightarrow> int option" where
  "org_treasury_of r k = map_option og_treasury_watt (organization r k)"

text \<open>The clock readings are stored and never decide; any will do.\<close>

interpretation org_treasury: treasury org_treasury_of
  "\<lambda>r k a. snd (org_fund_treasury k a now r)" "\<lambda>r k a. snd (org_spend_treasury k a now r)" for now
  by unfold_locales
    (auto simp: org_treasury_of_def organization_def org_fund_treasury_def org_spend_treasury_def
      option.map_comp comp_def intro!: option.map_cong0)

end
