(* ===== verification/Galaxy_Map.thy ===== *)
theory Galaxy_Map
  imports Registry
begin

text \<open>
  The galaxy (\<^verbatim>\<open>src/crates/kernel-core/src/civilization/galaxy.rs\<close>), star maps
  (\<^verbatim>\<open>map/model.rs\<close>), their validation (\<^verbatim>\<open>map/validator.rs\<close>) and the registry of
  maps (\<^verbatim>\<open>map/registry.rs\<close>). Validation is shown equivalent to a declarative description
  of valid maps.
\<close>

subsection \<open>The galaxy\<close>

datatype zone_kind = Genesis | Frontier_zone | DeepSpace

datatype zone_security_mode = Peace | LimitedPvp | OpenPvp

datatype dynamic_event_category = Economic | Spatial | Political

record galaxy_zone =
  gz_zone_id :: string
  gz_name :: string
  gz_kind :: zone_kind
  gz_security_mode :: zone_security_mode
  gz_resource_multiplier :: f64
  gz_description :: string

record dynamic_event =
  de_event_id :: string
  de_category :: dynamic_event_category
  de_zone_id :: string
  de_title :: string
  de_description :: string
  de_severity :: nat
  de_created_at :: int
  de_expires_at :: "int option"
  de_tags :: "string list"

record galaxy_state =
  gs_zones :: "galaxy_zone list"
  gs_events :: "dynamic_event list"

text \<open>The \<^verbatim>\<open>f64\<close> literals 0.1, 0.8 and 1.4 are the binary fractions nearest to these decimals.\<close>

definition f64_0_1 :: f64 where "f64_0_1 = F64_Fin (3602879701896397 / 36028797018963968)"

definition f64_0_8 :: f64 where "f64_0_8 = F64_Fin (3602879701896397 / 4503599627370496)"

definition f64_1_4 :: f64 where "f64_1_4 = F64_Fin (3152519739159347 / 2251799813685248)"

definition default_with_core_zones :: galaxy_state where
  "default_with_core_zones =
     \<lparr>gs_zones =
        [\<lparr>gz_zone_id = ''genesis-core'', gz_name = ''Genesis Core'', gz_kind = Genesis,
          gz_security_mode = Peace, gz_resource_multiplier = F64_Fin 1,
          gz_description = ''Stable starter core with strong institutional guardrails.''\<rparr>,
         \<lparr>gz_zone_id = ''frontier-belt'', gz_name = ''Frontier Belt'', gz_kind = Frontier_zone,
          gz_security_mode = LimitedPvp, gz_resource_multiplier = f64_1_4,
          gz_description = ''Half-governed expansion belt with sovereignty pressure.''\<rparr>,
         \<lparr>gz_zone_id = ''deep-space'', gz_name = ''Deep Space'', gz_kind = DeepSpace,
          gz_security_mode = OpenPvp, gz_resource_multiplier = F64_Fin 2,
          gz_description = ''High-risk void where logistics, war, and salvage dominate.''\<rparr>],
      gs_events = []\<rparr>"

definition zones :: "galaxy_state \<Rightarrow> galaxy_zone list" where
  "zones g = gs_zones g"

definition events :: "galaxy_state \<Rightarrow> string option \<Rightarrow> dynamic_event list" where
  "events g zone_id = filter (\<lambda>e. is_none_or zone_id (\<lambda>zone. de_zone_id e = zone)) (gs_events g)"

datatype galaxy_error = Unknown_galaxy_zone

definition publish_event ::
  "dynamic_event_category \<Rightarrow> string \<Rightarrow> string \<Rightarrow> string \<Rightarrow> nat \<Rightarrow> int option \<Rightarrow> string list \<Rightarrow> string \<Rightarrow> int \<Rightarrow>
   galaxy_state \<Rightarrow> (galaxy_error + dynamic_event) \<times> galaxy_state" where
  "publish_event category zone_id title description severity expires_at tags uuid now g =
     (if \<not> list_ex (\<lambda>z. gz_zone_id z = zone_id) (gs_zones g) then (Err Unknown_galaxy_zone, g)
      else
        let event = \<lparr>de_event_id = uuid, de_category = category, de_zone_id = zone_id, de_title = title,
              de_description = description, de_severity = min severity 10, de_created_at = now,
              de_expires_at = expires_at, de_tags = tags\<rparr>
        in (Ok event, g\<lparr>gs_events := gs_events g @ [event]\<rparr>))"

subsection \<open>Star maps\<close>

datatype planet_kind = Hub | Industrial | Research | Relay | Fortress | Frontier

record map_coordinate =
  mc_x :: int
  mc_y :: int

record planet_node =
  pn_planet_id :: string
  pn_name :: string
  pn_kind :: planet_kind
  pn_zone_id :: string
  pn_subnet_id :: "string option"
  pn_resource_multiplier :: f64
  pn_governance_template :: "string option"

record star_system =
  ss_system_id :: string
  ss_name :: string
  ss_position :: map_coordinate
  ss_description :: string
  ss_planets :: "planet_node list"

record route_edge =
  re_route_id :: string
  re_from_system_id :: string
  re_to_system_id :: string
  re_travel_cost :: nat
  re_risk :: nat
  re_capacity :: nat

record galaxy_map =
  gm_map_id :: string
  gm_name :: string
  gm_description :: string
  gm_official :: bool
  gm_systems :: "star_system list"
  gm_routes :: "route_edge list"
  gm_tags :: "string list"
  gm_created_at :: int
  gm_updated_at :: int

record galaxy_map_summary =
  sm_map_id :: string
  sm_name :: string
  sm_official :: bool
  sm_system_count :: nat
  sm_route_count :: nat
  sm_tags :: "string list"

definition map_summary :: "galaxy_map \<Rightarrow> galaxy_map_summary" where
  "map_summary m =
     \<lparr>sm_map_id = gm_map_id m, sm_name = gm_name m, sm_official = gm_official m,
      sm_system_count = length (gm_systems m), sm_route_count = length (gm_routes m), sm_tags = gm_tags m\<rparr>"

definition default_genesis_map :: "int \<Rightarrow> galaxy_map" where
  "default_genesis_map now =
     \<lparr>gm_map_id = ''genesis-base'', gm_name = ''Genesis Base Map'',
      gm_description = ''Official bootstrap star chart for the initial Wattetheria galaxy network.'',
      gm_official = True,
      gm_systems =
        [\<lparr>ss_system_id = ''genesis-prime'', ss_name = ''Genesis Prime'', ss_position = \<lparr>mc_x = 0, mc_y = 0\<rparr>,
          ss_description = ''Starter system anchored to the protected genesis core.'',
          ss_planets =
            [\<lparr>pn_planet_id = ''planet-main'', pn_name = ''Planet Main'', pn_kind = Hub,
              pn_zone_id = ''genesis-core'', pn_subnet_id = Some ''planet-main'',
              pn_resource_multiplier = F64_Fin 1, pn_governance_template = Some ''migrant_council''\<rparr>,
             \<lparr>pn_planet_id = ''relay-one'', pn_name = ''Relay One'', pn_kind = Relay,
              pn_zone_id = ''genesis-core'', pn_subnet_id = None,
              pn_resource_multiplier = f64_0_8, pn_governance_template = None\<rparr>]\<rparr>,
         \<lparr>ss_system_id = ''frontier-gate'', ss_name = ''Frontier Gate'', ss_position = \<lparr>mc_x = 140, mc_y = 40\<rparr>,
          ss_description = ''Trade and sovereignty corridor leading into the frontier belt.'',
          ss_planets =
            [\<lparr>pn_planet_id = ''planet-test'', pn_name = ''Planet Test'', pn_kind = Frontier,
              pn_zone_id = ''frontier-belt'', pn_subnet_id = Some ''planet-test'',
              pn_resource_multiplier = f64_1_4, pn_governance_template = Some ''freeport_exchange''\<rparr>]\<rparr>,
         \<lparr>ss_system_id = ''abyss-watch'', ss_name = ''Abyss Watch'', ss_position = \<lparr>mc_x = 260, mc_y = - 20\<rparr>,
          ss_description = ''Deep-space observation and defense station.'',
          ss_planets =
            [\<lparr>pn_planet_id = ''deep-watch'', pn_name = ''Deep Watch'', pn_kind = Fortress,
              pn_zone_id = ''deep-space'', pn_subnet_id = None,
              pn_resource_multiplier = F64_Fin 2, pn_governance_template = Some ''fortress_command''\<rparr>]\<rparr>],
      gm_routes =
        [\<lparr>re_route_id = ''route-genesis-frontier'', re_from_system_id = ''genesis-prime'',
          re_to_system_id = ''frontier-gate'', re_travel_cost = 3, re_risk = 2, re_capacity = 10\<rparr>,
         \<lparr>re_route_id = ''route-frontier-abyss'', re_from_system_id = ''frontier-gate'',
          re_to_system_id = ''abyss-watch'', re_travel_cost = 5, re_risk = 7, re_capacity = 6\<rparr>],
      gm_tags = [''official'', ''genesis''], gm_created_at = now, gm_updated_at = now\<rparr>"

subsection \<open>Validation\<close>

datatype map_error =
    No_star_system
  | Empty_system_id
  | Duplicate_system_id string
  | System_without_planet string
  | Empty_planet_id
  | Duplicate_planet_id string
  | Unknown_planet_zone string string
  | Multiplier_out_of_bounds string
  | Duplicate_route_id string
  | Route_to_unknown_system string
  | Route_loops string
  | Route_without_cost string
  | Route_without_capacity string

text \<open>The inner loop over the planets; it returns the planet ids seen so far.\<close>

fun check_planets :: "string btree_set \<Rightarrow> planet_node list \<Rightarrow> string btree_set \<Rightarrow> map_error + string btree_set" where
  "check_planets allowed [] seen = Ok seen"
| "check_planets allowed (p # ps) seen =
     (if blank (pn_planet_id p) then Err Empty_planet_id
      else if bs_member (pn_planet_id p) seen then Err (Duplicate_planet_id (pn_planet_id p))
      else if \<not> bs_member (pn_zone_id p) allowed
      then Err (Unknown_planet_zone (pn_planet_id p) (pn_zone_id p))
      else if \<not> (f64_le f64_0_1 (pn_resource_multiplier p) \<and> f64_le (pn_resource_multiplier p) (F64_Fin 10))
      then Err (Multiplier_out_of_bounds (pn_planet_id p))
      else check_planets allowed ps (bs_insert (pn_planet_id p) seen))"

fun check_systems ::
  "string btree_set \<Rightarrow> star_system list \<Rightarrow> string btree_set \<Rightarrow> string btree_set \<Rightarrow> map_error + string btree_set" where
  "check_systems allowed [] system_ids planet_ids = Ok system_ids"
| "check_systems allowed (s # ss) system_ids planet_ids =
     (if blank (ss_system_id s) then Err Empty_system_id
      else if bs_member (ss_system_id s) system_ids then Err (Duplicate_system_id (ss_system_id s))
      else if ss_planets s = [] then Err (System_without_planet (ss_system_id s))
      else case check_planets allowed (ss_planets s) planet_ids of
             Inl e \<Rightarrow> Err e
           | Inr planet_ids' \<Rightarrow> check_systems allowed ss (bs_insert (ss_system_id s) system_ids) planet_ids')"

fun check_routes :: "string btree_set \<Rightarrow> route_edge list \<Rightarrow> string btree_set \<Rightarrow> map_error + unit" where
  "check_routes system_ids [] seen = Ok ()"
| "check_routes system_ids (r # rs) seen =
     (if bs_member (re_route_id r) seen then Err (Duplicate_route_id (re_route_id r))
      else if \<not> bs_member (re_from_system_id r) system_ids \<or> \<not> bs_member (re_to_system_id r) system_ids
      then Err (Route_to_unknown_system (re_route_id r))
      else if re_from_system_id r = re_to_system_id r then Err (Route_loops (re_route_id r))
      else if re_travel_cost r = 0 then Err (Route_without_cost (re_route_id r))
      else if re_capacity r = 0 then Err (Route_without_capacity (re_route_id r))
      else check_routes system_ids rs (bs_insert (re_route_id r) seen))"

definition validate_map :: "galaxy_map \<Rightarrow> galaxy_zone list \<Rightarrow> map_error + unit" where
  "validate_map m allowed_zones =
     (if gm_systems m = [] then Err No_star_system
      else
        let allowed_zone_ids = bs_of_list (map gz_zone_id allowed_zones)
        in case check_systems allowed_zone_ids (gm_systems m) bempty bempty of
             Inl e \<Rightarrow> Err e
           | Inr system_ids \<Rightarrow> check_routes system_ids (gm_routes m) bempty)"

subsection \<open>The registry of maps\<close>

record galaxy_map_registry =
  mr_maps :: "(string, galaxy_map) btree_map"

definition ensure_default_genesis_map ::
  "galaxy_zone list \<Rightarrow> int \<Rightarrow> galaxy_map_registry \<Rightarrow> (map_error + galaxy_map) \<times> galaxy_map_registry" where
  "ensure_default_genesis_map allowed_zones now r =
     (case bget (mr_maps r) ''genesis-base'' of
        Some m \<Rightarrow> (case validate_map m allowed_zones of Inl e \<Rightarrow> (Err e, r) | Inr _ \<Rightarrow> (Ok m, r))
      | None \<Rightarrow>
        let m = default_genesis_map now
        in case validate_map m allowed_zones of
             Inl e \<Rightarrow> (Err e, r)
           | Inr _ \<Rightarrow> (Ok m, r\<lparr>mr_maps := binsert (gm_map_id m) m (mr_maps r)\<rparr>))"

definition get_map :: "galaxy_map_registry \<Rightarrow> string \<Rightarrow> galaxy_map option" where
  "get_map r map_id = bget (mr_maps r) map_id"

definition list_maps :: "galaxy_map_registry \<Rightarrow> galaxy_map list" where
  "list_maps r = bvalues (mr_maps r)"

subsection \<open>What a valid map is\<close>

definition planet_valid :: "galaxy_zone list \<Rightarrow> planet_node \<Rightarrow> bool" where
  "planet_valid allowed p \<longleftrightarrow>
     \<not> blank (pn_planet_id p) \<and> pn_zone_id p \<in> gz_zone_id ` set allowed
     \<and> f64_le f64_0_1 (pn_resource_multiplier p) \<and> f64_le (pn_resource_multiplier p) (F64_Fin 10)"

definition route_valid :: "string set \<Rightarrow> route_edge \<Rightarrow> bool" where
  "route_valid ids r \<longleftrightarrow>
     re_from_system_id r \<in> ids \<and> re_to_system_id r \<in> ids \<and> re_from_system_id r \<noteq> re_to_system_id r
     \<and> 0 < re_travel_cost r \<and> 0 < re_capacity r"

definition map_valid :: "galaxy_map \<Rightarrow> galaxy_zone list \<Rightarrow> bool" where
  "map_valid m allowed \<longleftrightarrow>
     gm_systems m \<noteq> []
     \<and> distinct (map ss_system_id (gm_systems m))
     \<and> (\<forall>s \<in> set (gm_systems m). \<not> blank (ss_system_id s) \<and> ss_planets s \<noteq> [])
     \<and> distinct (map pn_planet_id (concat (map ss_planets (gm_systems m))))
     \<and> (\<forall>p \<in> set (concat (map ss_planets (gm_systems m))). planet_valid allowed p)
     \<and> distinct (map re_route_id (gm_routes m))
     \<and> (\<forall>r \<in> set (gm_routes m). route_valid (ss_system_id ` set (gm_systems m)) r)"

lemma check_planets_Ok:
  "check_planets (bs_of_list (map gz_zone_id allowed)) ps seen = Ok seen' \<longleftrightarrow>
     list_all (planet_valid allowed) ps \<and> distinct (map pn_planet_id ps)
     \<and> set (map pn_planet_id ps) \<inter> bs_set seen = {} \<and> bs_set seen' = set (map pn_planet_id ps) \<union> bs_set seen"
proof (induction ps arbitrary: seen)
  case Nil
  show ?case by (auto simp: bs_eq_iff)
next
  case (Cons p ps)
  then show ?case by (auto simp: planet_valid_def)
qed

lemma check_systems_Ok:
  "check_systems (bs_of_list (map gz_zone_id allowed)) ss ids planets = Ok ids' \<longleftrightarrow>
     list_all (\<lambda>s. \<not> blank (ss_system_id s) \<and> ss_planets s \<noteq> []) ss
     \<and> distinct (map ss_system_id ss) \<and> set (map ss_system_id ss) \<inter> bs_set ids = {}
     \<and> list_all (planet_valid allowed) (concat (map ss_planets ss))
     \<and> distinct (map pn_planet_id (concat (map ss_planets ss)))
     \<and> set (map pn_planet_id (concat (map ss_planets ss))) \<inter> bs_set planets = {}
     \<and> bs_set ids' = set (map ss_system_id ss) \<union> bs_set ids"
proof (induction ss arbitrary: ids planets)
  case Nil
  show ?case by (auto simp: bs_eq_iff)
next
  case (Cons s ss)
  let ?here = "map pn_planet_id (ss_planets s)" and ?rest = "map pn_planet_id (concat (map ss_planets ss))"
  show ?case
  proof (cases "check_planets (bs_of_list (map gz_zone_id allowed)) (ss_planets s) planets")
    case (Inl e)
    then have "\<not> (list_all (planet_valid allowed) (ss_planets s) \<and> distinct ?here \<and> set ?here \<inter> bs_set planets = {})"
      using check_planets_Ok [of allowed "ss_planets s" planets "bs_of_list (?here @ bs_elems planets)"]
      by (metis (no_types) Inl_Inr_False bs_set_of_list set_append set_bs_elems)
    moreover have "check_systems (bs_of_list (map gz_zone_id allowed)) (s # ss) ids planets \<noteq> Ok ids'"
      using Inl by simp
    ultimately show ?thesis by (simp add: Int_Un_distrib2) blast
  next
    case (Inr seen)
    have here: "list_all (planet_valid allowed) (ss_planets s)" "distinct ?here" "set ?here \<inter> bs_set planets = {}"
      and seen: "bs_set seen = set ?here \<union> bs_set planets"
      using Inr check_planets_Ok [of allowed "ss_planets s" planets seen] by blast+
    have split: "set ?rest \<inter> bs_set seen = {} \<longleftrightarrow> set ?here \<inter> set ?rest = {} \<and> set ?rest \<inter> bs_set planets = {}"
      unfolding seen by blast
    have "distinct (map pn_planet_id (concat (map ss_planets (s # ss)))) \<and>
        set (map pn_planet_id (concat (map ss_planets (s # ss)))) \<inter> bs_set planets = {} \<longleftrightarrow>
        distinct ?rest \<and> set ?rest \<inter> bs_set seen = {}"
      unfolding split using here(2,3) by (simp only: list.map concat.simps map_append distinct_append set_append Int_Un_distrib2) blast
    moreover have "check_systems (bs_of_list (map gz_zone_id allowed)) (s # ss) ids planets = Ok ids' \<longleftrightarrow>
        \<not> blank (ss_system_id s) \<and> ss_system_id s \<notin> bs_set ids \<and> ss_planets s \<noteq> []
        \<and> check_systems (bs_of_list (map gz_zone_id allowed)) ss (bs_insert (ss_system_id s) ids) seen = Ok ids'"
      using Inr by simp
    moreover have "distinct (map ss_system_id (s # ss)) \<and> set (map ss_system_id (s # ss)) \<inter> bs_set ids = {} \<longleftrightarrow>
        ss_system_id s \<notin> bs_set ids \<and> distinct (map ss_system_id ss)
        \<and> set (map ss_system_id ss) \<inter> bs_set (bs_insert (ss_system_id s) ids) = {}"
      by auto
    moreover have "set (map ss_system_id (s # ss)) \<union> bs_set ids =
        set (map ss_system_id ss) \<union> bs_set (bs_insert (ss_system_id s) ids)"
      by simp
    moreover have "list_all (planet_valid allowed) (concat (map ss_planets (s # ss))) \<longleftrightarrow>
        list_all (planet_valid allowed) (concat (map ss_planets ss))"
      using here(1) by simp
    moreover have "list_all (\<lambda>s. \<not> blank (ss_system_id s) \<and> ss_planets s \<noteq> []) (s # ss) \<longleftrightarrow>
        (\<not> blank (ss_system_id s) \<and> ss_planets s \<noteq> [])
        \<and> list_all (\<lambda>s. \<not> blank (ss_system_id s) \<and> ss_planets s \<noteq> []) ss"
      by simp
    ultimately show ?thesis unfolding Cons.IH by argo
  qed
qed

lemma check_routes_Ok:
  "check_routes ids rs seen = Ok () \<longleftrightarrow>
     list_all (route_valid (bs_set ids)) rs \<and> distinct (map re_route_id rs)
     \<and> set (map re_route_id rs) \<inter> bs_set seen = {}"
  by (induction rs arbitrary: seen) (auto simp: route_valid_def)

lemma validate_map_iff: "validate_map m allowed = Ok () \<longleftrightarrow> map_valid m allowed"
proof (cases "check_systems (bs_of_list (map gz_zone_id allowed)) (gm_systems m) bempty bempty")
  case (Inl e)
  with check_systems_Ok [of allowed "gm_systems m" bempty bempty "bs_of_list (map ss_system_id (gm_systems m))"]
  show ?thesis by (auto simp: validate_map_def map_valid_def list_all_iff)
next
  case (Inr ids)
  with check_systems_Ok [of allowed "gm_systems m" bempty bempty ids] show ?thesis
    by (auto simp: validate_map_def map_valid_def check_routes_Ok list_all_iff)
qed

text \<open>
  C24: validation accepts exactly the valid maps. A map passes if and only if it has a star
  system, its system, planet and route ids are unique, system and planet ids are not blank, every
  system has a planet, every planet lies in a known zone with a multiplier between 0.1 and 10, and
  every route joins two different known systems at a positive cost and with a positive capacity.
\<close>

theorem validate_map_correct: "validate_map m allowed = Ok () \<longleftrightarrow> map_valid m allowed"
  by (rule validate_map_iff)

lemma blank_printable: "s \<noteq> [] \<Longrightarrow> list_all printable s \<Longrightarrow> \<not> blank s"
  by (simp add: blank_def trim_printable)

lemma genesis_map_valid: "map_valid (default_genesis_map now) (gs_zones default_with_core_zones)"
  by (simp add: map_valid_def planet_valid_def route_valid_def default_genesis_map_def default_with_core_zones_def
      f64_0_1_def f64_0_8_def f64_1_4_def blank_printable printable_def)

lemma genesis_map_registered:
  "bget (mr_maps r) ''genesis-base'' = None \<Longrightarrow>
     ensure_default_genesis_map (gs_zones default_with_core_zones) now r =
       (Ok (default_genesis_map now), r\<lparr>mr_maps := binsert ''genesis-base'' (default_genesis_map now) (mr_maps r)\<rparr>)"
proof -
  have "validate_map (default_genesis_map now) (gs_zones default_with_core_zones) = Ok ()"
    by (simp only: validate_map_iff genesis_map_valid)
  moreover have "gm_map_id (default_genesis_map now) = ''genesis-base''" by (simp add: default_genesis_map_def)
  moreover assume "bget (mr_maps r) ''genesis-base'' = None"
  ultimately show ?thesis by (simp add: ensure_default_genesis_map_def Let_def)
qed

end
