(* ===== verification/Travel.thy ===== *)
theory Travel
  imports Galaxy_Map
begin

text \<open>
  Routes and travel plans (\<^verbatim>\<open>src/crates/kernel-core/src/map/travel.rs\<close>). The route search is
  Dijkstra's algorithm with a \<^verbatim>\<open>BTreeSet\<close> as its priority queue and \<^verbatim>\<open>saturating_add\<close> for
  the costs. It is shown to end on every map, to find a path whenever there is one, and to find
  one of least cost; the plan built from it never fails after the search has succeeded.
\<close>

subsection \<open>Data\<close>

datatype travel_risk_level = Stable | Guarded | Contested | Volatile

record travel_warning =
  tw_code :: string
  tw_title :: string
  tw_severity :: nat

record travel_option =
  to_from_system_id :: string
  to_to_system_id :: string
  to_route_id :: string
  to_travel_cost :: nat
  to_risk :: nat
  to_risk_level :: travel_risk_level
  to_capacity :: nat
  to_destination_zone_id :: "string option"
  to_warnings :: "travel_warning list"

record travel_leg =
  tl_route_id :: string
  tl_from_system_id :: string
  tl_to_system_id :: string
  tl_travel_cost :: nat
  tl_risk :: nat
  tl_capacity :: nat
  tl_warnings :: "travel_warning list"

record travel_plan_t =
  tp_map_id :: string
  tp_from_system_id :: string
  tp_to_system_id :: string
  tp_total_travel_cost :: nat
  tp_total_risk :: nat
  tp_max_leg_risk :: nat
  tp_risk_level :: travel_risk_level
  tp_traversed_system_ids :: "string list"
  tp_legs :: "travel_leg list"
  tp_warnings :: "travel_warning list"

datatype travel_error =
    Adjacent_route_end
  | No_travel_path
  | Path_reconstruction_failed
  | Route_for_travel_plan
  | Unknown_system_id

subsection \<open>Warnings and risk\<close>

text \<open>
  \<^verbatim>\<open>entry(code).and_modify(..).or_insert(..)\<close>: the warning of a code is replaced by a more
  severe one.
\<close>

definition dedupe_step ::
  "(string, travel_warning) btree_map \<Rightarrow> travel_warning \<Rightarrow> (string, travel_warning) btree_map" where
  "dedupe_step deduped w =
     (case bget deduped (tw_code w) of
        None \<Rightarrow> binsert (tw_code w) w deduped
      | Some existing \<Rightarrow>
          if tw_severity existing < tw_severity w then binsert (tw_code w) w deduped else deduped)"

definition dedupe_warnings :: "travel_warning list \<Rightarrow> travel_warning list" where
  "dedupe_warnings warnings = bvalues (foldl dedupe_step bempty warnings)"

definition event_warning :: "dynamic_event \<Rightarrow> travel_warning" where
  "event_warning e =
     \<lparr>tw_code = (case de_category e of
                    Economic \<Rightarrow> ''economic_pressure''
                  | Spatial \<Rightarrow> ''spatial_hazard''
                  | Political \<Rightarrow> ''political_instability''),
      tw_title = de_title e, tw_severity = de_severity e\<rparr>"

definition primary_zone_id :: "star_system \<Rightarrow> string option" where
  "primary_zone_id s = (case ss_planets s of [] \<Rightarrow> None | p # _ \<Rightarrow> Some (pn_zone_id p))"

definition system_zone_id :: "galaxy_map \<Rightarrow> string \<Rightarrow> string option" where
  "system_zone_id m system_id =
     Option.bind (List.find (\<lambda>s. ss_system_id s = system_id) (gm_systems m)) primary_zone_id"

definition route_warnings :: "galaxy_map \<Rightarrow> galaxy_state \<Rightarrow> route_edge \<Rightarrow> string \<Rightarrow> travel_warning list" where
  "route_warnings m g route destination =
     (let w1 = (if 7 \<le> re_risk route
                then [\<lparr>tw_code = ''route_risk_high'', tw_title = ''High base route risk'',
                       tw_severity = re_risk route\<rparr>] else []);
          w2 = w1 @ (if re_capacity route \<le> 6
                     then [\<lparr>tw_code = ''route_capacity_tight'', tw_title = ''Tight route capacity'',
                            tw_severity = 4\<rparr>] else [])
      in case system_zone_id m destination of
           None \<Rightarrow> w2
         | Some zone_id \<Rightarrow>
             dedupe_warnings (w2 @ map event_warning (filter (\<lambda>e. 6 \<le> de_severity e) (events g (Some zone_id)))))"

text \<open>The sum is over \<^verbatim>\<open>u8\<close> values and wraps; subtraction and the last addition saturate.\<close>

definition route_risk :: "route_edge \<Rightarrow> travel_warning list \<Rightarrow> nat" where
  "route_risk route warnings =
     (let bonus = sum_list (map (\<lambda>w. tw_severity w - 5)
            (filter (\<lambda>w. tw_code w \<noteq> ''route_capacity_tight'') warnings)) mod 256
      in min (sat_add u8_max (re_risk route) bonus) 10)"

definition risk_level :: "nat \<Rightarrow> travel_risk_level" where
  "risk_level risk =
     (if risk \<le> 2 then Stable else if risk \<le> 5 then Guarded else if risk \<le> 7 then Contested else Volatile)"

subsection \<open>Options from a system\<close>

definition other_end :: "route_edge \<Rightarrow> string \<Rightarrow> string option" where
  "other_end route system_id =
     (if re_from_system_id route = system_id then Some (re_to_system_id route)
      else if re_to_system_id route = system_id then Some (re_from_system_id route)
      else None)"

definition travel_options :: "galaxy_map \<Rightarrow> galaxy_state \<Rightarrow> string \<Rightarrow> travel_option list" where
  "travel_options m g from_system_id =
     List.map_filter (\<lambda>route.
       map_option (\<lambda>to_system_id.
         let warnings = route_warnings m g route to_system_id
         in \<lparr>to_from_system_id = from_system_id, to_to_system_id = to_system_id,
             to_route_id = re_route_id route, to_travel_cost = re_travel_cost route,
             to_risk = route_risk route warnings, to_risk_level = risk_level (route_risk route warnings),
             to_capacity = re_capacity route,
             to_destination_zone_id = system_zone_id m to_system_id, to_warnings = warnings\<rparr>)
         (other_end route from_system_id)) (gm_routes m)"

subsection \<open>The route search\<close>

definition ensure_system_exists :: "galaxy_map \<Rightarrow> string \<Rightarrow> travel_error + unit" where
  "ensure_system_exists m system_id =
     (if list_ex (\<lambda>s. ss_system_id s = system_id) (gm_systems m) then Ok () else Err Unknown_system_id)"

definition adjacent_routes :: "galaxy_map \<Rightarrow> string \<Rightarrow> route_edge list" where
  "adjacent_routes m system_id =
     filter (\<lambda>r. re_from_system_id r = system_id \<or> re_to_system_id r = system_id) (gm_routes m)"

record search =
  best :: "(string, nat) btree_map"
  previous :: "(string, string \<times> string) btree_map"
  frontier :: "(nat \<times> string) btree_set"

definition search_start :: "string \<Rightarrow> search" where
  "search_start from_system_id =
     \<lparr>best = binsert from_system_id 0 bempty, previous = bempty,
      frontier = bs_insert (0, from_system_id) bempty\<rparr>"

text \<open>The body of the loop over the adjacent routes.\<close>

definition relax :: "nat \<Rightarrow> string \<Rightarrow> route_edge \<Rightarrow> search \<Rightarrow> travel_error + search" where
  "relax current_cost current_system route st =
     (case other_end route current_system of
        None \<Rightarrow> Err Adjacent_route_end
      | Some next_system \<Rightarrow>
        let next_cost = sat_add u32_max current_cost (re_travel_cost route);
            should_update = is_none_or (bget (best st) next_system) (\<lambda>known_cost. next_cost < known_cost)
        in if should_update
           then let fr = (case bget (best st) next_system of
                            None \<Rightarrow> frontier st
                          | Some old_cost \<Rightarrow> bs_remove (old_cost, next_system) (frontier st))
                in Ok \<lparr>best = binsert next_system next_cost (best st),
                       previous = binsert next_system (current_system, re_route_id route) (previous st),
                       frontier = bs_insert (next_cost, next_system) fr\<rparr>
           else Ok st)"

fun relax_all :: "nat \<Rightarrow> string \<Rightarrow> route_edge list \<Rightarrow> search \<Rightarrow> travel_error + search" where
  "relax_all c s [] st = Ok st"
| "relax_all c s (r # rs) st = (case relax c s r st of Inl e \<Rightarrow> Err e | Inr st' \<Rightarrow> relax_all c s rs st')"

text \<open>\<^verbatim>\<open>BTreeSet::pop_first\<close>.\<close>

definition pop_first :: "'a::linorder btree_set \<Rightarrow> ('a \<times> 'a btree_set) option" where
  "pop_first s = (case bs_elems s of [] \<Rightarrow> None | x # _ \<Rightarrow> Some (x, bs_remove x s))"

text \<open>
  The main loop ends on every map and every state: a relaxation that changes anything lowers the
  sum of the known costs over the ends of the routes, where an unknown cost counts more than any
  \<^verbatim>\<open>u32\<close>; and a round that changes nothing leaves a smaller frontier.
\<close>

definition route_ends :: "galaxy_map \<Rightarrow> string list" where
  "route_ends m = remdups (map re_from_system_id (gm_routes m) @ map re_to_system_id (gm_routes m))"

definition known_cost :: "search \<Rightarrow> string \<Rightarrow> nat" where
  "known_cost st v = (case bget (best st) v of None \<Rightarrow> Suc u32_max | Some c \<Rightarrow> c)"

definition potential :: "galaxy_map \<Rightarrow> search \<Rightarrow> nat" where
  "potential m st = sum (known_cost st) (set (route_ends m))"

lemma relax_potential:
  assumes "r \<in> set (gm_routes m)" and "relax c s r st = Ok st'"
  shows "potential m st' < potential m st \<or> st' = st"
proof (cases "st' = st")
  case False
  from assms(2) obtain v where v: "other_end r s = Some v"
    by (auto simp: relax_def split: option.splits)
  let ?k = "sat_add u32_max c (re_travel_cost r)"
  from False assms(2) v have upd: "is_none_or (bget (best st) v) (\<lambda>k. ?k < k)"
    and best: "best st' = binsert v ?k (best st)"
    by (auto simp: relax_def Let_def split: if_splits)
  have "v \<in> set (route_ends m)"
    using v assms(1) by (auto simp: other_end_def route_ends_def split: if_splits)
  moreover have "known_cost st' v < known_cost st v"
    using upd le_imp_less_Suc [OF sat_add_le [of u32_max c "re_travel_cost r"]]
    by (auto simp: known_cost_def best split: option.splits)
  moreover have "known_cost st' w \<le> known_cost st w" for w
    using \<open>known_cost st' v < known_cost st v\<close> by (cases "w = v") (auto simp: known_cost_def best)
  ultimately show ?thesis unfolding potential_def by (intro disjI1 sum_strict_mono_ex1) auto
qed simp

lemma relax_all_potential:
  "set rs \<subseteq> set (gm_routes m) \<Longrightarrow> relax_all c s rs st = Ok st' \<Longrightarrow> potential m st' < potential m st \<or> st' = st"
proof (induction rs arbitrary: st)
  case (Cons r rs)
  then obtain st1 where st1: "relax c s r st = Ok st1" "relax_all c s rs st1 = Ok st'"
    by (auto split: sum.splits)
  with Cons relax_potential [OF _ st1(1)] show ?case by fastforce
qed simp

lemma pop_first_Some:
  assumes "pop_first s = Some (x, s')"
  shows "x \<in> bs_set s" and "s' = bs_remove x s" and "\<And>y. y \<in> bs_set s \<Longrightarrow> x \<le> y"
    and "bs_set s' = bs_set s - {x}" and "bs_len s' < bs_len s"
proof -
  from assms obtain ys where s: "bs_elems s = x # ys" and s': "s' = bs_remove x s"
    by (auto simp: pop_first_def split: list.splits)
  show mem: "x \<in> bs_set s" by (simp flip: set_bs_elems add: s)
  show "s' = bs_remove x s" by (rule s')
  have "sorted_wrt (<) (bs_elems s)" using sorted_entries [of s] by (simp add: bkeys_def)
  then show "x \<le> y" if "y \<in> bs_set s" for y
    using that by (auto simp flip: set_bs_elems simp: s)
  show set': "bs_set s' = bs_set s - {x}" by (simp add: s')
  show "bs_len s' < bs_len s"
    using card_Diff1_less [OF finite_bs_set mem] by (simp only: bs_len_card set')
qed

lemma pop_first_None: "pop_first s = None \<longleftrightarrow> bs_set s = {}"
  by (auto simp: pop_first_def simp flip: set_bs_elems split: list.splits)

function shortest_loop :: "galaxy_map \<Rightarrow> string \<Rightarrow> search \<Rightarrow> travel_error + search" where
  "shortest_loop m to_system_id st =
     (case pop_first (frontier st) of
        None \<Rightarrow> Ok st
      | Some ((current_cost, current_system), fr) \<Rightarrow>
        let st1 = st\<lparr>frontier := fr\<rparr>
        in if current_system = to_system_id then Ok st1
           else if is_some_and (bget (best st1) current_system) (\<lambda>best_cost. best_cost < current_cost)
           then shortest_loop m to_system_id st1
           else case relax_all current_cost current_system (adjacent_routes m current_system) st1 of
                  Inl e \<Rightarrow> Err e
                | Inr st2 \<Rightarrow> shortest_loop m to_system_id st2)"
  by pat_completeness auto

lemma potential_frontier [simp]: "potential m (st\<lparr>frontier := fr\<rparr>) = potential m st"
  by (simp add: potential_def known_cost_def)

definition search_order :: "((galaxy_map \<times> string \<times> search) \<times> (galaxy_map \<times> string \<times> search)) set" where
  "search_order = inv_image (less_than <*lex*> less_than) (\<lambda>(m, to_system_id, st). (potential m st, bs_len (frontier st)))"

lemma wf_search_order [simp]: "wf search_order"
  unfolding search_order_def by (intro wf_inv_image wf_lex_prod) auto

lemma search_order_pop:
  "pop_first (frontier st) = Some (x, fr) \<Longrightarrow> ((m, t, st\<lparr>frontier := fr\<rparr>), m, t, st) \<in> search_order"
  using pop_first_Some(5) [of "frontier st" x fr] by (simp add: search_order_def)

lemma search_order_relax:
  assumes "pop_first (frontier st) = Some (x, fr)"
    and "relax_all c s (adjacent_routes m s) (st\<lparr>frontier := fr\<rparr>) = Ok st2"
  shows "((m, t, st2), m, t, st) \<in> search_order"
proof -
  have "set (adjacent_routes m s) \<subseteq> set (gm_routes m)" by (auto simp: adjacent_routes_def)
  from relax_all_potential [OF this assms(2)] pop_first_Some(5) [OF assms(1)] show ?thesis
    by (auto simp: search_order_def)
qed

termination shortest_loop
  by (relation search_order)
    (auto simp: search_order_pop search_order_relax)

declare shortest_loop.simps [simp del]

definition shortest_paths ::
  "galaxy_map \<Rightarrow> string \<Rightarrow> string \<Rightarrow> travel_error + (string, string \<times> string) btree_map" where
  "shortest_paths m from_system_id to_system_id =
     (case shortest_loop m to_system_id (search_start from_system_id) of
        Inl e \<Rightarrow> Err e
      | Inr st \<Rightarrow>
          if \<not> bcontains (previous st) to_system_id then Err No_travel_path else Ok (previous st))"

subsection \<open>The plan\<close>

text \<open>
  Following \<open>previous\<close> backwards ends only if it has no cycle; on any other map the value is
  \<open>None\<close>.
\<close>

partial_function (option) reconstruct_loop ::
  "(string, string \<times> string) btree_map \<Rightarrow> string \<Rightarrow> string \<Rightarrow> string list \<Rightarrow> (travel_error + string list) option" where
  "reconstruct_loop prev from_system_id cursor traversed =
     (case bget prev cursor of
        None \<Rightarrow> Some (Err Path_reconstruction_failed)
      | Some (prev_system, _) \<Rightarrow>
          if prev_system = from_system_id then Some (Ok (rev (traversed @ [prev_system])))
          else reconstruct_loop prev from_system_id prev_system (traversed @ [prev_system]))"

definition reconstruct_traversed_systems ::
  "(string, string \<times> string) btree_map \<Rightarrow> string \<Rightarrow> string \<Rightarrow> (travel_error + string list) option" where
  "reconstruct_traversed_systems prev from_system_id to_system_id =
     reconstruct_loop prev from_system_id to_system_id [to_system_id]"

definition route_between :: "galaxy_map \<Rightarrow> string \<Rightarrow> string \<Rightarrow> route_edge option" where
  "route_between m a b =
     List.find (\<lambda>r. re_from_system_id r = a \<and> re_to_system_id r = b
       \<or> re_from_system_id r = b \<and> re_to_system_id r = a) (gm_routes m)"

definition travel_leg_of :: "galaxy_map \<Rightarrow> galaxy_state \<Rightarrow> route_edge \<Rightarrow> string \<Rightarrow> string \<Rightarrow> travel_leg" where
  "travel_leg_of m g route a b =
     (let warnings = route_warnings m g route b
      in \<lparr>tl_route_id = re_route_id route, tl_from_system_id = a, tl_to_system_id = b,
          tl_travel_cost = re_travel_cost route, tl_risk = route_risk route warnings,
          tl_capacity = re_capacity route, tl_warnings = warnings\<rparr>)"

text \<open>The \<^verbatim>\<open>map\<close> over \<^verbatim>\<open>windows(2)\<close>, collected up to the first error.\<close>

fun build_travel_legs :: "galaxy_map \<Rightarrow> galaxy_state \<Rightarrow> string list \<Rightarrow> travel_error + travel_leg list" where
  "build_travel_legs m g (a # b # rest) =
     (case route_between m a b of
        None \<Rightarrow> Err Route_for_travel_plan
      | Some route \<Rightarrow>
        (case build_travel_legs m g (b # rest) of
           Inl e \<Rightarrow> Err e
         | Inr legs \<Rightarrow> Ok (travel_leg_of m g route a b # legs)))"
| "build_travel_legs m g _ = Ok []"

definition travel_plan ::
  "galaxy_map \<Rightarrow> galaxy_state \<Rightarrow> string \<Rightarrow> string \<Rightarrow> (travel_error + travel_plan_t) option" where
  "travel_plan m g from_system_id to_system_id =
     (if from_system_id = to_system_id
      then Some (Ok \<lparr>tp_map_id = gm_map_id m, tp_from_system_id = from_system_id, tp_to_system_id = to_system_id,
             tp_total_travel_cost = 0, tp_total_risk = 0, tp_max_leg_risk = 0, tp_risk_level = Stable,
             tp_traversed_system_ids = [from_system_id], tp_legs = [], tp_warnings = []\<rparr>)
      else case ensure_system_exists m from_system_id of Inl e \<Rightarrow> Some (Err e) | Inr _ \<Rightarrow>
        (case ensure_system_exists m to_system_id of Inl e \<Rightarrow> Some (Err e) | Inr _ \<Rightarrow>
        (case shortest_paths m from_system_id to_system_id of Inl e \<Rightarrow> Some (Err e) | Inr prev \<Rightarrow>
        (case reconstruct_traversed_systems prev from_system_id to_system_id of
           None \<Rightarrow> None
         | Some (Inl e) \<Rightarrow> Some (Err e)
         | Some (Inr traversed) \<Rightarrow>
           (case build_travel_legs m g traversed of Inl e \<Rightarrow> Some (Err e) | Inr legs \<Rightarrow>
              let max_leg_risk = foldr max (map tl_risk legs) 0
              in Some (Ok \<lparr>tp_map_id = gm_map_id m, tp_from_system_id = from_system_id,
                   tp_to_system_id = to_system_id,
                   tp_total_travel_cost = sum_list (map tl_travel_cost legs) mod 2 ^ 32,
                   tp_total_risk = sum_list (map tl_risk legs) mod 2 ^ 32,
                   tp_max_leg_risk = max_leg_risk, tp_risk_level = risk_level max_leg_risk,
                   tp_traversed_system_ids = traversed, tp_legs = legs,
                   tp_warnings = dedupe_warnings (concat (map tl_warnings legs))\<rparr>))))))"

subsection \<open>Walks, and what the search keeps\<close>

inductive walk :: "galaxy_map \<Rightarrow> string \<Rightarrow> string \<Rightarrow> nat \<Rightarrow> bool" for m a where
  walk_start: "walk m a a 0"
| walk_on: "walk m a u k \<Longrightarrow> r \<in> set (gm_routes m) \<Longrightarrow> other_end r u = Some v \<Longrightarrow> walk m a v (k + re_travel_cost r)"

abbreviation route_cost :: "route_edge list \<Rightarrow> nat" where
  "route_cost rs \<equiv> sum_list (map re_travel_cost rs)"

text \<open>A system is settled when its cost is known and it has left the frontier.\<close>

definition settled :: "search \<Rightarrow> string \<Rightarrow> bool" where
  "settled st v \<longleftrightarrow> (\<exists>c. bget (best st) v = Some c \<and> (c, v) \<notin> bs_set (frontier st))"

text \<open>The path the \<open>previous\<close> entries describe; all of its systems but the last are settled.\<close>

inductive tree :: "galaxy_map \<Rightarrow> search \<Rightarrow> string \<Rightarrow> string \<Rightarrow> route_edge list \<Rightarrow> bool" for m st a where
  tree_root: "tree m st a a []"
| tree_grow: "tree m st a u rs \<Longrightarrow> settled st u \<Longrightarrow> bget (previous st) v = Some (u, re_route_id r) \<Longrightarrow>
    r \<in> set (gm_routes m) \<Longrightarrow> other_end r u = Some v \<Longrightarrow> tree m st a v (rs @ [r])"

lemma tree_settled_kept:
  assumes "tree m st a u rs" and "settled st u"
    and "\<And>u. settled st u \<Longrightarrow> settled st' u \<and> bget (previous st') u = bget (previous st) u"
  shows "tree m st' a u rs"
  using assms(1,2)
proof (induction rule: tree.induct)
  case (tree_grow u rs v r)
  with assms(3) [of u] assms(3) [of v] show ?case by (auto intro: tree.tree_grow)
qed (rule tree.tree_root)

lemma tree_kept:
  assumes "tree m st a v rs" and "bget (previous st') v = bget (previous st) v"
    and "\<And>u. settled st u \<Longrightarrow> settled st' u \<and> bget (previous st') u = bget (previous st) u"
  shows "tree m st' a v rs"
  using assms(1)
proof cases
  case (tree_grow u rs' r)
  with tree_settled_kept [OF tree_grow(2,3) assms(3)] assms show ?thesis by (auto intro: tree.tree_grow)
qed (auto intro: tree.tree_root)

text \<open>
  The invariant. \<open>P\<close> says which routes out of settled systems have been relaxed already.
\<close>

definition relaxed :: "galaxy_map \<Rightarrow> search \<Rightarrow> (string \<Rightarrow> route_edge \<Rightarrow> bool) \<Rightarrow> bool" where
  "relaxed m st P \<longleftrightarrow>
     (\<forall>u r v cu. settled st u \<longrightarrow> P u r \<longrightarrow> r \<in> set (gm_routes m) \<longrightarrow> other_end r u = Some v \<longrightarrow>
        bget (best st) u = Some cu \<longrightarrow>
        (\<exists>cv. bget (best st) v = Some cv \<and> cv \<le> sat_add u32_max cu (re_travel_cost r)))"

definition queue_ok :: "search \<Rightarrow> bool" where
  "queue_ok st \<longleftrightarrow>
     (\<forall>c v. (c, v) \<in> bs_set (frontier st) \<longrightarrow> bget (best st) v = Some c)
     \<and> (\<forall>u cu c v. settled st u \<longrightarrow> bget (best st) u = Some cu \<longrightarrow> (c, v) \<in> bs_set (frontier st) \<longrightarrow> cu \<le> c)"

definition settled_below :: "search \<Rightarrow> nat \<Rightarrow> bool" where
  "settled_below st c \<longleftrightarrow> (\<forall>u cu. settled st u \<longrightarrow> bget (best st) u = Some cu \<longrightarrow> cu \<le> c)"

definition search_inv :: "galaxy_map \<Rightarrow> string \<Rightarrow> string \<Rightarrow> search \<Rightarrow> (string \<Rightarrow> route_edge \<Rightarrow> bool) \<Rightarrow> bool" where
  "search_inv m a t st P \<longleftrightarrow>
     bget (best st) a = Some 0 \<and> queue_ok st \<and> relaxed m st P \<and> \<not> settled st t
     \<and> (\<forall>v c. bget (best st) v = Some c \<longrightarrow> (\<exists>rs. tree m st a v rs \<and> c = min u32_max (route_cost rs)))
     \<and> (\<forall>v. bget (previous st) v \<noteq> None \<longleftrightarrow> bget (best st) v \<noteq> None \<and> v \<noteq> a)"

lemma search_inv_start:
  assumes "a \<noteq> t"
  shows "search_inv m a t (search_start a) P"
proof -
  have "\<not> settled (search_start a) v" for v
    by (auto simp: settled_def search_start_def)
  then show ?thesis
    by (auto simp: search_inv_def queue_ok_def relaxed_def search_start_def intro: tree.tree_root)
qed

lemma adjacent_other_end: "r \<in> set (adjacent_routes m s) \<longleftrightarrow> r \<in> set (gm_routes m) \<and> other_end r s \<noteq> None"
  by (auto simp: adjacent_routes_def other_end_def)

subsubsection \<open>One relaxation\<close>

lemma relax_update:
  assumes "other_end r s = Some v" and "k = sat_add u32_max c (re_travel_cost r)"
    and "is_none_or (bget (best st) v) (\<lambda>known. k < known)"
  obtains st' where "relax c s r st = Ok st'"
    and "\<And>w. bget (best st') w = (if w = v then Some k else bget (best st) w)"
    and "\<And>w. bget (previous st') w = (if w = v then Some (s, re_route_id r) else bget (previous st) w)"
    and "bs_set (frontier st') = insert (k, v) {(c', w) \<in> bs_set (frontier st). \<not> (w = v \<and> bget (best st) v = Some c')}"
proof (rule that)
  show "relax c s r st = Ok \<lparr>best = binsert v k (best st), previous = binsert v (s, re_route_id r) (previous st),
      frontier = bs_insert (k, v) (case bget (best st) v of None \<Rightarrow> frontier st | Some old \<Rightarrow> bs_remove (old, v) (frontier st))\<rparr>"
    using assms by (simp add: relax_def Let_def)
qed (auto split: option.splits)

lemma relax_inv:
  assumes inv: "search_inv m a t st P" and s: "settled st s" "bget (best st) s = Some c"
    and top: "settled_below st c"
    and r: "r \<in> set (gm_routes m)" "other_end r s = Some v"
  obtains st' where "relax c s r st = Ok st'" and "search_inv m a t st' (\<lambda>u r'. P u r' \<or> u = s \<and> r' = r)"
    and "\<And>u. settled st' u = settled st u" and "\<And>u. settled st u \<Longrightarrow> bget (best st') u = bget (best st) u"
proof (cases "is_none_or (bget (best st) v) (\<lambda>known. sat_add u32_max c (re_travel_cost r) < known)")
  case False
  then obtain cv where cv: "bget (best st) v = Some cv" "cv \<le> sat_add u32_max c (re_travel_cost r)"
    by (auto simp: is_none_or_iff)
  show thesis
  proof (rule that)
    show "relax c s r st = Ok st" using r(2) False by (simp add: relax_def Let_def)
    show "search_inv m a t st (\<lambda>u r'. P u r' \<or> u = s \<and> r' = r)"
      using inv s cv r by (auto simp: search_inv_def relaxed_def)
  qed auto
next
  case True
  define k where "k = sat_add u32_max c (re_travel_cost r)"
  obtain st' where st': "relax c s r st = Ok st'"
    and best': "\<And>w. bget (best st') w = (if w = v then Some k else bget (best st) w)"
    and prev': "\<And>w. bget (previous st') w = (if w = v then Some (s, re_route_id r) else bget (previous st) w)"
    and front': "bs_set (frontier st') = insert (k, v) {(c', w) \<in> bs_set (frontier st). \<not> (w = v \<and> bget (best st) v = Some c')}"
    using relax_update [OF r(2) k_def True [folded k_def]] by blast
  obtain rs where rs: "tree m st a s rs" "c = min u32_max (route_cost rs)"
    using inv s(2) by (auto simp: search_inv_def)
  have ck: "c \<le> k" unfolding k_def by (rule sat_add_ge_left) (simp add: rs(2))
  have v: "\<not> settled st v"
  proof
    assume v: "settled st v"
    then obtain cv where "bget (best st) v = Some cv" by (auto simp: settled_def)
    with v top True ck show False by (auto simp: k_def settled_below_def)
  qed
  have va: "v \<noteq> a" using True inv by (auto simp: search_inv_def)
  have settled': "settled st' u = settled st u" for u
    using v by (cases "u = v") (auto simp: settled_def best' front')
  have queue: "queue_ok st'"
    using inv top ck v unfolding queue_ok_def search_inv_def settled_below_def
    by (auto simp: best' front' settled' split: if_splits) (metis order_trans settled_def)+
  have rel: "relaxed m st' (\<lambda>u r'. P u r' \<or> u = s \<and> r' = r)"
    unfolding relaxed_def
  proof (intro allI impI, goal_cases)
    case (1 u r' w cu)
    then have u: "settled st u" "bget (best st) u = Some cu" using v by (auto simp: settled' best' split: if_splits)
    show ?case
    proof (cases "w = v")
      case True
      have "k \<le> sat_add u32_max cu (re_travel_cost r')"
      proof (cases "P u r'")
        case True
        then obtain cv where "bget (best st) v = Some cv" "cv \<le> sat_add u32_max cu (re_travel_cost r')"
          using 1 u inv \<open>w = v\<close> unfolding search_inv_def relaxed_def by blast
        with \<open>is_none_or (bget (best st) v) _\<close> show ?thesis by (simp add: k_def)
      next
        case False
        with 1 u s show ?thesis by (simp add: k_def)
      qed
      with True show ?thesis by (simp add: best')
    next
      case False
      with 1 r have "P u r'" by auto
      with 1 u inv False show ?thesis unfolding search_inv_def relaxed_def best' by auto
    qed
  qed
  have kept: "settled st u \<Longrightarrow> settled st' u \<and> bget (previous st') u = bget (previous st) u" for u
    using v by (auto simp: settled' prev')
  have trees: "\<exists>rs. tree m st' a w rs \<and> cw = min u32_max (route_cost rs)" if "bget (best st') w = Some cw" for w cw
  proof (cases "w = v")
    case True
    have "tree m st' a v (rs @ [r])"
      using tree_settled_kept [OF rs(1) s(1) kept] s(1) r by (intro tree.tree_grow) (auto simp: settled' prev')
    moreover have "cw = min u32_max (route_cost (rs @ [r]))"
      using that True by (auto simp: best' k_def rs(2) sat_add_def)
    ultimately show ?thesis using True by blast
  next
    case False
    with that inv obtain rs' where "tree m st a w rs'" "cw = min u32_max (route_cost rs')"
      by (auto simp: search_inv_def best')
    with tree_kept [OF this(1) _ kept] False show ?thesis by (auto simp: prev')
  qed
  show thesis
  proof (rule that [OF st' _ settled'])
    show "search_inv m a t st' (\<lambda>u r'. P u r' \<or> u = s \<and> r' = r)"
      using inv queue rel trees va unfolding search_inv_def by (auto simp: best' prev' settled')
    show "bget (best st') u = bget (best st) u" if "settled st u" for u
      using v that by (auto simp: best')
  qed
qed

lemma relaxedD:
  "relaxed m st P \<Longrightarrow> settled st u \<Longrightarrow> P u r \<Longrightarrow> r \<in> set (gm_routes m) \<Longrightarrow> other_end r u = Some v \<Longrightarrow>
     bget (best st) u = Some cu \<Longrightarrow> \<exists>cv. bget (best st) v = Some cv \<and> cv \<le> sat_add u32_max cu (re_travel_cost r)"
  by (simp add: relaxed_def)

lemma relax_all_inv:
  assumes "search_inv m a t st P" and "settled st s" and "bget (best st) s = Some c"
    and "settled_below st c"
    and "set rs \<subseteq> set (adjacent_routes m s)"
  shows "\<exists>st'. relax_all c s rs st = Ok st' \<and> search_inv m a t st' (\<lambda>u r. P u r \<or> u = s \<and> r \<in> set rs)"
  using assms
proof (induction rs arbitrary: st P)
  case (Cons r rs)
  then obtain v where r: "r \<in> set (gm_routes m)" "other_end r s = Some v"
    by (auto simp: adjacent_other_end)
  obtain st1 where st1: "relax c s r st = Ok st1" "search_inv m a t st1 (\<lambda>u r'. P u r' \<or> u = s \<and> r' = r)"
    and settled1: "\<And>u. settled st1 u = settled st u" and best1: "\<And>u. settled st u \<Longrightarrow> bget (best st1) u = bget (best st) u"
    using relax_inv [OF Cons.prems(1-4) r] by blast
  from Cons.IH [OF st1(2)] Cons.prems obtain st' where "relax_all c s rs st1 = Ok st'"
      "search_inv m a t st' (\<lambda>u r'. (P u r' \<or> u = s \<and> r' = r) \<or> u = s \<and> r' \<in> set rs)"
    by (auto simp: settled1 best1 settled_below_def)
  moreover have "(\<lambda>u r'. (P u r' \<or> u = s \<and> r' = r) \<or> u = s \<and> r' \<in> set rs) =
      (\<lambda>u r'. P u r' \<or> u = s \<and> r' \<in> set (r # rs))"
    by auto
  ultimately show ?case by (simp add: st1)
qed simp

subsubsection \<open>One round\<close>

lemma pop_inv:
  assumes inv: "search_inv m a t st (\<lambda>_ _. True)" and pop: "pop_first (frontier st) = Some ((c, s), fr)"
    and "s \<noteq> t" and st1: "st1 = st\<lparr>frontier := fr\<rparr>"
  shows "search_inv m a t st1 (\<lambda>u _. u \<noteq> s)" and "settled st1 s" and "bget (best st1) s = Some c"
    and "settled_below st1 c"
proof -
  note popped = pop_first_Some [OF pop]
  have queue: "queue_ok st" using inv by (simp add: search_inv_def)
  have cs: "bget (best st) s = Some c" using queue popped(1) by (simp add: queue_ok_def)
  have front: "bs_set (frontier st1) = bs_set (frontier st) - {(c, s)}" using popped(4) by (simp add: st1)
  have settled1: "settled st1 u \<longleftrightarrow> settled st u \<or> u = s" for u
    using cs by (auto simp: settled_def front) (auto simp: st1)
  have same: "best st1 = best st" "previous st1 = previous st" by (simp_all add: st1)
  have least: "c \<le> c'" if "(c', v) \<in> bs_set (frontier st)" for c' v
    using popped(3) [OF that] by auto
  show "settled st1 s" "bget (best st1) s = Some c" using settled1 cs by (simp_all add: same)
  have old: "cu \<le> c" if "settled st u" "bget (best st) u = Some cu" for u cu
    using that queue popped(1) unfolding queue_ok_def by blast
  then show below: "settled_below st1 c"
    using cs by (auto simp: settled_below_def settled1 same)
  have "queue_ok st1"
    unfolding queue_ok_def
  proof (intro conjI allI impI)
    show "bget (best st1) v = Some c'" if "(c', v) \<in> bs_set (frontier st1)" for c' v
      using queue that by (simp add: queue_ok_def front same)
    show "cu \<le> c'" if "settled st1 u" "bget (best st1) u = Some cu" "(c', v) \<in> bs_set (frontier st1)" for u cu c' v
      using below least that order_trans unfolding settled_below_def front by blast
  qed
  moreover have "relaxed m st1 (\<lambda>u _. u \<noteq> s)"
    using inv unfolding search_inv_def relaxed_def settled1 same by blast
  moreover have "tree m st1 a v rs" if "tree m st a v rs" for v rs
    by (rule tree_kept [OF that]) (simp_all add: same settled1)
  then have "\<exists>rs. tree m st1 a v rs \<and> c' = min u32_max (route_cost rs)" if "bget (best st1) v = Some c'" for v c'
    using inv that unfolding search_inv_def same by blast
  ultimately show "search_inv m a t st1 (\<lambda>u _. u \<noteq> s)"
    using inv \<open>s \<noteq> t\<close> unfolding search_inv_def settled1 same by blast
qed

lemma round_inv:
  assumes "search_inv m a t st (\<lambda>_ _. True)" and "pop_first (frontier st) = Some ((c, s), fr)" and "s \<noteq> t"
  shows "\<exists>st2. relax_all c s (adjacent_routes m s) (st\<lparr>frontier := fr\<rparr>) = Ok st2 \<and> search_inv m a t st2 (\<lambda>_ _. True)"
proof -
  note popped = pop_inv [OF assms refl]
  from relax_all_inv [OF popped order_refl] obtain st2
    where st2: "relax_all c s (adjacent_routes m s) (st\<lparr>frontier := fr\<rparr>) = Ok st2"
      and inv: "search_inv m a t st2 (\<lambda>u r. u \<noteq> s \<or> u = s \<and> r \<in> set (adjacent_routes m s))"
    by auto
  have "relaxed m st2 (\<lambda>u r. u \<noteq> s \<or> u = s \<and> r \<in> set (adjacent_routes m s))"
    using inv by (simp add: search_inv_def)
  then have "relaxed m st2 (\<lambda>_ _. True)"
    unfolding relaxed_def [of _ _ "\<lambda>_ _. True"]
    by (intro allI impI) (erule relaxedD, auto simp: adjacent_other_end)
  with inv have "search_inv m a t st2 (\<lambda>_ _. True)"
    unfolding search_inv_def by (elim conjE, intro conjI)
  with st2 show ?thesis by blast
qed

text \<open>The loop ends with an empty frontier, or with the destination as the least entry of it.\<close>

lemma shortest_loop_result:
  assumes "search_inv m a t st (\<lambda>_ _. True)"
  shows "\<exists>st0. search_inv m a t st0 (\<lambda>_ _. True) \<and>
    (bs_set (frontier st0) = {} \<and> shortest_loop m t st = Ok st0
     \<or> (\<exists>c fr. pop_first (frontier st0) = Some ((c, t), fr) \<and> shortest_loop m t st = Ok (st0\<lparr>frontier := fr\<rparr>)))"
  using assms
proof (induction m t st rule: shortest_loop.induct)
  case (1 m t st)
  show ?case
  proof (cases "pop_first (frontier st)")
    case None
    then have "shortest_loop m t st = Ok st" by (subst shortest_loop.simps) simp
    with None 1(3) show ?thesis by (auto simp: pop_first_None)
  next
    case (Some p)
    then obtain c s fr where pop: "pop_first (frontier st) = Some ((c, s), fr)" by (metis prod.exhaust)
    show ?thesis
    proof (cases "s = t")
      case True
      with pop have "shortest_loop m t st = Ok (st\<lparr>frontier := fr\<rparr>)"
        by (subst shortest_loop.simps) (simp add: Let_def)
      with 1(3) pop True show ?thesis by blast
    next
      case False
      have fresh: "\<not> is_some_and (bget (best (st\<lparr>frontier := fr\<rparr>)) s) (\<lambda>b. b < c)"
        using pop_inv(3) [OF 1(3) pop False refl] by simp
      obtain st2 where st2: "relax_all c s (adjacent_routes m s) (st\<lparr>frontier := fr\<rparr>) = Ok st2"
          "search_inv m a t st2 (\<lambda>_ _. True)"
        using round_inv [OF 1(3) pop False] by blast
      have "shortest_loop m t st = shortest_loop m t st2"
        using pop False fresh st2(1) by (subst shortest_loop.simps) (simp add: Let_def)
      with 1(2) [OF pop refl refl refl False fresh st2(1) st2(2)] show ?thesis by simp
    qed
  qed
qed

subsubsection \<open>No walk is cheaper\<close>

lemma walk_bound:
  assumes inv: "search_inv m a t st (\<lambda>_ _. True)" and "walk m a v k"
  shows "(\<exists>c. settled st v \<and> bget (best st) v = Some c \<and> c \<le> k) \<or> (\<exists>c x. (c, x) \<in> bs_set (frontier st) \<and> c \<le> k)"
  using assms(2)
proof (induction rule: walk.induct)
  case walk_start
  have "bget (best st) a = Some 0" using inv by (simp add: search_inv_def)
  then show ?case by (cases "(0, a) \<in> bs_set (frontier st)") (auto simp: settled_def)
next
  case (walk_on u k r v)
  then consider c where "settled st u" "bget (best st) u = Some c" "c \<le> k"
    | c x where "(c, x) \<in> bs_set (frontier st)" "c \<le> k" by blast
  then show ?case
  proof cases
    case 1
    have "relaxed m st (\<lambda>_ _. True)" using inv by (simp add: search_inv_def)
    from relaxedD [OF this 1(1) TrueI walk_on(2,3) 1(2)]
    obtain cv where cv: "bget (best st) v = Some cv" "cv \<le> sat_add u32_max c (re_travel_cost r)" by blast
    then have "cv \<le> k + re_travel_cost r" using 1(3) by (simp add: sat_add_def)
    with cv(1) show ?thesis by (cases "(cv, v) \<in> bs_set (frontier st)") (auto simp: settled_def)
  next
    case 2
    then show ?thesis using trans_le_add1 by blast
  qed
qed

lemma shortest_paths_result:
  assumes "a \<noteq> t"
  shows "(shortest_paths m a t = Err No_travel_path \<and> (\<nexists>k. walk m a t k)) \<or>
    (\<exists>st rs. shortest_paths m a t = Ok (previous st) \<and> tree m st a t rs \<and> bget (previous st) a = None
       \<and> (\<forall>k. walk m a t k \<longrightarrow> min u32_max (route_cost rs) \<le> k))"
proof -
  from shortest_loop_result [OF search_inv_start [OF assms]] obtain st0
    where inv: "search_inv m a t st0 (\<lambda>_ _. True)" and
      "bs_set (frontier st0) = {} \<and> shortest_loop m t (search_start a) = Ok st0
       \<or> (\<exists>c fr. pop_first (frontier st0) = Some ((c, t), fr) \<and> shortest_loop m t (search_start a) = Ok (st0\<lparr>frontier := fr\<rparr>))"
    by blast
  then consider "bs_set (frontier st0) = {}" "shortest_loop m t (search_start a) = Ok st0"
    | c fr where "pop_first (frontier st0) = Some ((c, t), fr)" "shortest_loop m t (search_start a) = Ok (st0\<lparr>frontier := fr\<rparr>)"
    by blast
  then show ?thesis
  proof cases
    case 1
    have "\<not> settled st0 t" using inv by (simp add: search_inv_def)
    with walk_bound [OF inv] 1(1) have "\<nexists>k. walk m a t k" by blast
    moreover have "bget (previous st0) t = None"
      using inv \<open>\<not> settled st0 t\<close> 1(1) unfolding search_inv_def settled_def by blast
    ultimately show ?thesis using 1(2) by (simp add: shortest_paths_def)
  next
    case 2
    note popped = pop_first_Some [OF 2(1)]
    have t: "bget (best st0) t = Some c" using inv popped(1) by (simp add: search_inv_def queue_ok_def)
    then obtain rs where rs: "tree m st0 a t rs" "c = min u32_max (route_cost rs)"
      using inv by (auto simp: search_inv_def)
    have "c \<le> k" if "walk m a t k" for k
      using walk_bound [OF inv that] inv popped(3) by (fastforce simp: search_inv_def)
    moreover have "bget (previous st0) t \<noteq> None" "bget (previous st0) a = None"
      using inv t assms unfolding search_inv_def by auto
    ultimately show ?thesis
      using 2(2) rs by (auto simp: shortest_paths_def)
  qed
qed

subsection \<open>From the search to the plan\<close>

text \<open>The systems a list of routes leads through.\<close>

fun follow :: "string \<Rightarrow> route_edge list \<Rightarrow> string list" where
  "follow a [] = [a]"
| "follow a (r # rs) = a # follow (the (other_end r a)) rs"

fun connected :: "galaxy_map \<Rightarrow> string \<Rightarrow> route_edge list \<Rightarrow> bool" where
  "connected m a [] = True"
| "connected m a (r # rs) = (r \<in> set (gm_routes m) \<and> other_end r a \<noteq> None \<and> connected m (the (other_end r a)) rs)"

lemma follow_nonempty [simp]: "follow a rs \<noteq> []"
  by (cases rs) auto

lemma follow_snoc: "follow a (rs @ [r]) = follow a rs @ [the (other_end r (last (follow a rs)))]"
  by (induction rs arbitrary: a) auto

lemma connected_snoc:
  "connected m a (rs @ [r]) \<longleftrightarrow> connected m a rs \<and> r \<in> set (gm_routes m) \<and> other_end r (last (follow a rs)) \<noteq> None"
  by (induction rs arbitrary: a) auto

lemma tree_connected: "tree m st a v rs \<Longrightarrow> connected m a rs \<and> last (follow a rs) = v"
  by (induction rule: tree.induct) (auto simp: connected_snoc follow_snoc)

lemma tree_reconstruct:
  assumes "tree m st a v rs" and "bget (previous st) a = None" and "v \<noteq> a"
  shows "reconstruct_loop (previous st) a v acc = Some (Ok (butlast (follow a rs) @ rev acc))"
  using assms
proof (induction arbitrary: acc rule: tree.induct)
  case (tree_grow u rs v r)
  have follow: "butlast (follow a (rs @ [r])) = follow a rs" by (simp add: follow_snoc)
  show ?case
  proof (cases "u = a")
    case True
    with tree_grow have "rs = []" by (cases rule: tree.cases) auto
    with True tree_grow show ?thesis by (subst reconstruct_loop.simps) (simp add: follow)
  next
    case False
    have "last (follow a rs) = u" using tree_connected [OF tree_grow(1)] by simp
    then have "butlast (follow a rs) @ [u] = follow a rs" by (metis append_butlast_last_id follow_nonempty)
    with False tree_grow show ?thesis
      by (subst reconstruct_loop.simps) (simp add: follow)
  qed
qed simp

lemma shortest_paths_reconstruct:
  assumes "tree m st a t rs" and "bget (previous st) a = None" and "t \<noteq> a"
  shows "reconstruct_traversed_systems (previous st) a t = Some (Ok (follow a rs))"
proof -
  have "last (follow a rs) = t" using tree_connected [OF assms(1)] by simp
  then have "butlast (follow a rs) @ [t] = follow a rs" by (metis append_butlast_last_id follow_nonempty)
  with tree_reconstruct [OF assms, of "[t]"] show ?thesis by (simp add: reconstruct_traversed_systems_def)
qed

definition joins :: "route_edge \<Rightarrow> string \<Rightarrow> string \<Rightarrow> bool" where
  "joins r a b \<longleftrightarrow> re_from_system_id r = a \<and> re_to_system_id r = b \<or> re_from_system_id r = b \<and> re_to_system_id r = a"

lemma joins_other_end: "joins r a b \<longleftrightarrow> other_end r a = Some b"
  by (auto simp: joins_def other_end_def)

lemma route_between_joins:
  assumes "r \<in> set (gm_routes m)" and "other_end r a = Some b"
  obtains r' where "route_between m a b = Some r'" and "r' \<in> set (gm_routes m)" and "joins r' a b"
proof (cases "route_between m a b")
  case None
  with assms show thesis unfolding route_between_def joins_def [symmetric] find_None_iff2 joins_other_end by blast
next
  case (Some r')
  with find_Some_iff2 [OF Some [unfolded route_between_def]] that show thesis by (auto simp: joins_def)
qed

text \<open>Two routes between the same systems cost the same.\<close>

definition no_dearer_parallels :: "galaxy_map \<Rightarrow> bool" where
  "no_dearer_parallels m \<longleftrightarrow>
     (\<forall>r \<in> set (gm_routes m). \<forall>r' \<in> set (gm_routes m). \<forall>a b. joins r a b \<longrightarrow> joins r' a b \<longrightarrow>
        re_travel_cost r = re_travel_cost r')"

definition leg_on_map :: "galaxy_map \<Rightarrow> travel_leg \<Rightarrow> bool" where
  "leg_on_map m leg \<longleftrightarrow>
     (\<exists>r \<in> set (gm_routes m). joins r (tl_from_system_id leg) (tl_to_system_id leg)
        \<and> tl_route_id leg = re_route_id r \<and> tl_travel_cost leg = re_travel_cost r)"

lemma build_legs:
  assumes "connected m a rs"
  shows "\<exists>legs. build_travel_legs m g (follow a rs) = Ok legs \<and> list_all (leg_on_map m) legs
    \<and> a # map tl_to_system_id legs = follow a rs \<and> map tl_from_system_id legs = butlast (follow a rs)
    \<and> (no_dearer_parallels m \<longrightarrow> map tl_travel_cost legs = map re_travel_cost rs)"
  using assms
proof (induction rs arbitrary: a)
  case (Cons r rs)
  then obtain b where r: "r \<in> set (gm_routes m)" "other_end r a = Some b" by auto
  from r obtain r' where r': "route_between m a b = Some r'" "r' \<in> set (gm_routes m)" "joins r' a b"
    by (rule route_between_joins)
  from Cons r obtain legs where legs: "build_travel_legs m g (follow b rs) = Ok legs" "list_all (leg_on_map m) legs"
      "b # map tl_to_system_id legs = follow b rs" "map tl_from_system_id legs = butlast (follow b rs)"
      "no_dearer_parallels m \<longrightarrow> map tl_travel_cost legs = map re_travel_cost rs"
    by auto
  have "leg_on_map m (travel_leg_of m g r' a b)"
    using r' by (auto simp: leg_on_map_def travel_leg_of_def Let_def)
  moreover have "no_dearer_parallels m \<longrightarrow> re_travel_cost r' = re_travel_cost r"
    using r r' unfolding no_dearer_parallels_def joins_other_end by blast
  moreover obtain ns where "follow b rs = b # ns" using legs(3) by metis
  ultimately show ?case using r r' legs by (auto simp: travel_leg_of_def Let_def)
qed simp

lemma connected_walk: "connected m b rs \<Longrightarrow> walk m a b k \<Longrightarrow> walk m a (last (follow b rs)) (k + route_cost rs)"
proof (induction rs arbitrary: b k)
  case (Cons r rs)
  then obtain c where r: "r \<in> set (gm_routes m)" "other_end r b = Some c" by auto
  with Cons.IH [of c "k + re_travel_cost r"] Cons.prems walk_on [OF Cons.prems(2) r] show ?case
    by (simp add: add.assoc)
qed simp

definition system_known :: "galaxy_map \<Rightarrow> string \<Rightarrow> bool" where
  "system_known m s \<longleftrightarrow> s \<in> ss_system_id ` set (gm_systems m)"

lemma ensure_system_exists_iff:
  "ensure_system_exists m s = (if system_known m s then Ok () else Err Unknown_system_id)"
  by (auto simp: ensure_system_exists_def system_known_def list_ex_iff)

text \<open>The three ways in which a plan between two different systems ends.\<close>

lemma travel_plan_cases:
  assumes "a \<noteq> t"
  obtains (unknown) "\<not> (system_known m a \<and> system_known m t)" "travel_plan m g a t = Some (Err Unknown_system_id)"
  | (no_path) "system_known m a" "system_known m t" "\<nexists>k. walk m a t k" "travel_plan m g a t = Some (Err No_travel_path)"
  | (found) rs legs p where "system_known m a" "system_known m t" "connected m a rs" "last (follow a rs) = t"
      "\<forall>k. walk m a t k \<longrightarrow> min u32_max (route_cost rs) \<le> k"
      "build_travel_legs m g (follow a rs) = Ok legs" "travel_plan m g a t = Some (Ok p)"
      "tp_legs p = legs" "tp_traversed_system_ids p = follow a rs"
      "tp_total_travel_cost p = sum_list (map tl_travel_cost legs) mod 2 ^ 32"
proof (cases "system_known m a \<and> system_known m t")
  case False
  then show thesis using assms by (intro unknown) (auto simp: travel_plan_def ensure_system_exists_iff)
next
  case True
  from shortest_paths_result [OF assms] consider
      "shortest_paths m a t = Err No_travel_path" "\<nexists>k. walk m a t k"
    | st rs where "shortest_paths m a t = Ok (previous st)" "tree m st a t rs" "bget (previous st) a = None"
        "\<forall>k. walk m a t k \<longrightarrow> min u32_max (route_cost rs) \<le> k"
    by blast
  then show thesis
  proof cases
    case 1
    with True assms show thesis by (intro no_path) (auto simp: travel_plan_def ensure_system_exists_iff)
  next
    case 2
    note con = tree_connected [OF 2(2)]
    from build_legs con obtain legs where legs: "build_travel_legs m g (follow a rs) = Ok legs" by blast
    have rec: "reconstruct_traversed_systems (previous st) a t = Some (Ok (follow a rs))"
      using shortest_paths_reconstruct [OF 2(2,3)] assms by simp
    obtain p where "travel_plan m g a t = Some (Ok p)" "tp_legs p = legs" "tp_traversed_system_ids p = follow a rs"
        "tp_total_travel_cost p = sum_list (map tl_travel_cost legs) mod 2 ^ 32"
      using True assms by (simp add: travel_plan_def ensure_system_exists_iff 2(1) rec legs Let_def)
    with True con 2(4) legs show thesis by (intro found) auto
  qed
qed

text \<open>
  C23: planning always ends and fails for the right reasons only. On every map, every galaxy and
  every pair of systems a result is returned; it is a plan exactly when the two systems are the
  same or both are on the map and some sequence of routes joins them; otherwise the error is that
  a system is unknown, or that there is no path. The search loop and the reconstruction of the
  path never run forever, and the internal failures (a route without its other end, a broken
  chain, a missing route) never occur.
\<close>

theorem travel_plan_total:
  "\<exists>result. travel_plan m g a b = Some result
     \<and> (is_ok result \<longleftrightarrow> a = b \<or> system_known m a \<and> system_known m b \<and> (\<exists>k. walk m a b k))
     \<and> (case result of
          Inr p \<Rightarrow> tp_from_system_id p = a \<and> tp_to_system_id p = b
        | Inl e \<Rightarrow> e = (if system_known m a \<and> system_known m b then No_travel_path else Unknown_system_id))"
proof (cases "a = b")
  case True
  then show ?thesis by (simp add: travel_plan_def)
next
  case False
  then show ?thesis
  proof (cases rule: travel_plan_cases [where m = m and g = g])
    case (found rs legs p)
    have "walk m a b (0 + route_cost rs)"
      using connected_walk [OF found(3) walk_start] found(4) by simp
    moreover have "tp_from_system_id p = a \<and> tp_to_system_id p = b"
      using found(7) False by (auto simp: travel_plan_def Let_def split: sum.splits option.splits)
    ultimately show ?thesis using found by auto
  qed (use False in auto)
qed

text \<open>
  C22: a plan is a cheapest one. The legs of a plan follow routes of the map from the first system
  to the last without a gap, their costs are those of the routes, and no sequence of routes
  between the two systems costs less, up to the largest \<^verbatim>\<open>u32\<close> at which the costs saturate.
  The map must not have two routes of different cost between the same two systems: the search
  keeps the cheaper one, but the leg is built from the first one in the list.
\<close>

theorem travel_plan_shortest:
  assumes "travel_plan m g a b = Some (Ok p)" and "a \<noteq> b" and "no_dearer_parallels m" and "walk m a b k"
  shows "list_all (leg_on_map m) (tp_legs p)
    \<and> a # map tl_to_system_id (tp_legs p) = tp_traversed_system_ids p
    \<and> map tl_from_system_id (tp_legs p) @ [b] = tp_traversed_system_ids p
    \<and> min u32_max (sum_list (map tl_travel_cost (tp_legs p))) \<le> k
    \<and> walk m a b (sum_list (map tl_travel_cost (tp_legs p)))
    \<and> tp_total_travel_cost p = sum_list (map tl_travel_cost (tp_legs p)) mod 2 ^ 32"
  using assms(2)
proof (cases rule: travel_plan_cases [where m = m and g = g])
  case (found rs legs p')
  from found(7) assms(1) have p: "p' = p" by simp
  from build_legs [OF found(3), of g] found(6) have legs: "list_all (leg_on_map m) legs"
      "a # map tl_to_system_id legs = follow a rs" "map tl_from_system_id legs = butlast (follow a rs)"
      "map tl_travel_cost legs = map re_travel_cost rs"
    using assms(3) by auto
  have "butlast (follow a rs) @ [b] = follow a rs"
    using found(4) by (metis append_butlast_last_id follow_nonempty)
  moreover have "walk m a b (0 + route_cost rs)"
    using connected_walk [OF found(3) walk_start] found(4) by simp
  ultimately show ?thesis
    using found(5,8-10) legs assms(4) by (auto simp: p)
qed (use assms in auto)

lemma travel_plan_shortest_witness:
  "\<exists>p. travel_plan (default_genesis_map 0) default_with_core_zones ''genesis-prime'' ''abyss-watch'' = Some (Ok p)
     \<and> sum_list (map tl_travel_cost (tp_legs p)) \<le> 8"
proof -
  let ?m = "default_genesis_map 0" and ?g = default_with_core_zones
  let ?out = "gm_routes ?m ! 0" and ?on = "gm_routes ?m ! 1"
  have out: "?out \<in> set (gm_routes ?m)" "other_end ?out ''genesis-prime'' = Some ''frontier-gate''"
    and on: "?on \<in> set (gm_routes ?m)" "other_end ?on ''frontier-gate'' = Some ''abyss-watch''"
    and cost: "re_travel_cost ?out + re_travel_cost ?on = 8"
    by (simp_all add: default_genesis_map_def other_end_def)
  have w: "walk ?m ''genesis-prime'' ''abyss-watch'' 8"
    using walk_on [OF walk_on [OF walk_start out] on] unfolding add_0 cost .
  have known: "system_known ?m ''genesis-prime''" "system_known ?m ''abyss-watch''"
    by (simp_all add: system_known_def default_genesis_map_def)
  have "''genesis-prime'' \<noteq> ''abyss-watch''" by simp
  then obtain p where p: "travel_plan ?m ?g ''genesis-prime'' ''abyss-watch'' = Some (Ok p)"
    by (cases rule: travel_plan_cases [where m = ?m and g = ?g]) (use known w in auto)
  have routes: "set (gm_routes ?m) = {?out, ?on}"
    and ends: "re_from_system_id ?out = ''genesis-prime''" "re_to_system_id ?out = ''frontier-gate''"
      "re_from_system_id ?on = ''frontier-gate''" "re_to_system_id ?on = ''abyss-watch''"
    by (simp_all add: default_genesis_map_def)
  have "\<not> (joins ?out a b \<and> joins ?on a b)" for a b
    unfolding joins_def ends by auto
  then have "no_dearer_parallels ?m"
    unfolding no_dearer_parallels_def routes by blast
  from travel_plan_shortest [OF p _ this w] have "min u32_max (sum_list (map tl_travel_cost (tp_legs p))) \<le> 8"
    by simp
  with p show ?thesis by (auto simp: u32_max_def min_def split: if_splits)
qed

end
