(* ===== verification/Travel_State.thy ===== *)
theory Travel_State
  imports Travel Missions Governance
begin

text \<open>
  Where travellers are (\<^verbatim>\<open>src/crates/kernel-core/src/map/state.rs\<close>) and what an arrival means
  for them (\<^verbatim>\<open>map/consequence.rs\<close>): the registry of positions and sessions, and the
  consequence computed from the mission board and the governance engine.
\<close>

subsection \<open>Consequences of an arrival\<close>

record travel_position =
  tq_map_id :: string
  tq_system_id :: string
  tq_planet_id :: "string option"
  tq_zone_id :: "string option"
  tq_updated_at :: int

datatype travel_session_status = InTransit

record travel_session =
  tn_session_id :: string
  tn_map_id :: string
  tn_from_system_id :: string
  tn_to_system_id :: string
  tn_plan :: travel_plan_t
  tn_status :: travel_session_status
  tn_departed_at :: int
  tn_updated_at :: int

record travel_mission_highlight =
  mh_mission_id :: string
  mh_title :: string
  mh_domain :: mission_domain

record travel_mission_impact =
  mi_open_local_count :: nat
  mi_eligible_local_count :: nat
  mi_highlighted :: "travel_mission_highlight list"

record travel_governance_impact =
  gi_subnet_id :: string
  gi_planet_name :: string
  gi_government_status :: government_status
  gi_stability :: int
  gi_treasury_watt :: int

record travel_consequence =
  tc_consequence_id :: string
  tc_public_id :: string
  tc_map_id :: string
  tc_system_id :: string
  tc_planet_id :: "string option"
  tc_zone_id :: "string option"
  tc_route_risk_level :: travel_risk_level
  tc_route_total_risk :: nat
  tc_warning_codes :: "string list"
  tc_mission_impact :: travel_mission_impact
  tc_governance_impact :: "travel_governance_impact option"
  tc_summary :: string
  tc_created_at :: int

definition mission_matches_destination :: "'v civil_mission \<Rightarrow> travel_position \<Rightarrow> bool" where
  "mission_matches_destination m position \<longleftrightarrow>
     cm_subnet_id m = tq_planet_id position \<or> cm_zone_id m = tq_zone_id position"

definition mission_matches_profile :: "'v civil_mission \<Rightarrow> citizen_profile option \<Rightarrow> bool" where
  "mission_matches_profile m prof \<longleftrightarrow>
     is_none_or (cm_required_role m) (\<lambda>required. is_some_and prof (\<lambda>p. cz_role p = required))
     \<and> is_none_or (cm_required_faction m) (\<lambda>required. is_some_and prof (\<lambda>p. cz_faction p = required))"

definition find_subnet_for_planet :: "galaxy_map \<Rightarrow> string \<Rightarrow> string option" where
  "find_subnet_for_planet m planet_id =
     Option.bind (List.find (\<lambda>p. pn_planet_id p = planet_id) (concat (map ss_planets (gm_systems m)))) pn_subnet_id"

definition government_status_label :: "government_status \<Rightarrow> string" where
  "government_status_label status =
     (case status of
        GovActive \<Rightarrow> ''active''
      | GovRecall \<Rightarrow> ''under recall''
      | GovCustody \<Rightarrow> ''in custody'')"

definition risk_label :: "travel_risk_level \<Rightarrow> string" where
  "risk_label level =
     (case level of Stable \<Rightarrow> ''stable'' | Guarded \<Rightarrow> ''guarded'' | Contested \<Rightarrow> ''contested'' | Volatile \<Rightarrow> ''volatile'')"

definition build_summary ::
  "galaxy_map \<Rightarrow> travel_position \<Rightarrow> travel_risk_level \<Rightarrow> travel_mission_impact \<Rightarrow>
   travel_governance_impact option \<Rightarrow> string" where
  "build_summary m position level impact governance_impact =
     (let system_name = (case List.find (\<lambda>s. ss_system_id s = tq_system_id position) (gm_systems m) of
                           None \<Rightarrow> tq_system_id position | Some s \<Rightarrow> ss_name s);
          mission_clause = dec_str (mi_eligible_local_count impact)
            @ '' eligible local missions are now reachable in '' @ system_name;
          governance_clause = (case governance_impact of
             None \<Rightarrow> ''no governed subnet is anchored to the current landing point''
           | Some i \<Rightarrow> gi_planet_name i @ '' is '' @ government_status_label (gi_government_status i)
               @ '' with stability '' @ dec_int (gi_stability i))
      in mission_clause @ ''; route conditions were '' @ risk_label level @ ''; '' @ governance_clause @ ''.'')"

text \<open>\<open>t1\<close> and \<open>t2\<close> are the readings for the id and for \<^verbatim>\<open>created_at\<close>.\<close>

definition evaluate_arrival_consequence ::
  "string \<Rightarrow> galaxy_map \<Rightarrow> travel_position \<Rightarrow> travel_session \<Rightarrow> citizen_profile option \<Rightarrow> 'v mission_board \<Rightarrow>
   'w governance_engine \<Rightarrow> int \<Rightarrow> int \<Rightarrow> travel_consequence" where
  "evaluate_arrival_consequence public_id m position session prof missions governance t1 t2 =
     (let local_open = filter (\<lambda>x. mission_matches_destination x position) (list_missions missions (Some MOpen));
          eligible_local = filter (\<lambda>x. mission_matches_profile x prof) local_open;
          governance_impact =
            map_option (\<lambda>p. \<lparr>gi_subnet_id = sp_subnet_id p, gi_planet_name = sp_name p,
                gi_government_status = sp_government_status p, gi_stability = sp_stability p,
                gi_treasury_watt = sp_treasury_watt p\<rparr>)
              (Option.bind (Option.bind (tq_planet_id position) (find_subnet_for_planet m)) (planet governance));
          highlighted = map (\<lambda>x. \<lparr>mh_mission_id = cm_mission_id x, mh_title = cm_title x, mh_domain = cm_domain x\<rparr>)
              (take 3 eligible_local);
          mission_impact = \<lparr>mi_open_local_count = length local_open,
              mi_eligible_local_count = length eligible_local, mi_highlighted = highlighted\<rparr>
      in \<lparr>tc_consequence_id = ''travel-effect-'' @ public_id @ ''-'' @ dec_int t1, tc_public_id = public_id,
          tc_map_id = tq_map_id position, tc_system_id = tq_system_id position,
          tc_planet_id = tq_planet_id position, tc_zone_id = tq_zone_id position,
          tc_route_risk_level = tp_risk_level (tn_plan session),
          tc_route_total_risk = tp_total_risk (tn_plan session),
          tc_warning_codes = map tw_code (tp_warnings (tn_plan session)),
          tc_mission_impact = mission_impact, tc_governance_impact = governance_impact,
          tc_summary = build_summary m position (tp_risk_level (tn_plan session)) mission_impact governance_impact,
          tc_created_at = t2\<rparr>)"

subsection \<open>The registry of travellers\<close>

record travel_state_record =
  ts_public_id :: string
  ts_controller_id :: string
  ts_current_position :: travel_position
  ts_active_session :: "travel_session option"
  ts_last_consequence :: "travel_consequence option"
  ts_recent_consequences :: "travel_consequence list"
  ts_updated_at :: int

record travel_state_registry =
  tr_records :: "(string, travel_state_record) btree_map"

datatype travel_state_error =
    Travel_state_missing
  | Controller_mismatch
  | Session_already_active
  | Origin_map_mismatch
  | Origin_position_mismatch
  | No_active_session

definition get_travel_state :: "travel_state_registry \<Rightarrow> string \<Rightarrow> travel_state_record option" where
  "get_travel_state r public_id = bget (tr_records r) public_id"

definition fresh_travel_state :: "string \<Rightarrow> string \<Rightarrow> travel_position \<Rightarrow> int \<Rightarrow> travel_state_record" where
  "fresh_travel_state public_id controller_id position now =
     \<lparr>ts_public_id = public_id, ts_controller_id = controller_id, ts_current_position = position,
      ts_active_session = None, ts_last_consequence = None, ts_recent_consequences = [], ts_updated_at = now\<rparr>"

definition set_position ::
  "string \<Rightarrow> string \<Rightarrow> travel_position \<Rightarrow> int \<Rightarrow> travel_state_registry \<Rightarrow>
   travel_state_record \<times> travel_state_registry" where
  "set_position public_id controller_id position now r =
     (let record = fresh_travel_state public_id controller_id position now
      in (record, r\<lparr>tr_records := binsert public_id record (tr_records r)\<rparr>))"

definition ensure_position ::
  "string \<Rightarrow> string \<Rightarrow> travel_position \<Rightarrow> int \<Rightarrow> travel_state_registry \<Rightarrow>
   travel_state_record \<times> travel_state_registry" where
  "ensure_position public_id controller_id position now r =
     (case bget (tr_records r) public_id of
        Some existing \<Rightarrow> (existing, r)
      | None \<Rightarrow> set_position public_id controller_id position now r)"

definition modify_traveller ::
  "string \<Rightarrow> (travel_state_record \<Rightarrow> (travel_state_error + travel_state_record) \<times> travel_state_record) \<Rightarrow>
   travel_state_registry \<Rightarrow> (travel_state_error + travel_state_record) \<times> travel_state_registry" where
  "modify_traveller public_id f r =
     (let (res, rs) = bmodify Travel_state_missing public_id f (tr_records r) in (res, r\<lparr>tr_records := rs\<rparr>))"

definition depart ::
  "string \<Rightarrow> string \<Rightarrow> travel_plan_t \<Rightarrow> int \<Rightarrow> travel_state_registry \<Rightarrow>
   (travel_state_error + travel_state_record) \<times> travel_state_registry" where
  "depart public_id controller_id plan now =
     modify_traveller public_id (\<lambda>x.
       if ts_controller_id x \<noteq> controller_id then (Err Controller_mismatch, x)
       else if ts_active_session x \<noteq> None then (Err Session_already_active, x)
       else if tq_map_id (ts_current_position x) \<noteq> tp_map_id plan then (Err Origin_map_mismatch, x)
       else if tq_system_id (ts_current_position x) \<noteq> tp_from_system_id plan
       then (Err Origin_position_mismatch, x)
       else leaves (x\<lparr>ts_active_session :=
              Some \<lparr>tn_session_id = ''travel-'' @ public_id @ ''-'' @ dec_int now, tn_map_id = tp_map_id plan,
                    tn_from_system_id = tp_from_system_id plan, tn_to_system_id = tp_to_system_id plan,
                    tn_plan = plan, tn_status = InTransit, tn_departed_at = now, tn_updated_at = now\<rparr>,
              ts_updated_at := now\<rparr>))"

text \<open>The last eight entries: \<^verbatim>\<open>drain(..len - 8)\<close>.\<close>

definition keep_recent :: "'a list \<Rightarrow> 'a list" where
  "keep_recent xs = (if 8 < length xs then drop (length xs - 8) xs else xs)"

definition arrive_with ::
  "string \<Rightarrow> string \<Rightarrow> travel_position \<Rightarrow> travel_consequence option \<Rightarrow> int \<Rightarrow> travel_state_registry \<Rightarrow>
   (travel_state_error + travel_state_record) \<times> travel_state_registry" where
  "arrive_with public_id controller_id position consequence now =
     modify_traveller public_id (\<lambda>x.
       if ts_controller_id x \<noteq> controller_id then (Err Controller_mismatch, x)
       else if ts_active_session x = None then (Err No_active_session, x)
       else
         let x1 = x\<lparr>ts_active_session := None, ts_current_position := position\<lparr>tq_updated_at := now\<rparr>\<rparr>;
             x2 = (case consequence of
                     None \<Rightarrow> x1
                   | Some c \<Rightarrow> x1\<lparr>ts_last_consequence := Some c,
                                   ts_recent_consequences := keep_recent (ts_recent_consequences x1 @ [c])\<rparr>)
         in leaves (x2\<lparr>ts_updated_at := now\<rparr>))"

text \<open>\<open>t1\<close> is the reading for the position, \<open>t2\<close> that of \<open>arrive_with\<close>, which overwrites it.\<close>

definition arrive ::
  "string \<Rightarrow> string \<Rightarrow> int \<Rightarrow> int \<Rightarrow> travel_state_registry \<Rightarrow>
   (travel_state_error + travel_state_record) \<times> travel_state_registry" where
  "arrive public_id controller_id t1 t2 r =
     (case bget (tr_records r) public_id of
        None \<Rightarrow> (Err Travel_state_missing, r)
      | Some x \<Rightarrow>
        (case ts_active_session x of
           None \<Rightarrow> (Err No_active_session, r)
         | Some session \<Rightarrow>
             arrive_with public_id controller_id
               \<lparr>tq_map_id = tn_map_id session, tq_system_id = tn_to_system_id session, tq_planet_id = None,
                tq_zone_id = None, tq_updated_at = t1\<rparr> None t2 r))"

subsection \<open>Positions on a map\<close>

definition position_at :: "galaxy_map \<Rightarrow> int \<Rightarrow> star_system \<Rightarrow> planet_node option \<Rightarrow> travel_position" where
  "position_at m now s p =
     \<lparr>tq_map_id = gm_map_id m, tq_system_id = ss_system_id s, tq_planet_id = map_option pn_planet_id p,
      tq_zone_id = map_option pn_zone_id p, tq_updated_at = now\<rparr>"

text \<open>The nested loops: the first planet, in the order of the systems, that satisfies the test.\<close>

definition first_planet :: "galaxy_map \<Rightarrow> (planet_node \<Rightarrow> bool) \<Rightarrow> (star_system \<times> planet_node) option" where
  "first_planet m P = List.find (\<lambda>(s, p). P p) (concat (map (\<lambda>s. map (Pair s) (ss_planets s)) (gm_systems m)))"

definition first_of :: "'a list \<Rightarrow> 'a option" where
  "first_of xs = (case xs of [] \<Rightarrow> None | x # _ \<Rightarrow> Some x)"

definition resolve_anchor_position ::
  "galaxy_map \<Rightarrow> string option \<Rightarrow> string option \<Rightarrow> int \<Rightarrow> travel_position option" where
  "resolve_anchor_position m home_subnet_id home_zone_id now =
     (case Option.bind home_subnet_id (\<lambda>subnet_id. first_planet m (\<lambda>p. pn_subnet_id p = Some subnet_id)) of
        Some (s, p) \<Rightarrow> Some (position_at m now s (Some p))
      | None \<Rightarrow>
        (case first_planet m (\<lambda>p. is_some_and home_zone_id (\<lambda>zone_id. pn_zone_id p = zone_id)) of
           Some (s, p) \<Rightarrow> Some (position_at m now s (Some p))
         | None \<Rightarrow> map_option (\<lambda>s. position_at m now s (first_of (ss_planets s))) (first_of (gm_systems m))))"

definition resolve_system_position :: "galaxy_map \<Rightarrow> string \<Rightarrow> int \<Rightarrow> travel_position option" where
  "resolve_system_position m system_id now =
     map_option (\<lambda>s. position_at m now s (first_of (ss_planets s)))
       (List.find (\<lambda>s. ss_system_id s = system_id) (gm_systems m))"

subsection \<open>One step of the registry\<close>

datatype travel_op =
    Set_position string string travel_position int
  | Ensure_position string string travel_position int
  | Depart string string travel_plan_t int
  | Arrive string string int int
  | Arrive_with string string travel_position "travel_consequence option" int

definition travel_step :: "travel_state_registry \<Rightarrow> travel_op \<Rightarrow> travel_state_registry" where
  "travel_step r op =
     (case op of
        Set_position i c p now \<Rightarrow> snd (set_position i c p now r)
      | Ensure_position i c p now \<Rightarrow> snd (ensure_position i c p now r)
      | Depart i c plan now \<Rightarrow> snd (depart i c plan now r)
      | Arrive i c t1 t2 \<Rightarrow> snd (arrive i c t1 t2 r)
      | Arrive_with i c p q now \<Rightarrow> snd (arrive_with i c p q now r))"

definition travel_registry_empty :: travel_state_registry where
  "travel_registry_empty = \<lparr>tr_records = bempty\<rparr>"

subsection \<open>What every record keeps\<close>

definition traveller_ok :: "string \<Rightarrow> travel_state_record \<Rightarrow> bool" where
  "traveller_ok k x \<longleftrightarrow>
     ts_public_id x = k
     \<and> (\<forall>s. ts_active_session x = Some s \<longrightarrow>
          tn_map_id s = tq_map_id (ts_current_position x) \<and> tn_from_system_id s = tq_system_id (ts_current_position x)
          \<and> tn_map_id s = tp_map_id (tn_plan s) \<and> tn_from_system_id s = tp_from_system_id (tn_plan s)
          \<and> tn_to_system_id s = tp_to_system_id (tn_plan s))
     \<and> length (ts_recent_consequences x) \<le> 8
     \<and> ts_last_consequence x =
         (if ts_recent_consequences x = [] then None else Some (last (ts_recent_consequences x)))"

definition travel_inv :: "travel_state_registry \<Rightarrow> bool" where [inv_defs]:
  "travel_inv r \<longleftrightarrow> (\<forall>k x. bget (tr_records r) k = Some x \<longrightarrow> traveller_ok k x)"

lemma keep_recent_snoc: "length (keep_recent (xs @ [x])) \<le> 8 \<and> keep_recent (xs @ [x]) \<noteq> [] \<and> last (keep_recent (xs @ [x])) = x"
  by (auto simp: keep_recent_def)

lemma modify_traveller_get:
  "bget (tr_records (snd (modify_traveller k f r))) j =
     (if j = k then map_option (\<lambda>x. snd (f x)) (bget (tr_records r) k) else bget (tr_records r) j)"
  by (simp add: modify_traveller_def case_prod_beta Let_def bmodify_get)

lemma modify_traveller_inv:
  "travel_inv r \<Longrightarrow> (\<And>x. traveller_ok k x \<Longrightarrow> traveller_ok k (snd (f x))) \<Longrightarrow> travel_inv (snd (modify_traveller k f r))"
  by (auto simp: travel_inv_def modify_traveller_get split: if_splits)

lemma fresh_traveller_ok: "traveller_ok k (fresh_travel_state k c p now)"
  by (simp add: traveller_ok_def fresh_travel_state_def)

lemma set_position_inv: "travel_inv r \<Longrightarrow> travel_inv (snd (set_position k c p now r))"
  by (simp add: travel_inv_def set_position_def Let_def fresh_traveller_ok)

lemma ensure_position_inv: "travel_inv r \<Longrightarrow> travel_inv (snd (ensure_position k c p now r))"
  by (simp add: ensure_position_def set_position_inv split: option.splits)

lemma depart_inv: "travel_inv r \<Longrightarrow> travel_inv (snd (depart k c plan now r))"
  unfolding depart_def by (erule modify_traveller_inv) (auto simp: traveller_ok_def)

lemma arrive_with_inv: "travel_inv r \<Longrightarrow> travel_inv (snd (arrive_with k c p q now r))"
  unfolding arrive_with_def
  by (erule modify_traveller_inv) (auto simp: traveller_ok_def Let_def keep_recent_snoc split: option.splits)

lemma arrive_inv: "travel_inv r \<Longrightarrow> travel_inv (snd (arrive k c t1 t2 r))"
  by (simp add: arrive_def arrive_with_inv split: option.splits)

lemmas travel_ops_inv = set_position_inv ensure_position_inv depart_inv arrive_with_inv arrive_inv

interpretation travel_machine: invariant_machine travel_step "\<lambda>_. True" travel_inv
  by unfold_locales (auto simp: travel_step_def split: travel_op.splits intro: travel_ops_inv)

text \<open>
  C26: in every registry reached from an empty one, a traveller under way departed from where it
  is recorded to be and travels by the plan of its session, at most eight consequences are kept,
  and the last consequence is the newest of those kept.
\<close>

theorem travellers_consistent:
  assumes "bget (tr_records (run travel_step travel_registry_empty ops)) k = Some x"
  shows "ts_public_id x = k
    \<and> (\<forall>s. ts_active_session x = Some s \<longrightarrow>
         tn_from_system_id s = tq_system_id (ts_current_position x) \<and> tn_map_id s = tq_map_id (ts_current_position x)
         \<and> tn_from_system_id s = tp_from_system_id (tn_plan s) \<and> tn_to_system_id s = tp_to_system_id (tn_plan s))
    \<and> length (ts_recent_consequences x) \<le> 8
    \<and> ts_last_consequence x =
        (if ts_recent_consequences x = [] then None else Some (last (ts_recent_consequences x)))"
proof -
  have "travel_inv (run travel_step travel_registry_empty ops)"
    by (rule travel_machine.run_inv) (simp_all add: list_all_iff travel_inv_def travel_registry_empty_def)
  with assms have "traveller_ok k x" unfolding travel_inv_def by blast
  then show ?thesis unfolding traveller_ok_def by blast
qed

definition demo_position :: travel_position where
  "demo_position = \<lparr>tq_map_id = ''m'', tq_system_id = ''s'', tq_planet_id = None, tq_zone_id = None, tq_updated_at = 0\<rparr>"

definition demo_plan :: travel_plan_t where
  "demo_plan = \<lparr>tp_map_id = ''m'', tp_from_system_id = ''s'', tp_to_system_id = ''t'', tp_total_travel_cost = 1,
     tp_total_risk = 0, tp_max_leg_risk = 0, tp_risk_level = Stable, tp_traversed_system_ids = [''s'', ''t''],
     tp_legs = [], tp_warnings = []\<rparr>"

lemma travellers_consistent_witness:
  "\<exists>x s. bget (tr_records (run travel_step travel_registry_empty
       [Set_position ''p'' ''c'' demo_position 1, Depart ''p'' ''c'' demo_plan 2])) ''p'' = Some x
     \<and> ts_active_session x = Some s \<and> tn_from_system_id s = tq_system_id (ts_current_position x)"
proof -
  let ?ops = "[Set_position ''p'' ''c'' demo_position 1, Depart ''p'' ''c'' demo_plan 2]"
  have "map_option (\<lambda>x. ts_active_session x \<noteq> None) (bget (tr_records (run travel_step travel_registry_empty ?ops)) ''p'') = Some True"
    by (simp add: travel_step_def set_position_def Let_def fresh_travel_state_def depart_def modify_traveller_get
        travel_registry_empty_def demo_position_def demo_plan_def)
  then obtain x s where x: "bget (tr_records (run travel_step travel_registry_empty ?ops)) ''p'' = Some x"
      and "ts_active_session x = Some s" by auto
  with travellers_consistent [OF x] show ?thesis by blast
qed

subsection \<open>A journey\<close>

text \<open>
  Operations that do not concern the traveller \<open>k\<close> controlled by \<open>c\<close>: those of other
  travellers, and those that a controller other than \<open>c\<close> attempts. Only \<open>set_position\<close>
  overrides a record whoever calls it.
\<close>

fun harmless :: "string \<Rightarrow> string \<Rightarrow> travel_op \<Rightarrow> bool" where
  "harmless k c (Set_position i _ _ _) = (i \<noteq> k)"
| "harmless k c (Ensure_position i _ _ _) = True"
| "harmless k c (Depart i c' _ _) = (i \<noteq> k \<or> c' \<noteq> c)"
| "harmless k c (Arrive i c' _ _) = (i \<noteq> k \<or> c' \<noteq> c)"
| "harmless k c (Arrive_with i c' _ _ _) = (i \<noteq> k \<or> c' \<noteq> c)"

definition traveller_kept :: "string \<Rightarrow> string \<Rightarrow> travel_state_registry \<Rightarrow> travel_state_registry \<Rightarrow> bool" where
  "traveller_kept k c r r' \<longleftrightarrow>
     (\<forall>x. bget (tr_records r) k = Some x \<longrightarrow> ts_controller_id x = c \<longrightarrow> bget (tr_records r') k = Some x)"

lemma harmless_step: "harmless k c op \<Longrightarrow> traveller_kept k c r (travel_step r op)"
  by (cases op) (auto simp: traveller_kept_def travel_step_def set_position_def ensure_position_def Let_def
      depart_def arrive_def arrive_with_def modify_traveller_get split: option.splits)

interpretation harmless_travel: forward_machine travel_step "harmless k c" "traveller_kept k c" for k c
  by unfold_locales (auto simp: harmless_step, auto simp: traveller_kept_def)

lemma travel_plan_ends:
  "travel_plan m g a b = Some (Ok p) \<Longrightarrow> tp_map_id p = gm_map_id m \<and> tp_from_system_id p = a \<and> tp_to_system_id p = b"
  by (auto simp: travel_plan_def Let_def split: if_splits sum.splits option.splits)

text \<open>
  C25: a journey completes. A traveller that is not under way departs on the plan computed from
  where it is, whatever others do meanwhile, and its controller's arrival puts it at the planned
  destination on the same map with no session left. Nobody but its controller can depart or
  arrive for it in between. Others may do anything in the meantime except set the traveller's
  position outright, which would end its session.
\<close>

theorem journey_completes:
  assumes "travel_plan m g a b = Some (Ok plan)"
    and "bget (tr_records r) k = Some x" and "ts_controller_id x = c" and "ts_active_session x = None"
    and "tq_map_id (ts_current_position x) = gm_map_id m" and "tq_system_id (ts_current_position x) = a"
    and "list_all (harmless k c) others"
  shows "\<exists>x'. bget (tr_records (run travel_step r ([Depart k c plan t0] @ others @ [Arrive k c t1 t2]))) k = Some x'
    \<and> tq_system_id (ts_current_position x') = b \<and> tq_map_id (ts_current_position x') = gm_map_id m
    \<and> ts_active_session x' = None \<and> ts_controller_id x' = c
    \<and> ts_recent_consequences x' = ts_recent_consequences x"
proof -
  note plan = travel_plan_ends [OF assms(1)]
  let ?r1 = "travel_step r (Depart k c plan t0)"
  have "\<exists>y s. bget (tr_records ?r1) k = Some y \<and> ts_controller_id y = c \<and> ts_active_session y = Some s
      \<and> tn_map_id s = gm_map_id m \<and> tn_to_system_id s = b \<and> ts_recent_consequences y = ts_recent_consequences x"
    using assms plan by (simp add: travel_step_def depart_def modify_traveller_get)
  then obtain y s where y: "bget (tr_records ?r1) k = Some y" "ts_controller_id y = c" "ts_active_session y = Some s"
      "tn_map_id s = gm_map_id m" "tn_to_system_id s = b" "ts_recent_consequences y = ts_recent_consequences x"
    by blast
  let ?r2 = "run travel_step ?r1 others"
  have "bget (tr_records ?r2) k = Some y"
    using harmless_travel.run_le [OF assms(7), of ?r1] y(1,2) unfolding traveller_kept_def by blast
  then have "\<exists>x'. bget (tr_records (travel_step ?r2 (Arrive k c t1 t2))) k = Some x'
      \<and> tq_system_id (ts_current_position x') = b \<and> tq_map_id (ts_current_position x') = gm_map_id m
      \<and> ts_active_session x' = None \<and> ts_controller_id x' = c \<and> ts_recent_consequences x' = ts_recent_consequences x"
    using y by (simp add: travel_step_def arrive_def arrive_with_def modify_traveller_get Let_def)
  then show ?thesis by simp
qed

definition demo_map :: galaxy_map where
  "demo_map = \<lparr>gm_map_id = ''m'', gm_name = [], gm_description = [], gm_official = False, gm_systems = [],
     gm_routes = [], gm_tags = [], gm_created_at = 0, gm_updated_at = 0\<rparr>"

lemma journey_completes_witness:
  "\<exists>x' plan. bget (tr_records (run travel_step
        (travel_registry_empty\<lparr>tr_records := binsert ''p'' (fresh_travel_state ''p'' ''c'' demo_position 0) bempty\<rparr>)
        ([Depart ''p'' ''c'' plan 1] @ [Arrive ''p'' ''thief'' 2 2] @ [Arrive ''p'' ''c'' 3 3]))) ''p'' = Some x'
     \<and> tq_system_id (ts_current_position x') = ''s''"
proof -
  let ?x = "fresh_travel_state ''p'' ''c'' demo_position 0"
  let ?r = "travel_registry_empty\<lparr>tr_records := binsert ''p'' ?x bempty\<rparr>"
  obtain plan where plan: "travel_plan demo_map default_with_core_zones ''s'' ''s'' = Some (Ok plan)"
    by (simp add: travel_plan_def)
  have at: "bget (tr_records ?r) ''p'' = Some ?x" "ts_controller_id ?x = ''c''" "ts_active_session ?x = None"
    "tq_map_id (ts_current_position ?x) = gm_map_id demo_map" "tq_system_id (ts_current_position ?x) = ''s''"
    by (simp_all add: fresh_travel_state_def demo_position_def demo_map_def)
  have "list_all (harmless ''p'' ''c'') [Arrive ''p'' ''thief'' 2 2]" by simp
  from journey_completes [OF plan at this] show ?thesis by blast
qed

end
