(* ===== verification/Event_Log.thy ===== *)
theory Event_Log
  imports Signing Machines
begin

text \<open>
  The hash-chained event log (\<^verbatim>\<open>src/crates/kernel-core/src/storage/event_log.rs\<close>). The file is
  the list of its rows; file locking makes each append atomic and input/output failures are not
  modelled. \<open>jcs\<close> is \<^verbatim>\<open>serde_jcs\<close> on the unsigned record.
\<close>

record 'v event_record =
  ev_id :: string
  ev_event_type :: string
  ev_payload :: 'v
  ev_timestamp :: int
  ev_agent_did :: string
  ev_prev_hash :: "string option"
  ev_signature :: string
  ev_hash :: string

record 'v unsigned_event_record =
  ue_id :: string
  ue_event_type :: string
  ue_payload :: 'v
  ue_timestamp :: int
  ue_agent_did :: string
  ue_prev_hash :: "string option"

type_synonym 'v event_log = "'v event_record list"

datatype log_error =
    Log_sign sign_error
  | Event_prev_hash_mismatch
  | Invalid_event_signature
  | Invalid_event_hash

definition to_unsigned :: "'v event_record \<Rightarrow> 'v unsigned_event_record" where
  "to_unsigned e =
     \<lparr>ue_id = ev_id e, ue_event_type = ev_event_type e, ue_payload = ev_payload e,
      ue_timestamp = ev_timestamp e, ue_agent_did = ev_agent_did e, ue_prev_hash = ev_prev_hash e\<rparr>"

definition verify_event_signature ::
  "crypto \<Rightarrow> ('v unsigned_event_record \<Rightarrow> string option) \<Rightarrow> 'v event_record \<Rightarrow> sign_error + bool" where
  "verify_event_signature C jcs e = verify_payload C jcs (to_unsigned e) (ev_signature e) (ev_agent_did e)"

definition hash_record ::
  "crypto \<Rightarrow> ('v unsigned_event_record \<Rightarrow> string option) \<Rightarrow> 'v unsigned_event_record \<Rightarrow> string \<Rightarrow> sign_error + string" where
  "hash_record C jcs unsigned signature =
     (case canonical_bytes jcs unsigned of
        Inl e \<Rightarrow> Err e
      | Inr bytes \<Rightarrow> Ok (hex_encode C (sha256 C (bytes @ signature))))"

definition log_last :: "'v event_log \<Rightarrow> 'v event_record option" where
  "log_last rows = (if rows = [] then None else Some (last rows))"

text \<open>A \<^verbatim>\<open>PayloadSigner\<close>: its DID and its \<^verbatim>\<open>sign_bytes\<close>.\<close>

definition append_signed_with_signer ::
  "crypto \<Rightarrow> ('v unsigned_event_record \<Rightarrow> string option) \<Rightarrow> string \<Rightarrow> (string \<Rightarrow> sign_error + string) \<Rightarrow>
   string \<Rightarrow> 'v \<Rightarrow> string \<Rightarrow> int \<Rightarrow> 'v event_log \<Rightarrow> (log_error + 'v event_record) \<times> 'v event_log" where
  "append_signed_with_signer C jcs agent_did sign_bytes event_type payload uuid now rows =
     (let unsigned = \<lparr>ue_id = uuid, ue_event_type = event_type, ue_payload = payload, ue_timestamp = now,
            ue_agent_did = agent_did, ue_prev_hash = map_option ev_hash (log_last rows)\<rparr>
      in case sign_payload_with jcs sign_bytes unsigned of
           Inl e \<Rightarrow> (Err (Log_sign e), rows)
         | Inr signature \<Rightarrow>
           (case hash_record C jcs unsigned signature of
              Inl e \<Rightarrow> (Err (Log_sign e), rows)
            | Inr hash \<Rightarrow>
              let event = \<lparr>ev_id = ue_id unsigned, ev_event_type = ue_event_type unsigned,
                    ev_payload = ue_payload unsigned, ev_timestamp = ue_timestamp unsigned,
                    ev_agent_did = ue_agent_did unsigned, ev_prev_hash = ue_prev_hash unsigned,
                    ev_signature = signature, ev_hash = hash\<rparr>
              in (Ok event, rows @ [event])))"

definition append_signed ::
  "crypto \<Rightarrow> ('v unsigned_event_record \<Rightarrow> string option) \<Rightarrow> identity \<Rightarrow> string \<Rightarrow> 'v \<Rightarrow> string \<Rightarrow> int \<Rightarrow>
   'v event_log \<Rightarrow> (log_error + 'v event_record) \<times> 'v event_log" where
  "append_signed C jcs i = append_signed_with_signer C jcs (id_agent_did i) (identity_sign C i)"

definition append_external ::
  "crypto \<Rightarrow> ('v unsigned_event_record \<Rightarrow> string option) \<Rightarrow> 'v event_record \<Rightarrow> 'v event_log \<Rightarrow>
   (log_error + unit) \<times> 'v event_log" where
  "append_external C jcs event rows =
     (if map_option ev_hash (log_last rows) \<noteq> ev_prev_hash event then (Err Event_prev_hash_mismatch, rows)
      else case verify_event_signature C jcs event of
        Inl e \<Rightarrow> (Err (Log_sign e), rows)
      | Inr ok \<Rightarrow>
        if \<not> ok then (Err Invalid_event_signature, rows)
        else case hash_record C jcs (to_unsigned event) (ev_signature event) of
               Inl e \<Rightarrow> (Err (Log_sign e), rows)
             | Inr expected \<Rightarrow>
                 if expected \<noteq> ev_hash event then (Err Invalid_event_hash, rows) else (Ok (), rows @ [event]))"

text \<open>The loop of \<open>verify_chain\<close>, with the hash of the row before.\<close>

fun verify_rows ::
  "crypto \<Rightarrow> ('v unsigned_event_record \<Rightarrow> string option) \<Rightarrow> string option \<Rightarrow> 'v event_log \<Rightarrow>
   sign_error + (bool \<times> string option)" where
  "verify_rows C jcs prev [] = Ok (True, None)"
| "verify_rows C jcs prev (e # es) =
     (if ev_prev_hash e \<noteq> prev then Ok (False, Some ''prev_hash mismatch'')
      else case verify_event_signature C jcs e of
        Inl err \<Rightarrow> Err err
      | Inr ok \<Rightarrow>
        if \<not> ok then Ok (False, Some ''signature mismatch'')
        else case hash_record C jcs (to_unsigned e) (ev_signature e) of
               Inl err \<Rightarrow> Err err
             | Inr expected \<Rightarrow>
                 if expected \<noteq> ev_hash e then Ok (False, Some ''hash mismatch'')
                 else verify_rows C jcs (Some (ev_hash e)) es)"

definition verify_chain ::
  "crypto \<Rightarrow> ('v unsigned_event_record \<Rightarrow> string option) \<Rightarrow> 'v event_log \<Rightarrow> sign_error + (bool \<times> string option)" where
  "verify_chain C jcs rows = verify_rows C jcs None rows"

definition log_since :: "int \<Rightarrow> 'v event_log \<Rightarrow> 'v event_log" where
  "log_since since_ts rows = filter (\<lambda>e. since_ts \<le> ev_timestamp e) rows"

definition replay :: "'t \<Rightarrow> ('t \<Rightarrow> 'v event_record \<Rightarrow> 't) \<Rightarrow> 'v event_log \<Rightarrow> 't" where
  "replay init reducer rows = foldl reducer init rows"

subsection \<open>Every log verifies\<close>

definition row_ok ::
  "crypto \<Rightarrow> ('v unsigned_event_record \<Rightarrow> string option) \<Rightarrow> 'v event_record \<Rightarrow> bool" where
  "row_ok C jcs e \<longleftrightarrow>
     verify_event_signature C jcs e = Ok True \<and> hash_record C jcs (to_unsigned e) (ev_signature e) = Ok (ev_hash e)"

fun chain_ok ::
  "crypto \<Rightarrow> ('v unsigned_event_record \<Rightarrow> string option) \<Rightarrow> string option \<Rightarrow> 'v event_log \<Rightarrow> bool" where
  "chain_ok C jcs prev [] = True"
| "chain_ok C jcs prev (e # es) \<longleftrightarrow> ev_prev_hash e = prev \<and> row_ok C jcs e \<and> chain_ok C jcs (Some (ev_hash e)) es"

lemma verify_rows_iff: "verify_rows C jcs prev rows = Ok (True, None) \<longleftrightarrow> chain_ok C jcs prev rows"
  by (induction rows arbitrary: prev) (auto simp: row_ok_def split: sum.splits)

lemma chain_ok_snoc:
  "chain_ok C jcs prev (rows @ [e]) \<longleftrightarrow>
     chain_ok C jcs prev rows \<and> row_ok C jcs e
     \<and> ev_prev_hash e = (if rows = [] then prev else Some (ev_hash (last rows)))"
  by (induction rows arbitrary: prev) auto

lemma append_external_chain: "chain_ok C jcs None rows \<Longrightarrow> chain_ok C jcs None (snd (append_external C jcs e rows))"
  by (auto simp: append_external_def chain_ok_snoc row_ok_def log_last_def split: sum.splits)

lemma append_signed_chain:
  assumes "crypto_laws C" and "import_ed25519_private_key C x k = Ok i" and "chain_ok C jcs None rows"
  shows "chain_ok C jcs None (snd (append_signed C jcs i ty payload uuid now rows))"
proof (cases "fst (append_signed C jcs i ty payload uuid now rows)")
  case (Inl e)
  with assms(3) show ?thesis
    by (auto simp: append_signed_def append_signed_with_signer_def Let_def split: sum.splits)
next
  case (Inr e)
  then have new: "snd (append_signed C jcs i ty payload uuid now rows) = rows @ [e]"
    and sign: "sign_payload_with jcs (identity_sign C i) (to_unsigned e) = Ok (ev_signature e)"
    and hash: "hash_record C jcs (to_unsigned e) (ev_signature e) = Ok (ev_hash e)"
    and ends: "ev_agent_did e = id_agent_did i" "ev_prev_hash e = map_option ev_hash (log_last rows)"
    by (auto simp: append_signed_def append_signed_with_signer_def Let_def to_unsigned_def split: sum.splits)
  have "verify_event_signature C jcs e = Ok True"
    unfolding verify_event_signature_def ends using assms sign by (blast intro: sign_payload_verifies(2))
  with assms(3) hash ends show ?thesis by (simp add: new chain_ok_snoc row_ok_def log_last_def)
qed

datatype 'v log_op =
    Append_signed identity string 'v string int
  | Append_external "'v event_record"

definition log_step ::
  "crypto \<Rightarrow> ('v unsigned_event_record \<Rightarrow> string option) \<Rightarrow> 'v event_log \<Rightarrow> 'v log_op \<Rightarrow> 'v event_log" where
  "log_step C jcs rows op =
     (case op of
        Append_signed i ty payload uuid now \<Rightarrow> snd (append_signed C jcs i ty payload uuid now rows)
      | Append_external e \<Rightarrow> snd (append_external C jcs e rows))"

definition imported_signer :: "crypto \<Rightarrow> 'v log_op \<Rightarrow> bool" where
  "imported_signer C op \<longleftrightarrow>
     (case op of
        Append_signed i _ _ _ _ \<Rightarrow> \<exists>x k. import_ed25519_private_key C x k = Ok i
      | Append_external _ \<Rightarrow> True)"

interpretation log_machine: invariant_machine "log_step C jcs" "\<lambda>op. crypto_laws C \<and> imported_signer C op" "chain_ok C jcs None"
  for C jcs
  by unfold_locales
    (auto simp: log_step_def imported_signer_def intro: append_external_chain append_signed_chain split: log_op.splits)

lemma log_step_prefix: "prefix rows (log_step C jcs rows op)"
  by (cases op) (auto simp: log_step_def append_signed_def append_signed_with_signer_def append_external_def Let_def
      split: sum.splits)

interpretation log_growth: forward_machine "log_step C jcs" "\<lambda>_. True" prefix for C jcs
  by unfold_locales (auto intro: log_step_prefix prefix_order.trans)

text \<open>
  C27: whatever is appended, by local signers with imported keys or from the network, the log
  verifies, and it only grows: the rows that were there stay as they are, in place.
\<close>

theorem log_always_verifies:
  assumes "crypto_laws C" and "list_all (imported_signer C) ops" and "verify_chain C jcs rows = Ok (True, None)"
  shows "verify_chain C jcs (run (log_step C jcs) rows ops) = Ok (True, None)
    \<and> prefix rows (run (log_step C jcs) rows ops)"
proof -
  have "chain_ok C jcs None (run (log_step C jcs) rows ops)"
    using assms by (intro log_machine.run_inv) (auto simp: list_all_iff verify_chain_def verify_rows_iff)
  moreover have "prefix rows (run (log_step C jcs) rows ops)"
    by (rule log_growth.run_le) (simp add: list_all_iff)
  ultimately show ?thesis by (simp add: verify_chain_def verify_rows_iff)
qed

lemma log_always_verifies_witness:
  "let rows = run (log_step crypto_demo (\<lambda>_. Some ''{}'')) [] [Append_signed demo_identity ''T'' () ''u1'' 1]
   in length rows = 1 \<and> verify_chain crypto_demo (\<lambda>_. Some ''{}'') rows = Ok (True, None)"
proof -
  let ?op = "Append_signed demo_identity ''T'' () ''u1'' 1"
  have "list_all (imported_signer crypto_demo) [?op]"
    using demo_import by (auto simp: imported_signer_def)
  moreover have "verify_chain crypto_demo (\<lambda>_. Some ''{}'') [] = Ok (True, None)" by (simp add: verify_chain_def)
  moreover have "length (log_step crypto_demo (\<lambda>_. Some ''{}'') [] ?op) = 1"
    by (simp add: log_step_def append_signed_def append_signed_with_signer_def Let_def sign_payload_with_def
        canonical_bytes_def identity_sign_def hash_record_def crypto_demo_def demo_identity_def demo_dec_enc demo_seed_def)
  ultimately show ?thesis
    using log_always_verifies [OF crypto_demo_laws, of "[?op]" "\<lambda>_. Some ''{}''" "[]"] by (simp add: Let_def)
qed

subsection \<open>Tampering shows\<close>

text \<open>What is hashed for a row.\<close>

definition hashed :: "('v unsigned_event_record \<Rightarrow> string option) \<Rightarrow> 'v event_record \<Rightarrow> string" where
  "hashed jcs e = (case jcs (to_unsigned e) of None \<Rightarrow> [] | Some bytes \<Rightarrow> bytes) @ ev_signature e"

text \<open>
  Documented behaviour of the crates: hex encoding is injective; base64 decoding refuses a closing
  brace; canonical JSON of a record is an object, so it ends in a closing brace, and its strings
  and its null can be read off it. The numbers of a payload cannot: 1 and 1.0 are printed alike.
\<close>

definition log_laws :: "crypto \<Rightarrow> ('v unsigned_event_record \<Rightarrow> string option) \<Rightarrow> bool" where
  "log_laws C jcs \<longleftrightarrow>
     inj (hex_encode C) \<and> (\<forall>s. b64_decode C s \<noteq> None \<longrightarrow> CHR ''}'' \<notin> set s)
     \<and> (\<forall>u bytes. jcs u = Some bytes \<longrightarrow> bytes \<noteq> [] \<and> last bytes = CHR ''}'')
     \<and> (\<forall>u u' bytes. jcs u = Some bytes \<longrightarrow> jcs u' = Some bytes \<longrightarrow>
          ue_id u = ue_id u' \<and> ue_event_type u = ue_event_type u' \<and> ue_agent_did u = ue_agent_did u'
          \<and> ue_prev_hash u = ue_prev_hash u')"

text \<open>Two rows that agree in every string and have the same canonical form: they differ at most in
  how the numbers of the payload, or the timestamp, are written.\<close>

definition same_row ::
  "('v unsigned_event_record \<Rightarrow> string option) \<Rightarrow> 'v event_record \<Rightarrow> 'v event_record \<Rightarrow> bool" where
  "same_row jcs e e' \<longleftrightarrow>
     jcs (to_unsigned e) = jcs (to_unsigned e') \<and> ev_id e = ev_id e' \<and> ev_event_type e = ev_event_type e'
     \<and> ev_agent_did e = ev_agent_did e' \<and> ev_prev_hash e = ev_prev_hash e'
     \<and> ev_signature e = ev_signature e' \<and> ev_hash e = ev_hash e'"

lemma split_at_brace:
  assumes "b \<noteq> []" "last b = c" "b' \<noteq> []" "last b' = c" "c \<notin> set s" "c \<notin> set s'" "b @ s = b' @ s'"
  shows "b = b' \<and> s = s'"
proof -
  have "rev s @ c # rev (butlast b) = rev s' @ c # rev (butlast b')"
    using arg_cong [OF assms(7), of rev] assms(1-4)
    by (metis append.assoc append_butlast_last_id rev.simps(2) rev_append rev_swap append_Cons append_Nil)
  from append_eq_append_sep [OF this] assms show ?thesis
    by (metis append_same_eq rev_rev_ident set_rev)
qed

lemma row_hash_determines:
  assumes laws: "log_laws C jcs" and ok: "row_ok C jcs e" "row_ok C jcs e'"
    and hash: "ev_hash e = ev_hash e'" and sha: "inj_on (sha256 C) {hashed jcs e, hashed jcs e'}"
  shows "same_row jcs e e'"
proof -
  from ok obtain b b' where b: "jcs (to_unsigned e) = Some b" "jcs (to_unsigned e') = Some b'"
    by (auto simp: row_ok_def hash_record_def canonical_bytes_def split: option.splits)
  have "hex_encode C (sha256 C (b @ ev_signature e)) = hex_encode C (sha256 C (b' @ ev_signature e'))"
    using ok hash b by (simp add: row_ok_def hash_record_def canonical_bytes_def)
  moreover have "inj (hex_encode C)" using laws unfolding log_laws_def by blast
  ultimately have "sha256 C (b @ ev_signature e) = sha256 C (b' @ ev_signature e')" by (metis injD)
  moreover have "hashed jcs e = b @ ev_signature e" "hashed jcs e' = b' @ ev_signature e'"
    by (simp_all add: hashed_def b)
  ultimately have same: "b @ ev_signature e = b' @ ev_signature e'" by (metis inj_onD [OF sha] insertI1 insertI2)
  have "b64_decode C (ev_signature e) \<noteq> None" "b64_decode C (ev_signature e') \<noteq> None"
    using ok by (auto simp: row_ok_def verify_event_signature_def verify_payload_def verify_with_public_key_def
        split: sum.splits option.splits)
  then have "CHR ''}'' \<notin> set (ev_signature e)" "CHR ''}'' \<notin> set (ev_signature e')"
    using laws unfolding log_laws_def by blast+
  moreover have "b \<noteq> [] \<and> last b = CHR ''}''" "b' \<noteq> [] \<and> last b' = CHR ''}''"
    using laws b unfolding log_laws_def by blast+
  ultimately have "b = b' \<and> ev_signature e = ev_signature e'"
    by (intro split_at_brace [of b _ b'] same) simp_all
  moreover from this laws b have "ue_id (to_unsigned e) = ue_id (to_unsigned e')
      \<and> ue_event_type (to_unsigned e) = ue_event_type (to_unsigned e')
      \<and> ue_agent_did (to_unsigned e) = ue_agent_did (to_unsigned e')
      \<and> ue_prev_hash (to_unsigned e) = ue_prev_hash (to_unsigned e')"
    unfolding log_laws_def by blast
  ultimately show ?thesis using hash b by (simp add: same_row_def) (simp add: to_unsigned_def)
qed

text \<open>
  C28: a verified log cannot be altered behind its last hash. Two logs that both verify and end in
  the same hash have the same number of rows, and row by row the same id, type, agent, previous
  hash, signature and hash and the same canonical JSON: no row was removed, inserted or reordered,
  and none was changed in a way its canonical JSON shows, unless two of their rows collide under
  SHA-256. Canonical JSON does not show whether a number of the payload is written 1 or 1.0.
\<close>

theorem log_tamper_evident:
  assumes "log_laws C jcs" and "verify_chain C jcs rows = Ok (True, None)" and "verify_chain C jcs rows' = Ok (True, None)"
    and "inj_on (sha256 C) (hashed jcs ` (set rows \<union> set rows'))"
    and "map_option ev_hash (log_last rows) = map_option ev_hash (log_last rows')"
  shows "list_all2 (same_row jcs) rows rows'"
  using assms(2-5) unfolding verify_chain_def verify_rows_iff
proof (induction rows arbitrary: rows' rule: rev_induct)
  case Nil
  then show ?case by (cases rows' rule: rev_cases) (auto simp: log_last_def split: if_splits)
next
  case (snoc e es)
  then obtain es' e' where rows': "rows' = es' @ [e']"
    by (cases rows' rule: rev_cases) (auto simp: log_last_def)
  have rows: "row_ok C jcs e" "row_ok C jcs e'" and hash: "ev_hash e = ev_hash e'"
    using snoc.prems by (auto simp: rows' chain_ok_snoc log_last_def)
  have "inj_on (sha256 C) {hashed jcs e, hashed jcs e'}"
    using snoc.prems(3) by (rule inj_on_subset) (auto simp: rows')
  then have e: "same_row jcs e e'" using row_hash_determines [OF assms(1) rows hash] by simp
  have "map_option ev_hash (log_last es) = map_option ev_hash (log_last es')"
    using snoc.prems(1,2) e by (auto simp: rows' same_row_def chain_ok_snoc log_last_def split: if_splits)
  moreover have "inj_on (sha256 C) (hashed jcs ` (set es \<union> set es'))"
    using snoc.prems(3) by (rule inj_on_subset) (auto simp: rows')
  ultimately have "list_all2 (same_row jcs) es es'"
    using snoc.prems(1,2) by (intro snoc.IH) (auto simp: rows' chain_ok_snoc)
  with e show ?case by (simp add: rows' list_all2_appendI)
qed

text \<open>A log of one row, and what becomes of it when its payload is changed.\<close>

definition demo_log_crypto :: crypto where
  "demo_log_crypto = crypto_demo\<lparr>hex_encode := \<lambda>x. x,
     b64_decode := \<lambda>s. if CHR ''}'' \<in> set s then None else demo_dec s\<rparr>"

definition demo_event :: "nat event_record" where
  "demo_event = \<lparr>ev_id = ''e1'', ev_event_type = ''T'', ev_payload = 1, ev_timestamp = 0,
     ev_agent_did = ''did:key:'' @ demo_seed, ev_prev_hash = None,
     ev_signature = demo_enc (demo_sign demo_seed ''{}''),
     ev_hash = sha256 crypto_demo (''{}'' @ demo_enc (demo_sign demo_seed ''{}''))\<rparr>"

definition demo_jcs :: "nat unsigned_event_record \<Rightarrow> string option" where
  "demo_jcs u = (if u = to_unsigned demo_event then Some ''{}'' else None)"

lemma demo_enc_no_brace: "CHR ''}'' \<notin> set (demo_enc s)"
  using demo_enc_range by fastforce

lemma demo_event_verifies: "verify_chain demo_log_crypto demo_jcs [demo_event] = Ok (True, None)"
proof -
  have did: "decode_public_key_from_ref demo_log_crypto (ev_agent_did demo_event) = Ok demo_seed"
    by (simp add: decode_public_key_from_ref_def public_key_b64_from_did_key_def demo_log_crypto_def crypto_demo_def
        demo_event_def DID_KEY_PREFIX_def demo_enc_no_brace demo_dec_enc prefix_def)
  have "verify_event_signature demo_log_crypto demo_jcs demo_event = Ok True"
    using did
    by (simp add: verify_event_signature_def verify_payload_def canonical_bytes_def demo_jcs_def
        verify_with_public_key_def)
      (simp add: demo_log_crypto_def crypto_demo_def demo_event_def demo_enc_no_brace demo_dec_enc demo_seed_def demo_sign_def)
  moreover have "hash_record demo_log_crypto demo_jcs (to_unsigned demo_event) (ev_signature demo_event) = Ok (ev_hash demo_event)"
    by (simp add: hash_record_def canonical_bytes_def demo_jcs_def demo_log_crypto_def crypto_demo_def demo_event_def)
  moreover have "ev_prev_hash demo_event = None" by (simp add: demo_event_def)
  ultimately show ?thesis by (simp add: verify_chain_def)
qed

lemma log_tamper_evident_witness:
  "verify_chain demo_log_crypto demo_jcs [demo_event] = Ok (True, None)
   \<and> verify_chain demo_log_crypto demo_jcs [demo_event\<lparr>ev_payload := 2\<rparr>] \<noteq> Ok (True, None)"
proof -
  let ?forged = "demo_event\<lparr>ev_payload := 2\<rparr>"
  have laws: "log_laws demo_log_crypto demo_jcs"
    by (auto simp: log_laws_def demo_log_crypto_def demo_jcs_def split: if_splits)
  have forged: "jcs_none = None" if "jcs_none = demo_jcs (to_unsigned ?forged)" for jcs_none
    using that by (simp add: demo_jcs_def to_unsigned_def demo_event_def)
  have "sha256 demo_log_crypto (hashed demo_jcs demo_event) \<noteq> sha256 demo_log_crypto (hashed demo_jcs ?forged)"
  proof -
    have "hd (sha256 demo_log_crypto (hashed demo_jcs demo_event)) = CHR ''{''"
      by (simp add: hashed_def demo_jcs_def demo_log_crypto_def crypto_demo_def)
    moreover have "hd (sha256 demo_log_crypto (hashed demo_jcs ?forged)) \<noteq> CHR ''{''"
    proof -
      have "hashed demo_jcs ?forged = demo_enc (demo_sign demo_seed ''{}'')"
        using forged [OF refl] by (simp add: hashed_def) (simp add: demo_event_def)
      moreover have "demo_enc (demo_sign demo_seed ''{}'') \<noteq> []"
        by (simp add: demo_enc_def demo_sign_def demo_seed_def)
      moreover from this have "hd (demo_enc (demo_sign demo_seed ''{}'')) \<noteq> CHR ''{''"
        using demo_enc_range [OF hd_in_set, of "demo_sign demo_seed ''{}''"] by auto
      ultimately show ?thesis by (simp add: demo_log_crypto_def crypto_demo_def hd_append)
    qed
    ultimately show ?thesis by metis
  qed
  then have inj: "inj_on (sha256 demo_log_crypto) (hashed demo_jcs ` (set [demo_event] \<union> set [?forged]))"
    by (auto simp: inj_on_def)
  have last: "map_option ev_hash (log_last [demo_event]) = map_option ev_hash (log_last [?forged])"
    by (simp add: log_last_def)
  have "\<not> list_all2 (same_row demo_jcs) [demo_event] [?forged]"
    using forged [OF refl] by (simp add: same_row_def) (simp add: demo_jcs_def)
  with log_tamper_evident [OF laws demo_event_verifies _ inj last] demo_event_verifies show ?thesis by blast
qed

end
