(* ===== verification/Hashcash.thy ===== *)
theory Hashcash
  imports Signing
begin

text \<open>
  \<^verbatim>\<open>security/hashcash.rs\<close>: stamps that prove work on a resource name, their text form, their
  minting by search over a counter and their verification. SHA-256 is the parameter
  \<open>crypto\<close>; the nonce and the date of a minted stamp, a fresh UUID and the clock's day, are
  arguments. A resource may hold colons (a \<^verbatim>\<open>did:key\<close> does), which is why the code splits the
  first three fields from the left and the last two from the right.
\<close>

subsection \<open>Splitting at most n times\<close>

text \<open>\<^verbatim>\<open>str::splitn\<close> and \<^verbatim>\<open>str::rsplitn\<close>.\<close>

fun splitn :: "nat \<Rightarrow> char \<Rightarrow> string \<Rightarrow> string list" where
  "splitn 0 c s = []"
| "splitn (Suc 0) c s = [s]"
| "splitn (Suc (Suc n)) c s =
     (if c \<in> set s
      then takeWhile (\<lambda>x. x \<noteq> c) s # splitn (Suc n) c (tl (dropWhile (\<lambda>x. x \<noteq> c) s))
      else [s])"

definition rsplitn :: "nat \<Rightarrow> char \<Rightarrow> string \<Rightarrow> string list" where
  "rsplitn n c s = map rev (splitn n c (rev s))"

lemma splitn_sep: "c \<notin> set w \<Longrightarrow> splitn (Suc (Suc n)) c (w @ c # s) = w # splitn (Suc n) c s"
proof -
  assume w: "c \<notin> set w"
  then have "takeWhile (\<lambda>x. x \<noteq> c) (w @ c # s) = w" by (induction w) auto
  moreover from w have "dropWhile (\<lambda>x. x \<noteq> c) (w @ c # s) = c # s" by (induction w) auto
  ultimately show ?thesis by simp
qed

lemma splitn_sep_numeral:
  "c \<notin> set w \<Longrightarrow> splitn 4 c (w @ c # s) = w # splitn 3 c s"
  "c \<notin> set w \<Longrightarrow> splitn 3 c (w @ c # s) = w # splitn 2 c s"
  "c \<notin> set w \<Longrightarrow> splitn 2 c (w @ c # s) = [w, s]"
  using splitn_sep [of c w 2 s] splitn_sep [of c w 1 s] splitn_sep [of c w 0 s]
  by (simp_all add: numeral_eq_Suc)

lemma rsplitn_three:
  "c \<notin> set v \<Longrightarrow> c \<notin> set w \<Longrightarrow> rsplitn 3 c (u @ c # v @ c # w) = [w, v, u]"
  using splitn_sep_numeral(2) [of c "rev w" "rev v @ c # rev u"]
    splitn_sep_numeral(3) [of c "rev v" "rev u"]
  by (simp add: rsplitn_def)

subsection \<open>Stamps\<close>

record hashcash_stamp =
  hs_version :: nat
  hs_bits :: nat
  hs_date :: string
  hs_resource :: string
  hs_nonce :: string
  hs_counter :: nat

definition u64_max :: nat where "u64_max = 2 ^ 64 - 1"

definition as_string :: "hashcash_stamp \<Rightarrow> string" where
  "as_string h = dec_str (hs_version h) @ '':'' @ dec_str (hs_bits h) @ '':'' @ hs_date h @ '':''
     @ hs_resource h @ '':'' @ hs_nonce h @ '':'' @ dec_str (hs_counter h)"

definition parse :: "string \<Rightarrow> hashcash_stamp option" where
  "parse stamp =
     (case splitn 4 (CHR '':'') stamp of
        [version, bits, date, tail] \<Rightarrow>
          (case (parse_uint u8_max version, parse_uint u8_max bits) of
             (Some v, Some b) \<Rightarrow>
               (case rsplitn 3 (CHR '':'') tail of
                  [counter, nonce, resource] \<Rightarrow>
                    (case parse_uint u64_max counter of
                       None \<Rightarrow> None
                     | Some c \<Rightarrow> Some \<lparr>hs_version = v, hs_bits = b, hs_date = date,
                         hs_resource = resource, hs_nonce = nonce, hs_counter = c\<rparr>)
                | _ \<Rightarrow> None)
           | _ \<Rightarrow> None)
      | _ \<Rightarrow> None)"

text \<open>\<^verbatim>\<open>u8::leading_zeros\<close>.\<close>

definition leading_zeros :: "nat \<Rightarrow> nat" where
  "leading_zeros b = length (takeWhile (\<lambda>i. b < 2 ^ i) (rev [0..<8]))"

fun count_zero_bits :: "nat \<Rightarrow> string \<Rightarrow> nat" where
  "count_zero_bits count [] = count"
| "count_zero_bits count (byte # bytes) =
     (if (of_char byte :: nat) = 0 then count_zero_bits (sat_add u8_max count 8) bytes
      else sat_add u8_max count (leading_zeros (of_char byte)))"

definition leading_zero_bits :: "string \<Rightarrow> nat" where
  "leading_zero_bits bytes = count_zero_bits 0 bytes"

definition meets_difficulty :: "crypto \<Rightarrow> string \<Rightarrow> nat \<Rightarrow> bool" where
  "meets_difficulty C input bits \<longleftrightarrow> bits \<le> leading_zero_bits (sha256 C input)"

text \<open>The search over \<open>counter .. counter + n\<close>.\<close>

fun mint_loop :: "crypto \<Rightarrow> string \<Rightarrow> nat \<Rightarrow> string \<Rightarrow> string \<Rightarrow> nat \<Rightarrow> nat \<Rightarrow> string option" where
  "mint_loop C resource bits nonce date counter 0 = None"
| "mint_loop C resource bits nonce date counter (Suc n) =
     (let stamp = as_string \<lparr>hs_version = 1, hs_bits = bits, hs_date = date, hs_resource = resource,
            hs_nonce = nonce, hs_counter = counter\<rparr>
      in if meets_difficulty C stamp bits then Some stamp
         else mint_loop C resource bits nonce date (counter + 1) n)"

definition mint :: "crypto \<Rightarrow> string \<Rightarrow> string \<Rightarrow> string \<Rightarrow> nat \<Rightarrow> nat \<Rightarrow> string option" where
  "mint C nonce date resource bits max_iterations =
     mint_loop C resource bits nonce date 0 max_iterations"

definition verify_stamp :: "crypto \<Rightarrow> string \<Rightarrow> string \<Rightarrow> nat \<Rightarrow> bool" where
  "verify_stamp C stamp resource min_bits =
     (case parse stamp of
        None \<Rightarrow> False
      | Some parsed \<Rightarrow>
        if hs_version parsed \<noteq> 1 then False
        else if hs_resource parsed \<noteq> resource then False
        else if hs_bits parsed < min_bits then False
        else meets_difficulty C stamp (hs_bits parsed))"

subsection \<open>The text form\<close>

text \<open>The fields of a stamp that its text form keeps apart.\<close>

definition stamp_ok :: "hashcash_stamp \<Rightarrow> bool" where
  "stamp_ok h \<longleftrightarrow> hs_version h \<le> u8_max \<and> hs_bits h \<le> u8_max \<and> hs_counter h \<le> u64_max
     \<and> CHR '':'' \<notin> set (hs_date h) \<and> CHR '':'' \<notin> set (hs_nonce h)"

lemma dec_str_no_colon [simp]: "CHR '':'' \<notin> set (dec_str n)"
  by (rule dec_str_no_sep) (simp add: is_ascii_digit_def char_le_nat)

lemma parse_as_string:
  assumes "stamp_ok h"
  shows "parse (as_string h) = Some h"
  using assms
  by (simp add: parse_def as_string_def stamp_ok_def splitn_sep_numeral rsplitn_three parse_dec_str)

subsection \<open>Minted stamps\<close>

lemma mint_loop_Some:
  "mint_loop C resource bits nonce date counter n = Some stamp \<Longrightarrow>
     \<exists>c. counter \<le> c \<and> c < counter + n \<and> meets_difficulty C stamp bits
       \<and> stamp = as_string \<lparr>hs_version = 1, hs_bits = bits, hs_date = date, hs_resource = resource,
            hs_nonce = nonce, hs_counter = c\<rparr>"
proof (induction n arbitrary: counter)
  case (Suc n)
  show ?case
  proof (cases "mint_loop C resource bits nonce date (counter + 1) n = Some stamp")
    case True
    then obtain c where "counter + 1 \<le> c" and "c < counter + 1 + n" and "meets_difficulty C stamp bits"
        and "stamp = as_string \<lparr>hs_version = 1, hs_bits = bits, hs_date = date,
          hs_resource = resource, hs_nonce = nonce, hs_counter = c\<rparr>"
      using Suc.IH by blast
    then show ?thesis by (intro exI [of _ c]) simp
  next
    case False
    with Suc.prems show ?thesis by (auto simp: Let_def split: if_splits)
  qed
qed simp

lemma mint_loop_None:
  "mint_loop C resource bits nonce date counter n = None \<longleftrightarrow>
     (\<forall>c \<in> {counter..<counter + n}. \<not> meets_difficulty C (as_string \<lparr>hs_version = 1, hs_bits = bits,
        hs_date = date, hs_resource = resource, hs_nonce = nonce, hs_counter = c\<rparr>) bits)"
proof (induction n arbitrary: counter)
  case (Suc n)
  have "{counter..<counter + Suc n} = insert counter {counter + 1..<counter + 1 + n}" by auto
  with Suc.IH [of "counter + 1"] show ?case by (simp add: Let_def)
qed simp

lemma mint_Some:
  assumes "mint C nonce date resource bits n = Some stamp"
  obtains c where "c < n" and "meets_difficulty C stamp bits"
    and "stamp = as_string \<lparr>hs_version = 1, hs_bits = bits, hs_date = date, hs_resource = resource,
            hs_nonce = nonce, hs_counter = c\<rparr>"
  using mint_loop_Some [of C resource bits nonce date 0 n stamp] assms by (auto simp: mint_def)

subsection \<open>What the difficulty measures\<close>

text \<open>The bits of a digest, most significant first, and the number they spell.\<close>

definition byte_bits :: "nat \<Rightarrow> bool list" where
  "byte_bits b = map (\<lambda>i. odd (b div 2 ^ i)) (rev [0..<8])"

definition digest_bits :: "string \<Rightarrow> bool list" where
  "digest_bits bytes = concat (map (\<lambda>c. byte_bits (of_char c)) bytes)"

fun bits_val :: "bool list \<Rightarrow> nat" where
  "bits_val [] = 0"
| "bits_val (b # bs) = of_bool b * 2 ^ length bs + bits_val bs"

lemma bits_val_less: "bits_val bs < 2 ^ length bs"
  by (induction bs) (auto simp: of_bool_def)

lemma upt8: "rev [0..<8] = [7, 6, 5, 4, 3, 2, 1, 0 :: nat]"
  by (simp add: upt_rec)

lemma takeWhile_zeros:
  "b < 2 ^ n \<Longrightarrow> length (takeWhile Not (map (\<lambda>i. odd (b div 2 ^ i)) (rev [0..<n])))
     = length (takeWhile (\<lambda>i. b < 2 ^ i) (rev [0..<n]))" for b :: nat
proof (induction n)
  case (Suc n)
  have "odd (b div 2 ^ n) \<longleftrightarrow> \<not> b < 2 ^ n"
  proof (cases "b < 2 ^ n")
    case False
    then have "b div 2 ^ n = 1" using Suc.prems by (intro div_nat_eqI) simp_all
    with False show ?thesis by simp
  qed simp
  with Suc show ?case by simp
qed simp

lemma byte_zeros: "length (takeWhile Not (byte_bits (of_char c))) = leading_zeros (of_char c)"
  using takeWhile_zeros [of "of_char c" 8] of_char_small [of c] by (simp add: byte_bits_def leading_zeros_def)

lemma byte_bits_0: "byte_bits 0 = replicate 8 False"
  by (simp add: byte_bits_def upt8 numeral_eq_Suc)

lemma leading_zeros_lt: "(of_char c :: nat) \<noteq> 0 \<Longrightarrow> leading_zeros (of_char c) < 8"
proof -
  assume "(of_char c :: nat) \<noteq> 0"
  then have "\<not> (of_char c :: nat) < 2 ^ 0" by simp
  then show ?thesis by (auto simp: leading_zeros_def upt8)
qed

lemma takeWhile_append_False: "length (takeWhile P xs) < length xs \<Longrightarrow> takeWhile P (xs @ ys) = takeWhile P xs"
  by (metis length_takeWhile_le less_irrefl takeWhile_append takeWhile_eq_all_conv)

lemma count_zero_bits_eq:
  "count \<le> u8_max \<Longrightarrow>
     count_zero_bits count bytes = min u8_max (count + length (takeWhile Not (digest_bits bytes)))"
proof (induction count bytes rule: count_zero_bits.induct)
  case (2 count byte bytes)
  show ?case
  proof (cases "(of_char byte :: nat) = 0")
    case True
    have "sat_add u8_max count 8 \<le> u8_max" by simp
    with 2 True have "count_zero_bits count (byte # bytes)
      = min u8_max (sat_add u8_max count 8 + length (takeWhile Not (digest_bits bytes)))" by simp
    moreover have "length (takeWhile Not (digest_bits (byte # bytes))) = 8 + length (takeWhile Not (digest_bits bytes))"
      by (simp add: digest_bits_def True byte_bits_0 takeWhile_append)
    ultimately show ?thesis by (simp add: sat_add_def)
  next
    case False
    have "length (takeWhile Not (byte_bits (of_char byte))) < length (byte_bits (of_char byte))"
      using leading_zeros_lt [OF False] by (simp add: byte_zeros) (simp add: byte_bits_def)
    then have "takeWhile Not (digest_bits (byte # bytes)) = takeWhile Not (byte_bits (of_char byte))"
      by (simp add: digest_bits_def takeWhile_append_False)
    with False show ?thesis by (simp add: byte_zeros sat_add_def)
  qed
qed (simp add: digest_bits_def)

lemma zeros_bits_val:
  "k \<le> length bs \<Longrightarrow> k \<le> length (takeWhile Not bs) \<longleftrightarrow> bits_val bs < 2 ^ (length bs - k)"
proof (induction bs arbitrary: k)
  case (Cons b bs)
  show ?case
  proof (cases k)
    case 0
    then show ?thesis using bits_val_less [of "b # bs"] by simp
  next
    case (Suc j)
    have "\<not> 2 ^ length bs + bits_val bs < 2 ^ (length bs - j)"
      using power_increasing [of "length bs - j" "length bs" "2 :: nat"] by linarith
    with Suc Cons show ?thesis by (cases b) auto
  qed
qed simp

lemma length_digest_bits: "length (digest_bits bytes) = 8 * length bytes"
  by (induction bytes) (auto simp: digest_bits_def byte_bits_def)

lemma meets_difficulty_iff:
  assumes "crypto_laws C" and "bits \<le> u8_max"
  shows "meets_difficulty C input bits \<longleftrightarrow> bits_val (digest_bits (sha256 C input)) < 2 ^ (256 - bits)"
proof -
  have len: "length (digest_bits (sha256 C input)) = 256"
    using crypto_lawsD(8) [OF assms(1)] by (simp add: length_digest_bits)
  have "meets_difficulty C input bits \<longleftrightarrow> bits \<le> length (takeWhile Not (digest_bits (sha256 C input)))"
    using assms(2) by (simp add: meets_difficulty_def leading_zero_bits_def count_zero_bits_eq)
  with zeros_bits_val [of bits "digest_bits (sha256 C input)"] assms(2) show ?thesis
    by (simp add: len u8_max_def)
qed

text \<open>C29: a minted stamp verifies for exactly the resource it was minted for, colons and all, at
  exactly the difficulties up to its own, and its digest, read as a number, is below
  \<open>2 ^ (256 - bits)\<close>; minting fails only when no counter of the budget reaches that bound.\<close>

theorem minted_stamp_verifies:
  assumes "crypto_laws C" and "CHR '':'' \<notin> set nonce" and "CHR '':'' \<notin> set date"
    and "bits \<le> u8_max" and "max_iterations \<le> u64_max"
  shows "case mint C nonce date resource bits max_iterations of
       Some stamp \<Rightarrow>
         (\<forall>r min_bits. verify_stamp C stamp r min_bits \<longleftrightarrow> r = resource \<and> min_bits \<le> bits)
         \<and> bits_val (digest_bits (sha256 C stamp)) < 2 ^ (256 - bits)
     | None \<Rightarrow> \<forall>c < max_iterations. 2 ^ (256 - bits) \<le> bits_val (digest_bits (sha256 C
         (as_string \<lparr>hs_version = 1, hs_bits = bits, hs_date = date, hs_resource = resource,
            hs_nonce = nonce, hs_counter = c\<rparr>)))"
proof (cases "mint C nonce date resource bits max_iterations")
  case None
  then show ?thesis
    using mint_loop_None [of C resource bits nonce date 0 max_iterations]
    by (simp add: mint_def meets_difficulty_iff [OF assms(1,4)] not_less)
next
  case (Some stamp)
  then obtain c where c: "c < max_iterations" "meets_difficulty C stamp bits"
    and stamp: "stamp = as_string \<lparr>hs_version = 1, hs_bits = bits, hs_date = date,
      hs_resource = resource, hs_nonce = nonce, hs_counter = c\<rparr>"
    by (rule mint_Some)
  have "parse stamp = Some \<lparr>hs_version = 1, hs_bits = bits, hs_date = date,
      hs_resource = resource, hs_nonce = nonce, hs_counter = c\<rparr>"
    unfolding stamp using assms(2-5) c(1) by (intro parse_as_string) (simp add: stamp_ok_def u8_max_def)
  with c(2) have "verify_stamp C stamp r min_bits \<longleftrightarrow> r = resource \<and> min_bits \<le> bits" for r min_bits
    by (auto simp: verify_stamp_def)
  with Some c(2) show ?thesis by (simp add: meets_difficulty_iff [OF assms(1,4)])
qed

lemma minted_stamp_verifies_witness:
  "\<exists>stamp. mint crypto_demo ''n'' ''20260101'' ''did:key:z'' 1 5 = Some stamp
   \<and> verify_stamp crypto_demo stamp ''did:key:z'' 1 \<and> \<not> verify_stamp crypto_demo stamp ''z'' 1
   \<and> \<not> verify_stamp crypto_demo stamp ''did:key:z'' 2"
proof -
  have "dec_str 1 = ''1''" by (simp add: dec_str.simps digit_char_def char_of_def bit_iff_odd)
  then have "1 \<le> leading_zero_bits (sha256 crypto_demo (as_string \<lparr>hs_version = 1, hs_bits = 1,
      hs_date = ''20260101'', hs_resource = ''did:key:z'', hs_nonce = ''n'', hs_counter = 0\<rparr>))"
    by (simp add: crypto_demo_def as_string_def leading_zero_bits_def leading_zeros_def upt8 sat_add_def u8_max_def)
  then obtain stamp where "mint crypto_demo ''n'' ''20260101'' ''did:key:z'' 1 5 = Some stamp"
    by (simp add: mint_def numeral_eq_Suc meets_difficulty_def)
  then show ?thesis
    using minted_stamp_verifies [OF crypto_demo_laws, of "''n''" "''20260101''" 1 5 "''did:key:z''"]
    by (auto simp: u8_max_def u64_max_def)
qed

end
