(* ===== verification/Admission.thy ===== *)
theory Admission
  imports Hashcash Payment_Types Machines
begin

text \<open>
  \<^verbatim>\<open>security/admission.rs\<close>: the checks an incoming gossip packet passes (signature, ownership
  of the claimed public id, clock drift, nonce replay, proof of work) and the tracker of nonces
  seen. \<^verbatim>\<open>serde_json\<close> is the record \<open>packet_json\<close>. The two clock readings of a
  check, for the drift and for the tracker, are arguments. Differences of \<^verbatim>\<open>i64\<close> times wrap,
  as they do in a release build.
\<close>

record 'v packet_json = "'v json_api" +
  j_from_slice :: "string \<Rightarrow> 'v option"
  j_as_i64 :: "'v \<Rightarrow> int option"
  j_is_null :: "'v \<Rightarrow> bool"
  j_jcs :: "'v \<Rightarrow> string option"

record admission_config =
  max_time_drift_sec :: int
  min_hashcash_bits :: nat
  require_hashcash_for_handshake :: bool
  require_hashcash_for_broadcast :: bool

definition admission_config_default :: admission_config where
  "admission_config_default = \<lparr>max_time_drift_sec = 180, min_hashcash_bits = 12,
     require_hashcash_for_handshake = False, require_hashcash_for_broadcast = False\<rparr>"

text \<open>The reasons of a rejection, one constructor for each text.\<close>

datatype reject_reason =
    Invalid_json
  | Missing_agent_did
  | Missing_payload
  | Missing_signature
  | Verify_error sign_error
  | Invalid_signature
  | Public_id_verify_error sign_error
  | Public_id_ownership_mismatch
  | Missing_timestamp
  | Clock_drift_exceeded
  | Missing_nonce
  | Nonce_replay
  | Hashcash_required
  | Hashcash_missing_stamp
  | Invalid_hashcash
  | Hashcash_required_for_broadcast

datatype admission_verdict = Accept | Reject reject_reason

subsection \<open>The nonce tracker\<close>

record nonce_tracker =
  seen :: "(string, int) btree_map"
  ttl_sec :: int

definition tracker_new :: "int \<Rightarrow> nonce_tracker" where
  "tracker_new ttl = \<lparr>seen = bempty, ttl_sec = ttl\<rparr>"

definition gc :: "int \<Rightarrow> nonce_tracker \<Rightarrow> nonce_tracker" where
  "gc now t = t\<lparr>seen := bretain (\<lambda>_ ts. to_i64 (now - ttl_sec t) \<le> ts) (seen t)\<rparr>"

definition check_and_record :: "int \<Rightarrow> string \<Rightarrow> nonce_tracker \<Rightarrow> bool \<times> nonce_tracker" where
  "check_and_record now nonce t =
     (let t = gc now t
      in if bcontains (seen t) nonce then (False, t)
         else (True, t\<lparr>seen := binsert nonce now (seen t)\<rparr>))"

subsection \<open>Packets\<close>

definition j_str :: "('v, 'm) packet_json_scheme \<Rightarrow> 'v \<Rightarrow> string \<Rightarrow> string option" where
  "j_str J v k = (case j_get J v k of None \<Rightarrow> None | Some x \<Rightarrow> j_as_str J x)"

definition j_present :: "('v, 'm) packet_json_scheme \<Rightarrow> 'v \<Rightarrow> string \<Rightarrow> 'v option" where
  "j_present J v k = (case j_get J v k of None \<Rightarrow> None | Some x \<Rightarrow> if j_is_null J x then None else Some x)"

definition or_else :: "'a option \<Rightarrow> 'a \<Rightarrow> 'a" where
  "or_else x d = (case x of None \<Rightarrow> d | Some y \<Rightarrow> y)"

definition i64_abs :: "int \<Rightarrow> int" where
  "i64_abs z = to_i64 \<bar>z\<bar>"

text \<open>The stamp of a packet, for a resource that defaults to \<open>fallback\<close>.\<close>

definition check_hashcash ::
  "crypto \<Rightarrow> ('v, 'm) packet_json_scheme \<Rightarrow> admission_config \<Rightarrow> string \<Rightarrow> 'v \<Rightarrow> admission_verdict" where
  "check_hashcash C J config fallback hashcash_payload =
     (case j_str J hashcash_payload ''stamp'' of
        None \<Rightarrow> Reject Hashcash_missing_stamp
      | Some stamp \<Rightarrow>
        if \<not> verify_stamp C stamp (or_else (j_str J hashcash_payload ''resource'') fallback)
             (min_hashcash_bits config)
        then Reject Invalid_hashcash else Accept)"

text \<open>The check that the claimed public id belongs to the signing key.\<close>

definition check_public_id ::
  "crypto \<Rightarrow> ('v, 'm) packet_json_scheme \<Rightarrow> 'v \<Rightarrow> string \<Rightarrow> admission_verdict" where
  "check_public_id C J payload controller_id =
     (case j_str J payload ''public_id'' of
        None \<Rightarrow> Accept
      | Some claimed \<Rightarrow>
        if claimed = [] then Accept
        else (case verify_public_id_ownership C claimed controller_id of
                Inl e \<Rightarrow> Reject (Public_id_verify_error e)
              | Inr owns \<Rightarrow> if owns then Accept else Reject Public_id_ownership_mismatch))"

text \<open>The nonce, the tracker if there is one, and the stamp.\<close>

definition check_nonce_and_work ::
  "crypto \<Rightarrow> ('v, 'm) packet_json_scheme \<Rightarrow> admission_config \<Rightarrow> int \<Rightarrow> string \<Rightarrow> 'v \<Rightarrow>
     nonce_tracker option \<Rightarrow> admission_verdict \<times> nonce_tracker option" where
  "check_nonce_and_work C J config now agent_did payload tracker =
     (case j_str J payload ''nonce'' of
        None \<Rightarrow> (Reject Missing_nonce, tracker)
      | Some nonce \<Rightarrow>
        if blank nonce then (Reject Missing_nonce, tracker)
        else
          let (fresh, tracker) = (case tracker of None \<Rightarrow> (True, None)
                | Some t \<Rightarrow> (case check_and_record now nonce t of (b, t) \<Rightarrow> (b, Some t)))
          in if \<not> fresh then (Reject Nonce_replay, tracker)
             else (case j_present J payload ''hashcash'' of
                     None \<Rightarrow> ((if require_hashcash_for_handshake config then Reject Hashcash_required
                               else Accept), tracker)
                   | Some hashcash_payload \<Rightarrow>
                     (check_hashcash C J config agent_did hashcash_payload, tracker)))"

definition validate_handshake ::
  "crypto \<Rightarrow> ('v, 'm) packet_json_scheme \<Rightarrow> admission_config \<Rightarrow> int \<Rightarrow> int \<Rightarrow> 'v \<Rightarrow>
     nonce_tracker option \<Rightarrow> admission_verdict \<times> nonce_tracker option" where
  "validate_handshake C J config now now' v tracker =
     (case j_str J v ''agent_did'' of None \<Rightarrow> (Reject Missing_agent_did, tracker)
      | Some agent_did \<Rightarrow>
     (case j_get J v ''payload'' of None \<Rightarrow> (Reject Missing_payload, tracker)
      | Some payload \<Rightarrow>
     (case j_str J v ''signature'' of None \<Rightarrow> (Reject Missing_signature, tracker)
      | Some signature \<Rightarrow>
        let controller_id = or_else (j_str J payload ''controller_id'') agent_did
        in case verify_payload C (j_jcs J) payload signature controller_id of
             Inl e \<Rightarrow> (Reject (Verify_error e), tracker)
           | Inr valid \<Rightarrow>
             if \<not> valid then (Reject Invalid_signature, tracker)
             else (case check_public_id C J payload controller_id of
                Reject r \<Rightarrow> (Reject r, tracker)
              | Accept \<Rightarrow>
                (case (case j_get J payload ''timestamp'' of None \<Rightarrow> None | Some x \<Rightarrow> j_as_i64 J x) of
                   None \<Rightarrow> (Reject Missing_timestamp, tracker)
                 | Some timestamp \<Rightarrow>
                   if max_time_drift_sec config < i64_abs (to_i64 (now - timestamp))
                   then (Reject Clock_drift_exceeded, tracker)
                   else check_nonce_and_work C J config now' agent_did payload tracker)))))"

definition validate_broadcast ::
  "crypto \<Rightarrow> ('v, 'm) packet_json_scheme \<Rightarrow> admission_config \<Rightarrow> string \<Rightarrow> 'v \<Rightarrow> admission_verdict" where
  "validate_broadcast C J config envelope_type v =
     (if require_hashcash_for_broadcast config \<and>
         envelope_type \<in> {''ACTION'', ''ORACLE_FEED'', ''PUBLIC_CLIENT_SNAPSHOT''}
      then (case j_present J v ''hashcash'' of
              None \<Rightarrow> Reject Hashcash_required_for_broadcast
            | Some hashcash_payload \<Rightarrow> check_hashcash C J config envelope_type hashcash_payload)
      else Accept)"

definition validate_envelope ::
  "crypto \<Rightarrow> ('v, 'm) packet_json_scheme \<Rightarrow> admission_config \<Rightarrow> int \<Rightarrow> int \<Rightarrow> 'v \<Rightarrow>
     nonce_tracker option \<Rightarrow> admission_verdict \<times> nonce_tracker option" where
  "validate_envelope C J config now now' v tracker =
     (let envelope_type = or_else (j_str J v ''type'') ''''
      in if envelope_type = ''HANDSHAKE''
         then validate_handshake C J config now now' v tracker
         else (validate_broadcast C J config envelope_type v, tracker))"

definition validate_gossip_packet ::
  "crypto \<Rightarrow> ('v, 'm) packet_json_scheme \<Rightarrow> admission_config \<Rightarrow> int \<Rightarrow> string \<Rightarrow> admission_verdict" where
  "validate_gossip_packet C J config now bytes =
     (case j_from_slice J bytes of None \<Rightarrow> Reject Invalid_json
      | Some v \<Rightarrow> fst (validate_envelope C J config now now v None))"

definition validate_gossip_packet_with_nonce ::
  "crypto \<Rightarrow> ('v, 'm) packet_json_scheme \<Rightarrow> admission_config \<Rightarrow> int \<Rightarrow> int \<Rightarrow> string \<Rightarrow>
     nonce_tracker \<Rightarrow> admission_verdict \<times> nonce_tracker" where
  "validate_gossip_packet_with_nonce C J config now now' bytes tracker =
     (case j_from_slice J bytes of None \<Rightarrow> (Reject Invalid_json, tracker)
      | Some v \<Rightarrow> (case validate_envelope C J config now now' v (Some tracker) of
                    (verdict, t) \<Rightarrow> (verdict, or_else t tracker)))"

subsection \<open>The tracker\<close>

lemma seen_gc: "bget (seen (gc now t)) n =
   (case bget (seen t) n of None \<Rightarrow> None
    | Some ts \<Rightarrow> if to_i64 (now - ttl_sec t) \<le> ts then Some ts else None)"
  by (simp add: gc_def bget_bretain split: option.split)

lemma ttl_gc [simp]: "ttl_sec (gc now t) = ttl_sec t"
  by (simp add: gc_def)

lemma check_and_record_ttl [simp]: "ttl_sec (snd (check_and_record now n t)) = ttl_sec t"
  by (simp add: check_and_record_def Let_def)

lemma check_and_record_fresh:
  "fst (check_and_record now n t) \<longleftrightarrow> bget (seen (gc now t)) n = None"
  by (simp add: check_and_record_def Let_def)

lemma check_and_record_seen:
  "bget (seen (snd (check_and_record now n t))) m =
     (if m = n \<and> bget (seen (gc now t)) n = None then Some now else bget (seen (gc now t)) m)"
  by (auto simp: check_and_record_def Let_def)

subsection \<open>What a verdict tells\<close>

text \<open>The parts of a handshake, named as the code names them.\<close>

record handshake_parts =
  hp_agent_did :: string
  hp_signature :: string
  hp_controller_id :: string
  hp_timestamp :: int
  hp_nonce :: string

definition handshake_of :: "('v, 'm) packet_json_scheme \<Rightarrow> 'v \<Rightarrow> ('v \<times> handshake_parts) option" where
  "handshake_of J v =
     (case (j_str J v ''type'', j_str J v ''agent_did'', j_get J v ''payload'', j_str J v ''signature'') of
        (Some ty, Some did, Some payload, Some sig) \<Rightarrow>
          (case (case j_get J payload ''timestamp'' of None \<Rightarrow> None | Some x \<Rightarrow> j_as_i64 J x,
                 j_str J payload ''nonce'') of
             (Some ts, Some nonce) \<Rightarrow>
               if ty = ''HANDSHAKE''
               then Some (payload, \<lparr>hp_agent_did = did, hp_signature = sig,
                      hp_controller_id = or_else (j_str J payload ''controller_id'') did,
                      hp_timestamp = ts, hp_nonce = nonce\<rparr>)
               else None
           | _ \<Rightarrow> None)
      | _ \<Rightarrow> None)"

definition is_handshake :: "('v, 'm) packet_json_scheme \<Rightarrow> 'v \<Rightarrow> bool" where
  "is_handshake J v \<longleftrightarrow> j_str J v ''type'' = Some ''HANDSHAKE''"

lemma check_public_id_Accept:
  "check_public_id C J payload ctrl = Accept \<longleftrightarrow>
     (\<forall>claimed. j_str J payload ''public_id'' = Some claimed \<longrightarrow> claimed \<noteq> [] \<longrightarrow>
        verify_public_id_ownership C claimed ctrl = Ok True)"
  by (auto simp: check_public_id_def split: option.splits sum.splits)

lemma check_nonce_and_work_nonce:
  "check_nonce_and_work C J config now' did payload tracker = (Accept, t') \<Longrightarrow>
     \<exists>nonce. j_str J payload ''nonce'' = Some nonce"
  by (auto simp: check_nonce_and_work_def split: option.splits)

lemma validate_handshake_Accept:
  assumes "validate_handshake C J config now now' v tracker = (Accept, tracker')" and "is_handshake J v"
  shows "\<exists>payload h. handshake_of J v = Some (payload, h)
     \<and> verify_payload C (j_jcs J) payload (hp_signature h) (hp_controller_id h) = Ok True
     \<and> check_public_id C J payload (hp_controller_id h) = Accept
     \<and> i64_abs (to_i64 (now - hp_timestamp h)) \<le> max_time_drift_sec config
     \<and> check_nonce_and_work C J config now' (hp_agent_did h) payload tracker = (Accept, tracker')"
proof -
  from assms(1) obtain did payload sig x ts where parts: "j_str J v ''agent_did'' = Some did"
      "j_get J v ''payload'' = Some payload" "j_str J v ''signature'' = Some sig"
      "j_get J payload ''timestamp'' = Some x" "j_as_i64 J x = Some ts"
    and ok: "verify_payload C (j_jcs J) payload sig (or_else (j_str J payload ''controller_id'') did) = Ok True"
      "check_public_id C J payload (or_else (j_str J payload ''controller_id'') did) = Accept"
      "i64_abs (to_i64 (now - ts)) \<le> max_time_drift_sec config"
      "check_nonce_and_work C J config now' did payload tracker = (Accept, tracker')"
    by (auto simp: validate_handshake_def Let_def not_less
        split: option.splits sum.splits if_splits admission_verdict.splits)
  moreover obtain nonce where "j_str J payload ''nonce'' = Some nonce"
    using check_nonce_and_work_nonce [OF ok(4)] ..
  ultimately show ?thesis using assms(2) by (simp add: is_handshake_def handshake_of_def)
qed

lemma check_nonce_and_work_Accept:
  assumes "check_nonce_and_work C J config now' did payload (Some t) = (Accept, t')"
  shows "\<exists>nonce. j_str J payload ''nonce'' = Some nonce \<and> \<not> blank nonce
     \<and> fst (check_and_record now' nonce t) \<and> t' = Some (snd (check_and_record now' nonce t))
     \<and> (case j_present J payload ''hashcash'' of None \<Rightarrow> \<not> require_hashcash_for_handshake config
        | Some hashcash \<Rightarrow> check_hashcash C J config did hashcash = Accept)"
  using assms
  by (auto simp: check_nonce_and_work_def split: option.splits if_splits prod.splits)

lemma check_nonce_and_work_tracker:
  assumes "check_nonce_and_work C J config now' did payload (Some t) = (verdict, t')"
  shows "t' = Some t \<and> verdict = Reject Missing_nonce
     \<or> (\<exists>nonce. j_str J payload ''nonce'' = Some nonce \<and> t' = Some (snd (check_and_record now' nonce t)))"
  using assms
  by (auto simp: check_nonce_and_work_def split: option.splits if_splits prod.splits)

lemma validate_handshake_tracker:
  assumes "validate_handshake C J config now now' v (Some t) = (verdict, t')"
  shows "t' = Some t
     \<or> (\<exists>payload nonce. j_get J v ''payload'' = Some payload \<and> j_str J payload ''nonce'' = Some nonce
          \<and> t' = Some (snd (check_and_record now' nonce t)))"
  using assms
  by (auto simp: validate_handshake_def Let_def dest: check_nonce_and_work_tracker
      split: option.splits sum.splits if_splits admission_verdict.splits)

lemma validate_envelope_tracker:
  assumes "validate_envelope C J config now now' v (Some t) = (verdict, t')"
  shows "t' = Some t
     \<or> (\<exists>payload nonce. j_get J v ''payload'' = Some payload \<and> j_str J payload ''nonce'' = Some nonce
          \<and> t' = Some (snd (check_and_record now' nonce t)))"
  using assms validate_handshake_tracker [of C J config now now' v t verdict t']
  by (simp add: validate_envelope_def Let_def split: if_splits)

lemma packet_tracker:
  "snd (validate_gossip_packet_with_nonce C J config now now' bytes t) = t
     \<or> (\<exists>nonce. snd (validate_gossip_packet_with_nonce C J config now now' bytes t)
          = snd (check_and_record now' nonce t))"
  by (auto simp: validate_gossip_packet_with_nonce_def or_else_def
      split: option.splits prod.splits dest!: validate_envelope_tracker)

text \<open>The one value that a difference of times may take whose absolute value is no \<^verbatim>\<open>i64\<close>.\<close>

lemma i64_abs_le:
  assumes "i64_abs (to_i64 z) \<le> d"
  shows "\<bar>to_i64 z\<bar> \<le> d \<or> to_i64 z = - (2 ^ 63)"
proof (cases "to_i64 z = - (2 ^ 63)")
  case False
  have "i64_ok (to_i64 z)" by simp
  with False have "0 \<le> \<bar>to_i64 z\<bar>" and "\<bar>to_i64 z\<bar> < 2 ^ 63"
    unfolding i64_ok_def by linarith+
  then have "i64_abs (to_i64 z) = \<bar>to_i64 z\<bar>" unfolding i64_abs_def by (rule to_i64_small)
  with assms show ?thesis by simp
qed simp

subsection \<open>Sequences of packets\<close>

text \<open>A packet with the two clock readings of its check.\<close>

type_synonym packet = "int \<times> int \<times> string"

definition admit ::
  "crypto \<Rightarrow> ('v, 'm) packet_json_scheme \<Rightarrow> admission_config \<Rightarrow> nonce_tracker \<Rightarrow> packet \<Rightarrow>
     admission_verdict \<times> nonce_tracker" where
  "admit C J config t p = (case p of (now, now', bytes) \<Rightarrow>
     validate_gossip_packet_with_nonce C J config now now' bytes t)"

definition admit_step ::
  "crypto \<Rightarrow> ('v, 'm) packet_json_scheme \<Rightarrow> admission_config \<Rightarrow> nonce_tracker \<Rightarrow> packet \<Rightarrow> nonce_tracker" where
  "admit_step C J config t p = snd (admit C J config t p)"

definition verdict_at ::
  "crypto \<Rightarrow> ('v, 'm) packet_json_scheme \<Rightarrow> admission_config \<Rightarrow> nonce_tracker \<Rightarrow> packet list \<Rightarrow> nat \<Rightarrow>
     admission_verdict" where
  "verdict_at C J config t ps i = fst (admit C J config (run (admit_step C J config) t (take i ps)) (ps ! i))"

text \<open>A nonce stays recorded for as long as the clock has not passed its time to live.\<close>

interpretation nonce_kept: invariant_machine "admit_step C J config"
  "\<lambda>(now, now', bytes). to_i64 (now' - ttl) \<le> r"
  "\<lambda>t. ttl_sec t = ttl \<and> bget (seen t) n = Some r" for C J config ttl r n
proof unfold_locales
  fix p :: packet and t :: nonce_tracker
  assume "case p of (now, now', bytes) \<Rightarrow> to_i64 (now' - ttl) \<le> r"
    and t: "ttl_sec t = ttl \<and> bget (seen t) n = Some r"
  then obtain now now' bytes where p: "p = (now, now', bytes)" and clock: "to_i64 (now' - ttl) \<le> r"
    by (cases p) auto
  from t clock have gc: "bget (seen (gc now' t)) n = Some r" by (simp add: seen_gc)
  then have "bget (seen (snd (check_and_record now' m t))) n = Some r" for m
    by (auto simp: check_and_record_seen)
  then show "ttl_sec (admit_step C J config t p) = ttl \<and> bget (seen (admit_step C J config t p)) n = Some r"
    using t packet_tracker [of C J config now now' bytes t] by (auto simp: admit_step_def admit_def p)
qed

interpretation tracker_ttl: invariant_machine "admit_step C J config" "\<lambda>_. True"
  "\<lambda>t. ttl_sec t = ttl" for C J config ttl
proof unfold_locales
  fix p :: packet and t :: nonce_tracker
  assume "ttl_sec t = ttl"
  then show "ttl_sec (admit_step C J config t p) = ttl"
    using packet_tracker [of C J config "fst p" "fst (snd p)" "snd (snd p)" t]
    by (auto simp: admit_step_def admit_def split: prod.splits)
qed

lemma handshake_ofD:
  assumes "handshake_of J v = Some (payload, h)"
  shows "j_get J v ''payload'' = Some payload" and "j_str J payload ''nonce'' = Some (hp_nonce h)"
    and "\<exists>x. j_get J payload ''timestamp'' = Some x \<and> j_as_i64 J x = Some (hp_timestamp h)"
  using assms by (auto simp: handshake_of_def split: option.splits if_splits)

lemma admit_Accept:
  assumes "fst (admit C J config t (now, now', bytes)) = Accept" and "j_from_slice J bytes = Some v"
    and "is_handshake J v"
  shows "\<exists>payload h. handshake_of J v = Some (payload, h)
     \<and> verify_payload C (j_jcs J) payload (hp_signature h) (hp_controller_id h) = Ok True
     \<and> check_public_id C J payload (hp_controller_id h) = Accept
     \<and> i64_abs (to_i64 (now - hp_timestamp h)) \<le> max_time_drift_sec config
     \<and> (case j_present J payload ''hashcash'' of None \<Rightarrow> \<not> require_hashcash_for_handshake config
        | Some hashcash \<Rightarrow> check_hashcash C J config (hp_agent_did h) hashcash = Accept)
     \<and> bget (seen (gc now' t)) (hp_nonce h) = None
     \<and> admit_step C J config t (now, now', bytes) = snd (check_and_record now' (hp_nonce h) t)"
proof -
  obtain t' where env: "validate_envelope C J config now now' v (Some t) = (Accept, t')"
    using assms(1,2)
    by (cases "validate_envelope C J config now now' v (Some t)")
      (simp add: admit_def validate_gossip_packet_with_nonce_def)
  then have "validate_handshake C J config now now' v (Some t) = (Accept, t')"
    using assms(3) by (simp add: validate_envelope_def is_handshake_def or_else_def)
  from validate_handshake_Accept [OF this assms(3)] obtain payload h
    where h: "handshake_of J v = Some (payload, h)"
      "verify_payload C (j_jcs J) payload (hp_signature h) (hp_controller_id h) = Ok True"
      "check_public_id C J payload (hp_controller_id h) = Accept"
      "i64_abs (to_i64 (now - hp_timestamp h)) \<le> max_time_drift_sec config"
      and work: "check_nonce_and_work C J config now' (hp_agent_did h) payload (Some t) = (Accept, t')"
    by blast
  from check_nonce_and_work_Accept [OF work] handshake_ofD(2) [OF h(1)]
  have "fst (check_and_record now' (hp_nonce h) t)" and "t' = Some (snd (check_and_record now' (hp_nonce h) t))"
    and "case j_present J payload ''hashcash'' of None \<Rightarrow> \<not> require_hashcash_for_handshake config
        | Some hashcash \<Rightarrow> check_hashcash C J config (hp_agent_did h) hashcash = Accept"
    by auto
  moreover have "admit_step C J config t (now, now', bytes) = or_else t' t"
    using assms(2) env by (simp add: admit_step_def admit_def validate_gossip_packet_with_nonce_def)
  ultimately show ?thesis using h by (auto simp: check_and_record_fresh or_else_def)
qed

text \<open>Clock readings that never go back, and at most \<open>lag\<close> seconds between the two of a check.\<close>

definition clocks_ok :: "int \<Rightarrow> packet list \<Rightarrow> bool" where
  "clocks_ok lag ps \<longleftrightarrow> sorted_wrt (\<lambda>p q. fst (snd p) \<le> fst q) ps
     \<and> (\<forall>(now, now', bytes) \<in> set ps. 0 \<le> now \<and> now \<le> now' \<and> now' \<le> now + lag \<and> now' < 2 ^ 62)"

lemma clocks_okD:
  assumes "clocks_ok lag ps" and "i < length ps"
  shows "0 \<le> fst (ps ! i)" and "fst (ps ! i) \<le> fst (snd (ps ! i))"
    and "fst (snd (ps ! i)) \<le> fst (ps ! i) + lag" and "fst (snd (ps ! i)) < 2 ^ 62"
  using assms nth_mem [OF assms(2)] by (cases "ps ! i"; auto simp: clocks_ok_def)+

lemma clocks_ok_mono:
  assumes "clocks_ok lag ps" and "i < j" and "j < length ps"
  shows "fst (snd (ps ! i)) \<le> fst (ps ! j)"
  using assms by (auto simp: clocks_ok_def dest: sorted_wrt_nth_less)

lemma drift_bound:
  assumes "i64_abs (to_i64 (now - ts)) \<le> d" and "0 \<le> now" and "now < 2 ^ 62" and "0 \<le> ts" and "ts < 2 ^ 63"
  shows "\<bar>now - ts\<bar> \<le> d"
proof -
  have "to_i64 (now - ts) = now - ts"
    using assms(2-5) by (intro to_i64_id) (simp add: i64_ok_def)
  with i64_abs_le [OF assms(1)] assms(2-5) show ?thesis by auto
qed

lemma nonce_still_seen:
  assumes "clocks_ok lag ps" and "i < j" and "j < length ps" and "0 \<le> ttl_sec t" and "ttl_sec t < 2 ^ 62"
    and "bget (seen (run (admit_step C J config) t (take (Suc i) ps))) n = Some r"
    and "fst (snd (ps ! j)) - ttl_sec t \<le> r"
  shows "bget (seen (gc (fst (snd (ps ! j))) (run (admit_step C J config) t (take j ps)))) n = Some r"
proof -
  let ?step = "admit_step C J config" and ?mid = "drop (Suc i) (take j ps)"
  have kept: "to_i64 (fst (snd (ps ! k)) - ttl_sec t) \<le> r" if "k \<le> j" for k
  proof -
    have k: "k < length ps" using that assms(3) by simp
    have "fst (snd (ps ! k)) \<le> fst (snd (ps ! j))"
      using that clocks_ok_mono [OF assms(1) _ assms(3), of k] clocks_okD(2) [OF assms(1,3)]
      by (cases "k = j") auto
    moreover have "to_i64 (fst (snd (ps ! k)) - ttl_sec t) = fst (snd (ps ! k)) - ttl_sec t"
      using clocks_okD [OF assms(1) k] assms(4,5) by (intro to_i64_id) (simp add: i64_ok_def)
    ultimately show ?thesis using assms(7) by linarith
  qed
  have ttl: "ttl_sec (run ?step t qs) = ttl_sec t" for qs
    by (rule tracker_ttl.run_inv) (simp_all add: list_all_iff)
  have "take j ps = take (Suc i) ps @ ?mid"
    using assms(2) append_take_drop_id [of "Suc i" "take j ps", symmetric] by (simp add: min_def)
  then have split: "run ?step t (take j ps) = run ?step (run ?step t (take (Suc i) ps)) ?mid"
    by (metis run_append)
  have "to_i64 (fst (snd q) - ttl_sec t) \<le> r" if "q \<in> set ?mid" for q
  proof -
    have "q \<in> set (take j ps)" using that by (rule in_set_dropD)
    then obtain k where "k < length (take j ps)" and "take j ps ! k = q"
      unfolding in_set_conv_nth by blast
    then have "k \<le> j" and "q = ps ! k" by simp_all
    with kept show ?thesis by simp
  qed
  then have "list_all (\<lambda>(now, now', bytes). to_i64 (now' - ttl_sec t) \<le> r) ?mid"
    by (auto simp: list_all_iff)
  then have "bget (seen (run ?step t (take j ps))) n = Some r"
    unfolding split using nonce_kept.run_inv [of "ttl_sec t" r ?mid "run ?step t (take (Suc i) ps)" n C J config]
      ttl assms(6) by blast
  then show ?thesis using kept [of j] ttl by (simp add: seen_gc)
qed

text \<open>C30: no replay. When the tracker keeps nonces for at least twice the drift allowed plus the
  lag of a check, a signed handshake payload is admitted at most once, ever, in whatever envelope
  it comes again and whatever other packets arrive in between.\<close>

theorem handshake_admitted_once:
  assumes "2 * max_time_drift_sec config + lag \<le> ttl_sec t" and "ttl_sec t < 2 ^ 62"
    and "clocks_ok lag ps" and "i < j" and "j < length ps"
    and "j_from_slice J (snd (snd (ps ! i))) = Some v" and "is_handshake J v"
    and "j_from_slice J (snd (snd (ps ! j))) = Some w" and "is_handshake J w"
    and "j_get J v ''payload'' = j_get J w ''payload''"
    and "\<forall>payload h. handshake_of J v = Some (payload, h) \<longrightarrow> 0 \<le> hp_timestamp h \<and> hp_timestamp h < 2 ^ 63"
    and "verdict_at C J config t ps i = Accept"
  shows "verdict_at C J config t ps j \<noteq> Accept"
proof
  assume second: "verdict_at C J config t ps j = Accept"
  let ?step = "admit_step C J config" and ?d = "max_time_drift_sec config"
  obtain a a' x where pi: "ps ! i = (a, a', x)" by (cases "ps ! i")
  obtain b b' y where pj: "ps ! j = (b, b', y)" by (cases "ps ! j")
  define s where "s = run ?step t (take i ps)"
  define u where "u = run ?step t (take j ps)"
  have ilen: "i < length ps" using assms(4,5) by simp
  have ttl: "ttl_sec s = ttl_sec t"
    unfolding s_def by (rule tracker_ttl.run_inv) (simp_all add: list_all_iff)
  from assms(6,12) pi have "fst (admit C J config s (a, a', x)) = Accept" and "j_from_slice J x = Some v"
    by (simp_all add: verdict_at_def s_def)
  from admit_Accept [OF this assms(7)] obtain payload h where v: "handshake_of J v = Some (payload, h)"
    "i64_abs (to_i64 (a - hp_timestamp h)) \<le> ?d" "bget (seen (gc a' s)) (hp_nonce h) = None"
    "?step s (a, a', x) = snd (check_and_record a' (hp_nonce h) s)" by blast
  from assms(8) second pj have "fst (admit C J config u (b, b', y)) = Accept" and "j_from_slice J y = Some w"
    by (simp_all add: verdict_at_def u_def)
  from admit_Accept [OF this assms(9)] obtain payload' h' where w: "handshake_of J w = Some (payload', h')"
    "i64_abs (to_i64 (b - hp_timestamp h')) \<le> ?d" "bget (seen (gc b' u)) (hp_nonce h') = None" by blast
  have same: "hp_nonce h' = hp_nonce h" "hp_timestamp h' = hp_timestamp h"
    using handshake_ofD [OF v(1)] handshake_ofD [OF w(1)] assms(10) by auto
  note clocks = clocks_okD [OF assms(3) ilen, unfolded pi, simplified]
    clocks_okD [OF assms(3,5), unfolded pj, simplified]
  have drift: "\<bar>a - hp_timestamp h\<bar> \<le> ?d" "\<bar>b - hp_timestamp h\<bar> \<le> ?d"
    using assms(11) v(1) clocks by (intro drift_bound [OF v(2)] drift_bound [OF w(2) [unfolded same]]; force)+
  then have near: "fst (snd (ps ! j)) - ttl_sec t \<le> a'" and pos: "0 \<le> ttl_sec t"
    using assms(1) clocks by (simp_all add: pj)
  have "run ?step t (take (Suc i) ps) = ?step s (a, a', x)"
    by (simp add: take_Suc_conv_app_nth [OF ilen] pi s_def)
  then have "bget (seen (run ?step t (take (Suc i) ps))) (hp_nonce h) = Some a'"
    using v(3,4) by (simp add: check_and_record_seen)
  from nonce_still_seen [OF assms(3-5) pos assms(2) this near] w(3) show False
    by (simp add: pj same u_def)
qed

text \<open>A handshake on which the two theorems are tried.\<close>

datatype demo_value = DStr string | DInt int | DObj "(string \<times> demo_value) list"

fun demo_get :: "demo_value \<Rightarrow> string \<Rightarrow> demo_value option" where
  "demo_get (DObj fs) k = map_of fs k"
| "demo_get _ k = None"

definition demo_payload :: demo_value where
  "demo_payload = DObj [(''timestamp'', DInt 1000), (''nonce'', DStr ''n1'')]"

definition demo_hello :: demo_value where
  "demo_hello = DObj [(''type'', DStr ''HANDSHAKE''), (''agent_did'', DStr (id_agent_did demo_identity)),
     (''payload'', demo_payload), (''signature'', DStr (demo_enc (demo_sign demo_seed ''{}'')))]"

definition demo_packets :: "demo_value packet_json" where
  "demo_packets = \<lparr>j_get = demo_get, j_as_str = \<lambda>v. case v of DStr s \<Rightarrow> Some s | _ \<Rightarrow> None,
     j_as_bool = \<lambda>_. None, j_as_u64 = \<lambda>_. None, j_array = \<lambda>_. None, j_is_object = \<lambda>_. False,
     j_from_slice = \<lambda>s. if s = ''p'' then Some demo_hello else None,
     j_as_i64 = \<lambda>v. case v of DInt z \<Rightarrow> Some z | _ \<Rightarrow> None, j_is_null = \<lambda>_. False,
     j_jcs = \<lambda>_. Some ''{}''\<rparr>"

lemma demo_hello_fields:
  "j_str demo_packets demo_hello ''type'' = Some ''HANDSHAKE''"
  "j_str demo_packets demo_hello ''agent_did'' = Some (id_agent_did demo_identity)"
  "j_get demo_packets demo_hello ''payload'' = Some demo_payload"
  "j_str demo_packets demo_hello ''signature'' = Some (demo_enc (demo_sign demo_seed ''{}''))"
  "j_str demo_packets demo_payload ''controller_id'' = None"
  "j_str demo_packets demo_payload ''public_id'' = None"
  "j_get demo_packets demo_payload ''timestamp'' = Some (DInt 1000)"
  "j_as_i64 demo_packets (DInt z) = Some z"
  "j_str demo_packets demo_payload ''nonce'' = Some ''n1''"
  "j_present demo_packets demo_payload ''hashcash'' = None"
  "j_from_slice demo_packets ''p'' = Some demo_hello"
  by (simp_all add: j_str_def j_present_def demo_packets_def demo_hello_def demo_payload_def)

lemma demo_hello_signed:
  "verify_payload crypto_demo (j_jcs demo_packets) demo_payload (demo_enc (demo_sign demo_seed ''{}''))
     (id_agent_did demo_identity) = Ok True"
proof -
  have "sign_payload_with (j_jcs demo_packets) (identity_sign crypto_demo demo_identity) demo_payload
      = Ok (demo_enc (demo_sign demo_seed ''{}''))"
    by (simp add: sign_payload_with_def canonical_bytes_def demo_packets_def identity_sign_def demo_identity_def
        crypto_demo_def demo_dec_enc demo_seed_def)
  then show ?thesis by (rule sign_payload_verifies(2) [OF crypto_demo_laws demo_import])
qed

lemma demo_hello_handshake:
  "is_handshake demo_packets demo_hello"
  "handshake_of demo_packets demo_hello = Some (demo_payload, \<lparr>hp_agent_did = id_agent_did demo_identity,
     hp_signature = demo_enc (demo_sign demo_seed ''{}''), hp_controller_id = id_agent_did demo_identity,
     hp_timestamp = 1000, hp_nonce = ''n1''\<rparr>)"
  by (simp_all add: is_handshake_def handshake_of_def demo_hello_fields or_else_def)

lemma demo_hello_admitted:
  "fst (admit crypto_demo demo_packets admission_config_default (tracker_new 600) (1000, 1000, ''p'')) = Accept"
proof -
  have "\<not> blank ''n1''" by (simp add: blank_def trim_printable printable_def)
  moreover have "i64_abs (to_i64 (1000 - 1000)) \<le> 180" by (simp add: i64_abs_def to_i64_small)
  ultimately show ?thesis
    by (simp add: admit_def validate_gossip_packet_with_nonce_def validate_envelope_def validate_handshake_def
        demo_hello_fields or_else_def demo_hello_signed check_public_id_def admission_config_default_def
        check_nonce_and_work_def check_and_record_def tracker_new_def gc_def bget_bretain)
qed

lemma handshake_admitted_once_witness:
  "verdict_at crypto_demo demo_packets admission_config_default (tracker_new 600)
     [(1000, 1000, ''p''), (1005, 1005, ''p'')] 0 = Accept
   \<and> verdict_at crypto_demo demo_packets admission_config_default (tracker_new 600)
     [(1000, 1000, ''p''), (1005, 1005, ''p'')] 1 \<noteq> Accept"
proof -
  let ?ps = "[(1000, 1000, ''p''), (1005, 1005, ''p'')] :: packet list"
  have first: "verdict_at crypto_demo demo_packets admission_config_default (tracker_new 600) ?ps 0 = Accept"
    using demo_hello_admitted by (simp add: verdict_at_def)
  have "verdict_at crypto_demo demo_packets admission_config_default (tracker_new 600) ?ps 1 \<noteq> Accept"
    using first by (intro handshake_admitted_once [where lag = 0 and i = 0 and v = demo_hello and w = demo_hello])
      (simp_all add: admission_config_default_def tracker_new_def clocks_ok_def demo_hello_fields demo_hello_handshake)
  with first show ?thesis by simp
qed

text \<open>What the gates of a handshake establish.\<close>

definition authentic_handshake ::
  "crypto \<Rightarrow> ('v, 'm) packet_json_scheme \<Rightarrow> admission_config \<Rightarrow> int \<Rightarrow> 'v \<Rightarrow> handshake_parts \<Rightarrow> bool" where
  "authentic_handshake C J config now payload h \<longleftrightarrow>
     verify_payload C (j_jcs J) payload (hp_signature h) (hp_controller_id h) = Ok True
     \<and> (\<forall>claimed. j_str J payload ''public_id'' = Some claimed \<longrightarrow> claimed \<noteq> [] \<longrightarrow>
          verify_public_id_ownership C claimed (hp_controller_id h) = Ok True)
     \<and> (\<bar>to_i64 (now - hp_timestamp h)\<bar> \<le> max_time_drift_sec config
        \<or> to_i64 (now - hp_timestamp h) = - (2 ^ 63))
     \<and> (require_hashcash_for_handshake config \<longrightarrow> j_present J payload ''hashcash'' \<noteq> None)
     \<and> (\<forall>hashcash. j_present J payload ''hashcash'' = Some hashcash \<longrightarrow>
          (\<exists>stamp. j_str J hashcash ''stamp'' = Some stamp
             \<and> verify_stamp C stamp (or_else (j_str J hashcash ''resource'') (hp_agent_did h))
                 (min_hashcash_bits config)))"

lemma check_hashcash_Accept:
  "check_hashcash C J config did hashcash = Accept \<longleftrightarrow>
     (\<exists>stamp. j_str J hashcash ''stamp'' = Some stamp
        \<and> verify_stamp C stamp (or_else (j_str J hashcash ''resource'') did) (min_hashcash_bits config))"
  by (auto simp: check_hashcash_def split: option.splits)

lemma admit_authentic:
  assumes "admit C J config t (now, now', bytes) = (Accept, t')" and "j_from_slice J bytes = Some v"
    and "is_handshake J v"
  shows "\<exists>payload h. handshake_of J v = Some (payload, h) \<and> authentic_handshake C J config now payload h
     \<and> bget (seen (gc now' t)) (hp_nonce h) = None \<and> bget (seen t') (hp_nonce h) = Some now'"
proof -
  have "fst (admit C J config t (now, now', bytes)) = Accept"
    and t': "t' = admit_step C J config t (now, now', bytes)"
    using assms(1) by (simp_all add: admit_step_def)
  from admit_Accept [OF this(1) assms(2,3)] obtain payload h where h: "handshake_of J v = Some (payload, h)"
      "verify_payload C (j_jcs J) payload (hp_signature h) (hp_controller_id h) = Ok True"
      "check_public_id C J payload (hp_controller_id h) = Accept"
      "i64_abs (to_i64 (now - hp_timestamp h)) \<le> max_time_drift_sec config"
      "case j_present J payload ''hashcash'' of None \<Rightarrow> \<not> require_hashcash_for_handshake config
        | Some hashcash \<Rightarrow> check_hashcash C J config (hp_agent_did h) hashcash = Accept"
    and nonce: "bget (seen (gc now' t)) (hp_nonce h) = None"
      "admit_step C J config t (now, now', bytes) = snd (check_and_record now' (hp_nonce h) t)"
    by blast
  have "authentic_handshake C J config now payload h"
    using h(2,5) check_public_id_Accept [THEN iffD1, OF h(3)] i64_abs_le [OF h(4)]
    by (auto simp: authentic_handshake_def check_hashcash_Accept split: option.splits)
  with h(1) nonce t' show ?thesis by (auto simp: check_and_record_seen)
qed

text \<open>C31: what a verdict means. An admitted handshake is signed by the key it names, owns the public
  id it claims, carries the work its configuration asks for and had not been seen; its timestamp is
  within the drift allowed, the one exception being a timestamp exactly half the range of
  \<^verbatim>\<open>i64\<close> away, whose distance has no absolute value. A rejected packet leaves the tracker as it
  was or drops what has expired and records at most its own nonce.\<close>

theorem admission_verdicts:
  "case admit C J config t (now, now', bytes) of
      (Accept, t') \<Rightarrow> \<exists>v. j_from_slice J bytes = Some v \<and> (is_handshake J v \<longrightarrow>
        (\<exists>payload h. handshake_of J v = Some (payload, h) \<and> authentic_handshake C J config now payload h
           \<and> bget (seen (gc now' t)) (hp_nonce h) = None \<and> bget (seen t') (hp_nonce h) = Some now'))
    | (Reject reason, t') \<Rightarrow> t' = t \<or> (\<exists>nonce. \<forall>m. bget (seen t') m =
        (if m = nonce \<and> bget (seen (gc now' t)) nonce = None then Some now' else bget (seen (gc now' t)) m))"
proof -
  obtain verdict t' where adm: "admit C J config t (now, now', bytes) = (verdict, t')"
    by (cases "admit C J config t (now, now', bytes)")
  show ?thesis
  proof (cases verdict)
    case (Reject reason)
    have "t' = snd (validate_gossip_packet_with_nonce C J config now now' bytes t)"
      using adm by (simp add: admit_def)
    with packet_tracker [of C J config now now' bytes t]
    have "t' = t \<or> (\<exists>nonce. t' = snd (check_and_record now' nonce t))" by metis
    with adm Reject check_and_record_seen [of now' _ t] show ?thesis by fastforce
  next
    case Accept
    then obtain v where v: "j_from_slice J bytes = Some v"
      using adm by (auto simp: admit_def validate_gossip_packet_with_nonce_def split: option.splits)
    with admit_authentic [OF adm [unfolded Accept] v] adm Accept show ?thesis by simp
  qed
qed

lemma admission_verdicts_witness:
  "\<exists>t'. admit crypto_demo demo_packets admission_config_default (tracker_new 600) (1000, 1000, ''p'') = (Accept, t')
     \<and> bget (seen t') ''n1'' = Some 1000"
proof -
  obtain t' where "admit crypto_demo demo_packets admission_config_default (tracker_new 600) (1000, 1000, ''p'')
      = (Accept, t')"
    using demo_hello_admitted by (metis prod.collapse)
  with admission_verdicts [where C = crypto_demo and J = demo_packets and config = admission_config_default
      and t = "tracker_new 600" and now = 1000 and now' = 1000 and bytes = "''p''"]
  show ?thesis by (simp add: demo_hello_fields demo_hello_handshake)
qed

end
