(* ===== verification/Policy.thy ===== *)
theory Policy
  imports Rust_Str
begin

text \<open>
  \<^verbatim>\<open>security/capabilities.rs\<close> and \<^verbatim>\<open>brain/policy_engine.rs\<close>: which capabilities a
  trust level has by default, and the engine that asks for an approval of what is not allowed by
  default or is of high risk, turns approvals into grants and consumes, revokes and matches them.
  A fresh UUID and the clock reading of an operation are its arguments.
\<close>

subsection \<open>Capabilities\<close>

datatype trust_level = Trusted | Verified | Untrusted

type_synonym capability_policy = "trust_level \<Rightarrow> string btree_set option"

definition capability_policy_default :: capability_policy where
  "capability_policy_default trust = (case trust of
     Trusted \<Rightarrow> Some (bs_of_list [''fs.read'', ''fs.write'', ''net.outbound'', ''proc.exec'', ''wallet.sign'',
       ''wallet.send'', ''mcp.call'', ''model.invoke'', ''oracle.publish'', ''oracle.subscribe'',
       ''p2p.publish''])
   | Verified \<Rightarrow> Some (bs_of_list [''fs.read'', ''fs.write'', ''net.outbound'', ''mcp.call'', ''model.invoke'',
       ''oracle.subscribe'', ''p2p.publish''])
   | Untrusted \<Rightarrow> Some (bs_of_list [''fs.read'', ''model.invoke'']))"

text \<open>\<^verbatim>\<open>capability.split(':').next()\<close>.\<close>

definition base_capability :: "string \<Rightarrow> string" where
  "base_capability capability = hd (split_on (CHR '':'') capability)"

definition is_allowed :: "capability_policy \<Rightarrow> trust_level \<Rightarrow> string \<Rightarrow> bool" where
  "is_allowed policy trust capability =
     is_some_and (policy trust) (\<lambda>allowed. bs_member capability allowed \<or> bs_member (base_capability capability) allowed)"

datatype policy_error = Capability_denied | Pending_request_not_found | Grant_not_found

definition assert_allowed :: "capability_policy \<Rightarrow> trust_level \<Rightarrow> string \<Rightarrow> policy_error + unit" where
  "assert_allowed policy trust capability =
     (if \<not> is_allowed policy trust capability then Err Capability_denied else Ok ())"

definition list_allowed :: "capability_policy \<Rightarrow> trust_level \<Rightarrow> string list" where
  "list_allowed policy trust = (case policy trust of None \<Rightarrow> [] | Some allowed \<Rightarrow> bs_elems allowed)"

subsection \<open>The engine\<close>

datatype grant_scope = Once | Session | Permanent

record capability_grant =
  cg_grant_id :: string
  cg_created_at :: int
  cg_approved_by :: string
  cg_subject_pattern :: string
  cg_capability_pattern :: string
  cg_scope :: grant_scope
  cg_session_id :: "string option"

record capability_request =
  cr_request_id :: string
  cr_timestamp :: int
  cr_subject :: string
  cr_trust :: trust_level
  cr_capability :: string
  cr_reason :: "string option"
  cr_input_digest :: "string option"

datatype decision_kind = Allowed | Denied_pending_approval

datatype decision_reason =
    Approved_by_grant
  | Allowed_by_baseline_policy
  | Pending_existing_approval
  | Approval_required

record policy_decision =
  pd_decision :: decision_kind
  pd_reason :: decision_reason
  pd_request_id :: "string option"
  pd_grant_id :: "string option"

record policy_state =
  ps_grants :: "capability_grant list"
  ps_pending :: "capability_request list"

record policy_engine =
  pe_session_id :: string
  pe_base :: capability_policy
  pe_state :: policy_state

definition policy_engine_new :: "string \<Rightarrow> capability_policy \<Rightarrow> policy_state \<Rightarrow> policy_engine" where
  "policy_engine_new session base state = \<lparr>pe_session_id = session, pe_base = base, pe_state = state\<rparr>"

abbreviation grants :: "policy_engine \<Rightarrow> capability_grant list" where
  "grants e \<equiv> ps_grants (pe_state e)"

abbreviation pending :: "policy_engine \<Rightarrow> capability_request list" where
  "pending e \<equiv> ps_pending (pe_state e)"

abbreviation with_grants :: "capability_grant list \<Rightarrow> policy_engine \<Rightarrow> policy_engine" where
  "with_grants gs e \<equiv> e\<lparr>pe_state := (pe_state e)\<lparr>ps_grants := gs\<rparr>\<rparr>"

abbreviation with_pending :: "capability_request list \<Rightarrow> policy_engine \<Rightarrow> policy_engine" where
  "with_pending rs e \<equiv> e\<lparr>pe_state := (pe_state e)\<lparr>ps_pending := rs\<rparr>\<rparr>"

definition is_high_risk :: "string \<Rightarrow> bool" where
  "is_high_risk capability \<longleftrightarrow> base_capability capability \<in>
     {''proc.exec'', ''wallet.sign'', ''wallet.send'', ''fs.write'', ''net.outbound'',
      ''oracle.publish'', ''p2p.publish''}"

definition matches_pattern :: "string \<Rightarrow> string \<Rightarrow> bool" where
  "matches_pattern pattern v =
     (if pattern = ''*'' then True
      else if pattern \<noteq> [] \<and> last pattern = CHR ''*'' then prefix (butlast pattern) v
      else pattern = v)"

definition grant_matches :: "policy_engine \<Rightarrow> capability_request \<Rightarrow> capability_grant \<Rightarrow> bool" where
  "grant_matches e request grant \<longleftrightarrow>
     matches_pattern (cg_subject_pattern grant) (cr_subject request)
     \<and> matches_pattern (cg_capability_pattern grant) (cr_capability request)
     \<and> (case cg_scope grant of
          Session \<Rightarrow> is_some_and (cg_session_id grant) (\<lambda>session. session = pe_session_id e)
        | _ \<Rightarrow> True)"

definition find_matching_grant :: "policy_engine \<Rightarrow> capability_request \<Rightarrow> capability_grant option" where
  "find_matching_grant e request = List.find (grant_matches e request) (grants e)"

definition same_request :: "capability_request \<Rightarrow> capability_request \<Rightarrow> bool" where
  "same_request p request \<longleftrightarrow> cr_subject p = cr_subject request
     \<and> cr_capability p = cr_capability request \<and> cr_trust p = cr_trust request"

definition completed_request :: "string \<Rightarrow> int \<Rightarrow> capability_request \<Rightarrow> capability_request" where
  "completed_request uuid now request =
     (let p = (if cr_request_id request = [] then request\<lparr>cr_request_id := uuid\<rparr> else request)
      in if cr_timestamp p = 0 then p\<lparr>cr_timestamp := now\<rparr> else p)"

definition evaluate ::
  "string \<Rightarrow> int \<Rightarrow> capability_request \<Rightarrow> policy_engine \<Rightarrow> policy_decision \<times> policy_engine" where
  "evaluate uuid now request e =
     (case find_matching_grant e request of
        Some grant \<Rightarrow>
          (\<lparr>pd_decision = Allowed, pd_reason = Approved_by_grant, pd_request_id = None,
            pd_grant_id = Some (cg_grant_id grant)\<rparr>,
           if cg_scope grant = Once
           then with_grants (filter (\<lambda>g. cg_grant_id g \<noteq> cg_grant_id grant) (grants e)) e else e)
      | None \<Rightarrow>
        if is_allowed (pe_base e) (cr_trust request) (cr_capability request)
           \<and> \<not> is_high_risk (cr_capability request)
        then (\<lparr>pd_decision = Allowed, pd_reason = Allowed_by_baseline_policy, pd_request_id = None,
               pd_grant_id = None\<rparr>, e)
        else (case List.find (\<lambda>p. same_request p request) (pending e) of
                Some existing \<Rightarrow>
                  (\<lparr>pd_decision = Denied_pending_approval, pd_reason = Pending_existing_approval,
                    pd_request_id = Some (cr_request_id existing), pd_grant_id = None\<rparr>, e)
              | None \<Rightarrow>
                let p = completed_request uuid now request
                in (\<lparr>pd_decision = Denied_pending_approval, pd_reason = Approval_required,
                      pd_request_id = Some (cr_request_id p), pd_grant_id = None\<rparr>,
                    with_pending (pending e @ [p]) e)))"

text \<open>\<^verbatim>\<open>position\<close> and \<^verbatim>\<open>remove\<close> take the first pending request with the id.\<close>

definition approve_pending ::
  "string \<Rightarrow> string \<Rightarrow> grant_scope \<Rightarrow> string \<Rightarrow> int \<Rightarrow> policy_engine \<Rightarrow>
     (policy_error + capability_grant) \<times> policy_engine" where
  "approve_pending request_id approved_by scope uuid now e =
     (case List.find (\<lambda>r. cr_request_id r = request_id) (pending e) of
        None \<Rightarrow> (Err Pending_request_not_found, e)
      | Some request \<Rightarrow>
        let grant = \<lparr>cg_grant_id = uuid, cg_created_at = now, cg_approved_by = approved_by,
              cg_subject_pattern = cr_subject request, cg_capability_pattern = cr_capability request,
              cg_scope = scope,
              cg_session_id = (if scope = Session then Some (pe_session_id e) else None)\<rparr>
        in (Ok grant, with_grants (grants e @ [grant])
              (with_pending (remove1 request (pending e)) e)))"

definition reject_pending :: "string \<Rightarrow> policy_engine \<Rightarrow> (policy_error + unit) \<times> policy_engine" where
  "reject_pending request_id e =
     (let rest = filter (\<lambda>r. cr_request_id r \<noteq> request_id) (pending e)
      in if length rest = length (pending e) then (Err Pending_request_not_found, with_pending rest e)
         else (Ok (), with_pending rest e))"

definition revoke_grant :: "string \<Rightarrow> policy_engine \<Rightarrow> (policy_error + unit) \<times> policy_engine" where
  "revoke_grant grant_id e =
     (let rest = filter (\<lambda>g. cg_grant_id g \<noteq> grant_id) (grants e)
      in if length rest = length (grants e) then (Err Grant_not_found, with_grants rest e)
         else (Ok (), with_grants rest e))"

datatype policy_op =
    Evaluate string int capability_request
  | Approve string string grant_scope string int
  | Reject_pending string
  | Revoke string

definition policy_step :: "policy_engine \<Rightarrow> policy_op \<Rightarrow> policy_engine" where
  "policy_step e p = (case p of
     Evaluate uuid now request \<Rightarrow> snd (evaluate uuid now request e)
   | Approve rid by_whom scope uuid now \<Rightarrow> snd (approve_pending rid by_whom scope uuid now e)
   | Reject_pending rid \<Rightarrow> snd (reject_pending rid e)
   | Revoke gid \<Rightarrow> snd (revoke_grant gid e))"

subsection \<open>Where grants and pending requests come from\<close>

abbreviation engine_at :: "policy_engine \<Rightarrow> policy_op list \<Rightarrow> nat \<Rightarrow> policy_engine" where
  "engine_at e ops i \<equiv> run policy_step e (take i ops)"

text \<open>Operation \<open>i\<close> asked for what \<open>r\<close> asks for and was denied.\<close>

definition asked_at :: "policy_engine \<Rightarrow> policy_op list \<Rightarrow> nat \<Rightarrow> capability_request \<Rightarrow> bool" where
  "asked_at e ops i r \<longleftrightarrow> i < length ops \<and> (\<exists>uuid now request. ops ! i = Evaluate uuid now request
     \<and> r = completed_request uuid now request
     \<and> pd_decision (fst (evaluate uuid now request (engine_at e ops i))) = Denied_pending_approval)"

text \<open>Operation \<open>i\<close> approved the request \<open>r\<close> by the grant \<open>g\<close>.\<close>

definition approved_at ::
  "policy_engine \<Rightarrow> policy_op list \<Rightarrow> nat \<Rightarrow> capability_request \<Rightarrow> capability_grant \<Rightarrow> bool" where
  "approved_at e ops i r g \<longleftrightarrow> i < length ops \<and> (\<exists>rid by_whom scope uuid now.
     ops ! i = Approve rid by_whom scope uuid now \<and> r \<in> set (pending (engine_at e ops i))
     \<and> fst (approve_pending rid by_whom scope uuid now (engine_at e ops i)) = Ok g
     \<and> cg_subject_pattern g = cr_subject r \<and> cg_capability_pattern g = cr_capability r
     \<and> cg_approved_by g = by_whom)"

text \<open>Operation \<open>i\<close> revoked the grant \<open>g\<close>, or used it up.\<close>

definition ended_at :: "policy_engine \<Rightarrow> policy_op list \<Rightarrow> nat \<Rightarrow> capability_grant \<Rightarrow> bool" where
  "ended_at e ops i g \<longleftrightarrow> i < length ops \<and> (case ops ! i of
     Revoke gid \<Rightarrow> gid = cg_grant_id g
   | Evaluate uuid now r \<Rightarrow> cg_scope g = Once \<and> find_matching_grant (engine_at e ops i) r = Some g
   | _ \<Rightarrow> False)"

lemma engine_at_snoc: "i \<le> length ops \<Longrightarrow> engine_at e (ops @ [p]) i = engine_at e ops i"
  by simp

lemma asked_at_snoc: "asked_at e ops i r \<Longrightarrow> asked_at e (ops @ [p]) i r"
  by (auto simp: asked_at_def nth_append)

lemma approved_at_snoc: "approved_at e ops i r g \<Longrightarrow> approved_at e (ops @ [p]) i r g"
  by (auto simp: approved_at_def nth_append)

lemma ended_at_snoc:
  "ended_at e (ops @ [p]) i g \<longleftrightarrow> ended_at e ops i g
     \<or> i = length ops \<and> (case p of Revoke gid \<Rightarrow> gid = cg_grant_id g
        | Evaluate uuid now r \<Rightarrow> cg_scope g = Once \<and> find_matching_grant (run policy_step e ops) r = Some g
        | _ \<Rightarrow> False)"
proof (cases "i < length ops")
  case True
  then show ?thesis by (simp add: ended_at_def nth_append split: policy_op.split)
next
  case False
  then show ?thesis by (cases "i = length ops") (simp_all add: ended_at_def split: policy_op.split)
qed

lemma policy_step_fixed [simp]:
  "pe_base (policy_step e p) = pe_base e" "pe_session_id (policy_step e p) = pe_session_id e"
  by (auto simp: policy_step_def evaluate_def approve_pending_def reject_pending_def revoke_grant_def Let_def
      split: policy_op.split option.split)

lemma run_fixed [simp]:
  "pe_base (run policy_step e ops) = pe_base e" "pe_session_id (run policy_step e ops) = pe_session_id e"
  by (induction ops arbitrary: e) simp_all

lemma pending_step:
  "r \<in> set (pending (policy_step e p)) \<Longrightarrow> r \<in> set (pending e)
     \<or> (\<exists>uuid now request. p = Evaluate uuid now request \<and> r = completed_request uuid now request
          \<and> pd_decision (fst (evaluate uuid now request e)) = Denied_pending_approval)"
  by (cases p) (auto simp: policy_step_def evaluate_def approve_pending_def reject_pending_def revoke_grant_def
      Let_def split: option.splits if_splits dest: set_remove1_subset [THEN subsetD])

lemma pending_asked:
  "r \<in> set (pending (run policy_step e ops)) \<Longrightarrow> r \<in> set (pending e) \<or> (\<exists>i. asked_at e ops i r)"
proof (induction ops rule: rev_induct)
  case (snoc p ops)
  from snoc.prems have "r \<in> set (pending (policy_step (run policy_step e ops) p))" by simp
  from pending_step [OF this] show ?case
  proof
    assume "r \<in> set (pending (run policy_step e ops))"
    with snoc.IH show ?thesis by (blast intro: asked_at_snoc)
  next
    assume "\<exists>uuid now request. p = Evaluate uuid now request \<and> r = completed_request uuid now request
      \<and> pd_decision (fst (evaluate uuid now request (run policy_step e ops))) = Denied_pending_approval"
    then have "asked_at e (ops @ [p]) (length ops) r" by (auto simp: asked_at_def)
    then show ?thesis by blast
  qed
qed simp

lemma grants_step:
  assumes "g \<in> set (grants (policy_step e p))"
  shows "g \<in> set (grants e) \<and> \<not> (case p of Revoke gid \<Rightarrow> gid = cg_grant_id g
        | Evaluate uuid now r \<Rightarrow> cg_scope g = Once \<and> find_matching_grant e r = Some g | _ \<Rightarrow> False)
     \<or> (\<exists>rid by_whom scope uuid now r. p = Approve rid by_whom scope uuid now \<and> r \<in> set (pending e)
          \<and> fst (approve_pending rid by_whom scope uuid now e) = Ok g
          \<and> cg_subject_pattern g = cr_subject r \<and> cg_capability_pattern g = cr_capability r
          \<and> cg_approved_by g = by_whom)"
proof (cases p)
  case (Evaluate uuid now r)
  with assms show ?thesis
    by (auto simp: policy_step_def evaluate_def Let_def split: option.splits if_splits)
next
  case (Approve rid by_whom scope uuid now)
  show ?thesis
  proof (cases "List.find (\<lambda>r. cr_request_id r = rid) (pending e)")
    case None
    with assms Approve show ?thesis by (simp add: policy_step_def approve_pending_def)
  next
    case (Some r)
    then have "r \<in> set (pending e)" by (simp add: find_Some_iff2)
    with Some assms Approve show ?thesis by (auto simp: policy_step_def approve_pending_def Let_def)
  qed
next
  case (Reject_pending rid)
  with assms show ?thesis by (simp add: policy_step_def reject_pending_def Let_def split: if_splits)
next
  case (Revoke gid)
  with assms show ?thesis by (auto simp: policy_step_def revoke_grant_def Let_def split: if_splits)
qed

text \<open>A grant in force was loaded with the engine or approved, and has not been ended since.\<close>

definition in_force :: "policy_engine \<Rightarrow> policy_op list \<Rightarrow> capability_grant \<Rightarrow> bool" where
  "in_force e ops g \<longleftrightarrow>
     g \<in> set (grants e) \<and> (\<forall>l. \<not> ended_at e ops l g)
     \<or> (\<exists>i r. approved_at e ops i r g \<and> (r \<in> set (pending e) \<or> (\<exists>k < i. asked_at e ops k r))
           \<and> (\<forall>l > i. \<not> ended_at e ops l g))"

lemma asked_before:
  "approved_at e ops i r g \<Longrightarrow> r \<in> set (pending e) \<or> (\<exists>k < i. asked_at e ops k r)"
  using pending_asked [of r e "take i ops"] by (fastforce simp: approved_at_def asked_at_def)

lemma grants_in_force: "g \<in> set (grants (run policy_step e ops)) \<Longrightarrow> in_force e ops g"
proof (induction ops rule: rev_induct)
  case Nil
  then show ?case by (simp add: in_force_def ended_at_def)
next
  case (snoc p ops)
  let ?e = "run policy_step e ops"
  from snoc.prems have "g \<in> set (grants (policy_step ?e p))" by simp
  from grants_step [OF this] show ?case
  proof
    assume kept: "g \<in> set (grants ?e) \<and> \<not> (case p of Revoke gid \<Rightarrow> gid = cg_grant_id g
        | Evaluate uuid now r \<Rightarrow> cg_scope g = Once \<and> find_matching_grant ?e r = Some g | _ \<Rightarrow> False)"
    then have "ended_at e (ops @ [p]) l g \<longleftrightarrow> ended_at e ops l g" for l
      unfolding ended_at_snoc by blast
    with snoc.IH kept show ?thesis
      unfolding in_force_def by (meson approved_at_snoc asked_at_snoc)
  next
    assume "\<exists>rid by_whom scope uuid now r. p = Approve rid by_whom scope uuid now \<and> r \<in> set (pending ?e)
          \<and> fst (approve_pending rid by_whom scope uuid now ?e) = Ok g
          \<and> cg_subject_pattern g = cr_subject r \<and> cg_capability_pattern g = cr_capability r
          \<and> cg_approved_by g = by_whom"
    then obtain r where new: "approved_at e (ops @ [p]) (length ops) r g" by (auto simp: approved_at_def)
    moreover have "\<not> ended_at e (ops @ [p]) l g" if "length ops < l" for l
      using that by (simp add: ended_at_def)
    ultimately show ?thesis unfolding in_force_def using asked_before [OF new] by blast
  qed
qed

lemma same_completed: "same_request (completed_request uuid now r) r"
  by (simp add: same_request_def completed_request_def Let_def)

text \<open>C33: approval. Whatever came before, a request that is of high risk or beyond the base policy is
  allowed only by a matching grant that was loaded with the engine or approved for a request
  denied earlier, and that has been neither revoked nor, if it is good for one use, used since.
  A request that is denied waits for approval under the id that is returned.\<close>

theorem high_risk_needs_approval:
  "case evaluate uuid now r (run policy_step e ops) of (d, e') \<Rightarrow>
   (case pd_decision d of
      Allowed \<Rightarrow> is_high_risk (cr_capability r) \<or> \<not> is_allowed (pe_base e) (cr_trust r) (cr_capability r) \<longrightarrow>
        (\<exists>g. pd_grant_id d = Some (cg_grant_id g) \<and> grant_matches e r g \<and> in_force e ops g)
    | Denied_pending_approval \<Rightarrow>
        (is_high_risk (cr_capability r) \<or> \<not> is_allowed (pe_base e) (cr_trust r) (cr_capability r))
        \<and> (\<exists>p \<in> set (pending e'). pd_request_id d = Some (cr_request_id p) \<and> same_request p r))"
proof (cases "find_matching_grant (run policy_step e ops) r")
  case (Some g)
  then have "g \<in> set (grants (run policy_step e ops))" and "grant_matches (run policy_step e ops) r g"
    by (auto simp: find_matching_grant_def dest: find_Some_iff2)
  then have "in_force e ops g" and "grant_matches e r g"
    using grants_in_force by (simp_all add: grant_matches_def split: grant_scope.splits)
  with Some show ?thesis by (auto simp: evaluate_def)
next
  case None
  show ?thesis
  proof (cases "List.find (\<lambda>p. same_request p r) (pending (run policy_step e ops))")
    case (Some p)
    with find_Some_iff2 [OF Some] None show ?thesis by (auto simp: evaluate_def)
  next
    case new: None
    with None show ?thesis by (auto simp: evaluate_def Let_def same_completed)
  qed
qed

definition demo_request :: capability_request where
  "demo_request = \<lparr>cr_request_id = ''r1'', cr_timestamp = 1, cr_subject = ''s'', cr_trust = Trusted,
     cr_capability = ''wallet.send'', cr_reason = None, cr_input_digest = None\<rparr>"

lemma high_risk_needs_approval_witness:
  "pd_decision (fst (evaluate ''u'' 3 demo_request (run policy_step
      (policy_engine_new ''s'' capability_policy_default \<lparr>ps_grants = [], ps_pending = []\<rparr>)
      [Evaluate ''u0'' 1 demo_request, Approve ''r1'' ''admin'' Once ''g1'' 2]))) = Allowed
   \<and> (\<exists>g. in_force (policy_engine_new ''s'' capability_policy_default \<lparr>ps_grants = [], ps_pending = []\<rparr>)
      [Evaluate ''u0'' 1 demo_request, Approve ''r1'' ''admin'' Once ''g1'' 2] g)"
proof -
  let ?e = "policy_engine_new ''s'' capability_policy_default \<lparr>ps_grants = [], ps_pending = []\<rparr>"
  let ?ops = "[Evaluate ''u0'' 1 demo_request, Approve ''r1'' ''admin'' Once ''g1'' 2]"
  have risk: "is_high_risk (cr_capability demo_request)"
    by (simp add: is_high_risk_def base_capability_def demo_request_def)
  have "pd_decision (fst (evaluate ''u'' 3 demo_request (run policy_step ?e ?ops))) = Allowed"
    using risk
    by (simp add: policy_engine_new_def policy_step_def evaluate_def find_matching_grant_def
        approve_pending_def completed_request_def grant_matches_def matches_pattern_def)
      (simp add: demo_request_def Let_def grant_matches_def matches_pattern_def)
  with high_risk_needs_approval [where uuid = "''u''" and now = 3 and r = demo_request and e = ?e and ops = ?ops] risk show ?thesis
    by (auto split: prod.splits)
qed

end
