(* ===== verification/Trust.thy ===== *)
theory Trust
  imports Rust_Str Machines
begin

text \<open>
  \<^verbatim>\<open>security/trust.rs\<close>: reports against nodes, weighted by their reporter, and the blacklist
  they lead to. Weights are \<^verbatim>\<open>i64\<close> and their sum wraps as \<^verbatim>\<open>Iterator::sum\<close> does in
  a release build.
\<close>

record trust_report =
  tr_node_id :: string
  tr_reporter_id :: string
  tr_reason :: string
  tr_timestamp :: int
  tr_weight :: int

record trust_config =
  blacklist_weight_threshold :: int

definition trust_config_default :: trust_config where
  "trust_config_default = \<lparr>blacklist_weight_threshold = 10\<rparr>"

record web_of_trust =
  wt_config :: trust_config
  reporter_weights :: "(string, int) btree_map"
  reports_by_node :: "(string, trust_report list) btree_map"
  blacklisted :: "string btree_set"

definition web_of_trust_new :: "trust_config \<Rightarrow> web_of_trust" where
  "web_of_trust_new config =
     \<lparr>wt_config = config, reporter_weights = bempty, reports_by_node = bempty, blacklisted = bempty\<rparr>"

definition set_reporter_weight :: "string \<Rightarrow> int \<Rightarrow> web_of_trust \<Rightarrow> web_of_trust" where
  "set_reporter_weight reporter_id weight w =
     w\<lparr>reporter_weights := binsert reporter_id (max weight 1) (reporter_weights w)\<rparr>"

definition total_weight :: "web_of_trust \<Rightarrow> string \<Rightarrow> int" where
  "total_weight w node_id =
     (case bget (reports_by_node w) node_id of None \<Rightarrow> 0
      | Some reports \<Rightarrow> foldl (\<lambda>acc r. to_i64 (acc + tr_weight r)) 0 reports)"

definition report_node ::
  "string \<Rightarrow> string \<Rightarrow> string \<Rightarrow> int \<Rightarrow> web_of_trust \<Rightarrow> trust_report \<times> web_of_trust" where
  "report_node node_id reporter_id reason now w =
     (let weight = bget_or 1 (reporter_weights w) reporter_id;
          report = \<lparr>tr_node_id = node_id, tr_reporter_id = reporter_id, tr_reason = reason,
            tr_timestamp = now, tr_weight = weight\<rparr>;
          w = w\<lparr>reports_by_node := binsert node_id
                (bget_or [] (reports_by_node w) node_id @ [report]) (reports_by_node w)\<rparr>;
          w = (if blacklist_weight_threshold (wt_config w) \<le> total_weight w node_id
               then w\<lparr>blacklisted := bs_insert node_id (blacklisted w)\<rparr> else w)
      in (report, w))"

definition ingest_remote_blacklist :: "string list \<Rightarrow> web_of_trust \<Rightarrow> web_of_trust" where
  "ingest_remote_blacklist nodes w =
     w\<lparr>blacklisted := fold bs_insert nodes (blacklisted w)\<rparr>"

definition is_blacklisted :: "web_of_trust \<Rightarrow> string \<Rightarrow> bool" where
  "is_blacklisted w node_id = bs_member node_id (blacklisted w)"

definition export_blacklist :: "web_of_trust \<Rightarrow> string list" where
  "export_blacklist w = bs_elems (blacklisted w)"

datatype trust_op =
    Set_weight string int
  | Report string string string int
  | Ingest "string list"

definition trust_step :: "web_of_trust \<Rightarrow> trust_op \<Rightarrow> web_of_trust" where
  "trust_step w p = (case p of
     Set_weight r k \<Rightarrow> set_reporter_weight r k w
   | Report n r reason now \<Rightarrow> snd (report_node n r reason now w)
   | Ingest nodes \<Rightarrow> ingest_remote_blacklist nodes w)"

subsection \<open>Totals\<close>

text \<open>The sum of the weights against a node without the wrap-around of \<^verbatim>\<open>i64\<close>.\<close>

definition exact_weight :: "web_of_trust \<Rightarrow> string \<Rightarrow> int" where
  "exact_weight w n = sum_list (map tr_weight (bget_or [] (reports_by_node w) n))"

lemma foldl_to_i64: "foldl (\<lambda>acc r. to_i64 (acc + f r)) (to_i64 a) xs = to_i64 (a + sum_list (map f xs))"
  by (induction xs arbitrary: a) (simp_all add: add.assoc)

lemma total_exact: "total_weight w n = to_i64 (exact_weight w n)"
proof -
  have "to_i64 0 = 0" by (simp add: to_i64_small)
  with foldl_to_i64 [of tr_weight 0] show ?thesis
    by (auto simp: total_weight_def exact_weight_def bget_or_def split: option.split)
qed

definition reported :: "web_of_trust \<Rightarrow> string \<Rightarrow> bool" where
  "reported w n \<longleftrightarrow> bget (reports_by_node w) n \<noteq> None"

fun ingested :: "trust_op list \<Rightarrow> string set" where
  "ingested [] = {}"
| "ingested (Ingest nodes # ps) = set nodes \<union> ingested ps"
| "ingested (_ # ps) = ingested ps"

lemma ingested_append: "ingested (ps @ qs) = ingested ps \<union> ingested qs"
  by (induction ps rule: ingested.induct) auto

definition weights_positive :: "web_of_trust \<Rightarrow> bool" where
  "weights_positive w \<longleftrightarrow> (\<forall>r k. bget (reporter_weights w) r = Some k \<longrightarrow> 1 \<le> k)
     \<and> (\<forall>n rs. bget (reports_by_node w) n = Some rs \<longrightarrow> (\<forall>r \<in> set rs. 1 \<le> tr_weight r))"

lemma exact_weight_report:
  "exact_weight (snd (report_node n r reason now w)) m =
     exact_weight w m + (if m = n then bget_or 1 (reporter_weights w) r else 0)"
  by (auto simp: report_node_def Let_def exact_weight_def bget_or_def)

lemma reported_report: "reported (snd (report_node n r reason now w)) m \<longleftrightarrow> m = n \<or> reported w m"
  by (auto simp: report_node_def Let_def reported_def)

lemma blacklisted_report:
  "is_blacklisted (snd (report_node n r reason now w)) m \<longleftrightarrow>
     is_blacklisted w m
     \<or> m = n \<and> blacklist_weight_threshold (wt_config w) \<le> total_weight (snd (report_node n r reason now w)) n"
  by (auto simp: report_node_def Let_def is_blacklisted_def total_weight_def)

lemma bs_set_fold_insert [simp]: "bs_set (fold bs_insert xs s) = set xs \<union> bs_set s"
  by (induction xs arbitrary: s) auto

lemma blacklisted_ingest:
  "is_blacklisted (ingest_remote_blacklist nodes w) m \<longleftrightarrow> m \<in> set nodes \<or> is_blacklisted w m"
  by (simp add: ingest_remote_blacklist_def is_blacklisted_def)

lemma trust_step_config [simp]: "wt_config (trust_step w p) = wt_config w"
  by (cases p) (simp_all add: trust_step_def set_reporter_weight_def report_node_def Let_def
      ingest_remote_blacklist_def)

lemma weight_default: "weights_positive w \<Longrightarrow> 1 \<le> bget_or 1 (reporter_weights w) r"
  by (auto simp: weights_positive_def bget_or_def split: option.split)

interpretation positive: invariant_machine trust_step "\<lambda>_. True" weights_positive
proof unfold_locales
  fix p :: trust_op and w
  assume w: "weights_positive w"
  show "weights_positive (trust_step w p)"
  proof (cases p)
    case (Report n r reason now)
    have "1 \<le> tr_weight x" if "x \<in> set (bget_or [] (reports_by_node w) n)" for x
      using that w by (cases "bget (reports_by_node w) n") (auto simp: weights_positive_def bget_or_def)
    with w weight_default [OF w, of r] show ?thesis
      by (auto simp: Report trust_step_def report_node_def Let_def weights_positive_def split: if_splits)
  qed (use w in \<open>auto simp: trust_step_def set_reporter_weight_def ingest_remote_blacklist_def weights_positive_def\<close>)
qed

lemma exact_weight_mono: "weights_positive w \<Longrightarrow> exact_weight w n \<le> exact_weight (trust_step w p) n"
proof (cases p)
  case (Report m r reason now)
  assume "weights_positive w"
  then have "1 \<le> bget_or 1 (reporter_weights w) r" by (rule weight_default)
  then show ?thesis by (simp add: Report trust_step_def exact_weight_report)
qed (simp_all add: trust_step_def set_reporter_weight_def ingest_remote_blacklist_def exact_weight_def)

lemma exact_weight_nonneg: "weights_positive w \<Longrightarrow> 0 \<le> exact_weight w n"
  unfolding exact_weight_def
  by (rule sum_list_nonneg, cases "bget (reports_by_node w) n")
    (fastforce simp: weights_positive_def bget_or_def)+

lemma total_weight_small:
  "weights_positive w \<Longrightarrow> exact_weight w n < 2 ^ 63 \<Longrightarrow> total_weight w n = exact_weight w n"
  by (simp add: total_exact to_i64_small exact_weight_nonneg)

lemma blacklist_run:
  assumes "exact_weight (run trust_step (web_of_trust_new config) ps) n < 2 ^ 63"
  shows "is_blacklisted (run trust_step (web_of_trust_new config) ps) n \<longleftrightarrow>
     n \<in> ingested ps
     \<or> reported (run trust_step (web_of_trust_new config) ps) n
        \<and> blacklist_weight_threshold config \<le> total_weight (run trust_step (web_of_trust_new config) ps) n"
  using assms
proof (induction ps rule: rev_induct)
  case Nil
  show ?case by (simp add: is_blacklisted_def web_of_trust_new_def reported_def)
next
  case (snoc p ps)
  let ?w = "run trust_step (web_of_trust_new config) ps"
  have pos: "weights_positive ?w"
    by (rule positive.run_inv) (simp_all add: list_all_iff weights_positive_def web_of_trust_new_def)
  have pos': "weights_positive (trust_step ?w p)" by (rule positive.step_inv [OF _ pos]) simp
  have config: "wt_config ?w = config"
    by (rule sym, induction ps rule: rev_induct) (simp_all add: web_of_trust_new_def)
  have small': "exact_weight (trust_step ?w p) n < 2 ^ 63" using snoc.prems by simp
  then have small: "exact_weight ?w n < 2 ^ 63" using exact_weight_mono [OF pos, of n p] by linarith
  note IH = snoc.IH [OF small]
  note totals = total_weight_small [OF pos small] total_weight_small [OF pos' small']
  have mono: "total_weight ?w n \<le> total_weight (trust_step ?w p) n"
    unfolding totals by (rule exact_weight_mono [OF pos])
  show ?case
  proof (cases p)
    case (Report m r reason now)
    then have w': "trust_step ?w p = snd (report_node m r reason now ?w)" by (simp add: trust_step_def)
    have other: "n \<noteq> m \<Longrightarrow> total_weight (trust_step ?w p) n = total_weight ?w n"
      unfolding totals by (simp add: w' exact_weight_report)
    have listed: "is_blacklisted (trust_step ?w p) n \<longleftrightarrow> is_blacklisted ?w n
        \<or> n = m \<and> blacklist_weight_threshold config \<le> total_weight (trust_step ?w p) n"
      unfolding w' blacklisted_report config by blast
    have rep: "reported (trust_step ?w p) n \<longleftrightarrow> n = m \<or> reported ?w n"
      unfolding w' by (rule reported_report)
    have ing: "ingested (ps @ [p]) = ingested ps" by (simp add: ingested_append Report)
    show ?thesis unfolding run_snoc ing listed rep IH using mono other by (cases "n = m") (auto intro: order_trans)
  qed (use IH in \<open>auto simp: trust_step_def blacklisted_ingest ingested_append reported_def total_weight_def
      set_reporter_weight_def ingest_remote_blacklist_def is_blacklisted_def\<close>)
qed

text \<open>C32: a node is on the blacklist exactly when a remote blacklist named it or the weights of the
  reports against it reach the threshold now, as long as the weights against it fit an
  \<^verbatim>\<open>i64\<close>; in particular no later operation takes it off.\<close>

theorem blacklist_exact:
  assumes "exact_weight (run trust_step (web_of_trust_new config) ps) n < 2 ^ 63"
  shows "n \<in> set (export_blacklist (run trust_step (web_of_trust_new config) ps)) \<longleftrightarrow>
     n \<in> ingested ps
     \<or> reported (run trust_step (web_of_trust_new config) ps) n
        \<and> blacklist_weight_threshold config \<le> exact_weight (run trust_step (web_of_trust_new config) ps) n"
proof -
  have "weights_positive (run trust_step (web_of_trust_new config) ps)"
    by (rule positive.run_inv) (simp_all add: list_all_iff weights_positive_def web_of_trust_new_def)
  from blacklist_run [OF assms] total_weight_small [OF this assms] show ?thesis
    by (simp add: is_blacklisted_def export_blacklist_def)
qed

lemma blacklist_exact_witness:
  "''bad'' \<in> set (export_blacklist (run trust_step (web_of_trust_new \<lparr>blacklist_weight_threshold = 5\<rparr>)
     [Set_weight ''a'' 4, Report ''bad'' ''a'' ''spam'' 1, Report ''bad'' ''b'' ''spam'' 2]))"
proof -
  let ?w = "run trust_step (web_of_trust_new \<lparr>blacklist_weight_threshold = 5\<rparr>)
     [Set_weight ''a'' 4, Report ''bad'' ''a'' ''spam'' 1, Report ''bad'' ''b'' ''spam'' 2]"
  have "exact_weight ?w ''bad'' = 5" and "reported ?w ''bad''"
    by (simp_all add: trust_step_def exact_weight_report reported_report)
      (simp add: exact_weight_def web_of_trust_new_def set_reporter_weight_def bget_or_def report_node_def Let_def)
  then show ?thesis
    using blacklist_exact [of "\<lparr>blacklist_weight_threshold = 5\<rparr>"
      "[Set_weight ''a'' 4, Report ''bad'' ''a'' ''spam'' 1, Report ''bad'' ''b'' ''spam'' 2]" "''bad''"]
    by simp
qed

end
