(* ===== verification/Oracle.thy ===== *)
theory Oracle
  imports Event_Log
begin

text \<open>
  \<^verbatim>\<open>governance/oracle.rs\<close>: signed feeds, subscriptions and the settlement of a pull, which
  charges the subscriber for what it has not been delivered yet and credits the publishers. The
  state of an operation is the registry and the event log, if one is given; an operation whose
  log entry fails returns the error after the registry has changed, as in the code.
  \<^verbatim>\<open>serde_jcs\<close> and \<^verbatim>\<open>serde_json::to_value\<close> are the fields of \<open>oracle_env\<close>. Amounts
  are \<^verbatim>\<open>i64\<close> and wrap.
\<close>

record 'v oracle_feed =
  of_feed_id :: string
  of_publisher :: string
  of_timestamp :: int
  of_payload :: 'v
  of_price_watt :: int
  of_signature :: string

record oracle_subscription =
  os_agent_did :: string
  os_feed_id :: string
  os_max_price_watt :: int
  os_subscribed_at :: int

record oracle_settlement =
  ot_agent_did :: string
  ot_feed_id :: string
  ot_delivered :: nat
  ot_charged_watt :: int
  ot_balance_after :: int

record 'v signable_feed =
  sf_feed_id :: string
  sf_publisher :: string
  sf_timestamp :: int
  sf_payload :: 'v
  sf_price_watt :: int

record 'v oracle_registry =
  or_feeds :: "(string, 'v oracle_feed list) btree_map"
  or_subscriptions :: "oracle_subscription list"
  or_balances :: "(string, int) btree_map"
  or_delivered :: "(string, string btree_set) btree_map"

record 'v oracle_env =
  oe_crypto :: crypto
  oe_feed_jcs :: "'v signable_feed \<Rightarrow> string option"
  oe_event_jcs :: "'v unsigned_event_record \<Rightarrow> string option"
  oe_feed_value :: "'v oracle_feed \<Rightarrow> 'v option"
  oe_subscription_value :: "oracle_subscription \<Rightarrow> 'v option"
  oe_settlement_value :: "oracle_settlement \<Rightarrow> 'v option"

datatype oracle_error =
    Oracle_sign sign_error
  | Oracle_log log_error
  | Serialize_failed
  | Feed_signature_invalid
  | Credit_not_positive
  | Subscription_not_found
  | Insufficient_balance int int

text \<open>A signer is its DID and its \<^verbatim>\<open>sign_bytes\<close>; a log call has its own UUID and clock reading.\<close>

type_synonym signer = "string \<times> (string \<Rightarrow> sign_error + string)"

type_synonym 'v oracle_state = "'v oracle_registry \<times> 'v event_log option"

definition oracle_empty :: "'v oracle_registry" where
  "oracle_empty = \<lparr>or_feeds = bempty, or_subscriptions = [], or_balances = bempty, or_delivered = bempty\<rparr>"

text \<open>\<^verbatim>\<open>if let Some(log) = event_log { log.append_signed_with_signer(..)?; }\<close>\<close>

definition log_to ::
  "'v oracle_env \<Rightarrow> signer \<Rightarrow> string \<Rightarrow> 'v option \<Rightarrow> string \<Rightarrow> int \<Rightarrow> 'v event_log option \<Rightarrow>
     (oracle_error + unit) \<times> 'v event_log option" where
  "log_to E signer event_type payload uuid now event_log =
     (case event_log of
        None \<Rightarrow> (Ok (), None)
      | Some rows \<Rightarrow>
        (case payload of
           None \<Rightarrow> (Err Serialize_failed, Some rows)
         | Some v \<Rightarrow>
           (case append_signed_with_signer (oe_crypto E) (oe_event_jcs E) (fst signer) (snd signer)
                   event_type v uuid now rows of
              (Inl e, rows) \<Rightarrow> (Err (Oracle_log e), Some rows)
            | (Inr _, rows) \<Rightarrow> (Ok (), Some rows))))"

definition signable_of :: "'v oracle_feed \<Rightarrow> 'v signable_feed" where
  "signable_of feed = \<lparr>sf_feed_id = of_feed_id feed, sf_publisher = of_publisher feed,
     sf_timestamp = of_timestamp feed, sf_payload = of_payload feed, sf_price_watt = of_price_watt feed\<rparr>"

definition verify_feed_signature :: "'v oracle_env \<Rightarrow> 'v oracle_feed \<Rightarrow> sign_error + bool" where
  "verify_feed_signature E feed =
     verify_payload (oe_crypto E) (oe_feed_jcs E) (signable_of feed) (of_signature feed) (of_publisher feed)"

definition push_feed :: "string \<Rightarrow> 'v oracle_feed \<Rightarrow> 'v oracle_registry \<Rightarrow> 'v oracle_registry" where
  "push_feed feed_id feed r =
     r\<lparr>or_feeds := binsert feed_id (bget_or [] (or_feeds r) feed_id @ [feed]) (or_feeds r)\<rparr>"

definition publish_with_signer ::
  "'v oracle_env \<Rightarrow> string \<Rightarrow> 'v \<Rightarrow> int \<Rightarrow> identity_compat_view \<Rightarrow> signer \<Rightarrow> int \<Rightarrow> string \<Rightarrow> int \<Rightarrow>
     'v oracle_state \<Rightarrow> (oracle_error + 'v oracle_feed) \<times> 'v oracle_state" where
  "publish_with_signer E feed_id payload price_watt identity signer now uuid log_now = (\<lambda>(r, event_log).
     (let signable = \<lparr>sf_feed_id = feed_id, sf_publisher = icv_agent_did identity, sf_timestamp = now,
            sf_payload = payload, sf_price_watt = price_watt\<rparr>
      in case sign_payload_with (oe_feed_jcs E) (snd signer) signable of
           Inl e \<Rightarrow> (Err (Oracle_sign e), (r, event_log))
         | Inr signature \<Rightarrow>
           let feed = \<lparr>of_feed_id = feed_id, of_publisher = icv_agent_did identity, of_timestamp = now,
                 of_payload = payload, of_price_watt = price_watt, of_signature = signature\<rparr>;
               r = push_feed feed_id feed r
           in case log_to E signer ''ORACLE_FEED_PUBLISHED'' (oe_feed_value E feed) uuid log_now event_log of
                (Inl e, event_log) \<Rightarrow> (Err e, (r, event_log))
              | (Inr _, event_log) \<Rightarrow> (Ok feed, (r, event_log))))"

definition oracle_publish ::
  "'v oracle_env \<Rightarrow> string \<Rightarrow> 'v \<Rightarrow> int \<Rightarrow> identity \<Rightarrow> int \<Rightarrow> string \<Rightarrow> int \<Rightarrow>
     'v oracle_state \<Rightarrow> (oracle_error + 'v oracle_feed) \<times> 'v oracle_state" where
  "oracle_publish E feed_id payload price_watt identity =
     publish_with_signer E feed_id payload price_watt (compat_view identity)
       (id_agent_did identity, identity_sign (oe_crypto E) identity)"

definition ingest_feed_with_signer ::
  "'v oracle_env \<Rightarrow> 'v oracle_feed \<Rightarrow> identity_compat_view option \<Rightarrow> signer option \<Rightarrow> string \<Rightarrow> int \<Rightarrow>
     'v oracle_state \<Rightarrow> (oracle_error + bool) \<times> 'v oracle_state" where
  "ingest_feed_with_signer E feed local_identity signer uuid log_now = (\<lambda>(r, event_log).
     (case verify_feed_signature E feed of
        Inl e \<Rightarrow> (Err (Oracle_sign e), (r, event_log))
      | Inr valid \<Rightarrow>
        if \<not> valid then (Err Feed_signature_invalid, (r, event_log))
        else if is_some_and (bget (or_feeds r) (of_feed_id feed))
                  (list_ex (\<lambda>row. of_signature row = of_signature feed))
        then (Ok False, (r, event_log))
        else
          let r = push_feed (of_feed_id feed) feed r
          in case (local_identity, signer) of
               (Some _, Some s) \<Rightarrow>
                 (case log_to E s ''ORACLE_FEED_INGESTED'' (oe_feed_value E feed) uuid log_now event_log of
                    (Inl e, event_log) \<Rightarrow> (Err e, (r, event_log))
                  | (Inr _, event_log) \<Rightarrow> (Ok True, (r, event_log)))
             | _ \<Rightarrow> (Ok True, (r, event_log))))"

definition ingest_feed ::
  "'v oracle_env \<Rightarrow> 'v oracle_feed \<Rightarrow> identity option \<Rightarrow> string \<Rightarrow> int \<Rightarrow>
     'v oracle_state \<Rightarrow> (oracle_error + bool) \<times> 'v oracle_state" where
  "ingest_feed E feed local_identity =
     ingest_feed_with_signer E feed (map_option compat_view local_identity)
       (map_option (\<lambda>i. (id_agent_did i, identity_sign (oe_crypto E) i)) local_identity)"

definition balance_of :: "'v oracle_registry \<Rightarrow> string \<Rightarrow> int" where
  "balance_of r agent_did = bget_or 0 (or_balances r) agent_did"

text \<open>\<^verbatim>\<open>*self.balances.entry(agent).or_insert(0) += amount\<close>\<close>

definition add_balance :: "string \<Rightarrow> int \<Rightarrow> 'v oracle_registry \<Rightarrow> 'v oracle_registry" where
  "add_balance agent_did amount r =
     r\<lparr>or_balances := binsert agent_did (to_i64 (balance_of r agent_did + amount)) (or_balances r)\<rparr>"

definition oracle_credit ::
  "string \<Rightarrow> int \<Rightarrow> 'v oracle_registry \<Rightarrow> (oracle_error + int) \<times> 'v oracle_registry" where
  "oracle_credit agent_did amount_watt r =
     (if amount_watt \<le> 0 then (Err Credit_not_positive, r)
      else let r = add_balance agent_did amount_watt r in (Ok (balance_of r agent_did), r))"

definition subscribe_with_signer ::
  "'v oracle_env \<Rightarrow> string \<Rightarrow> string \<Rightarrow> int \<Rightarrow> signer \<Rightarrow> int \<Rightarrow> string \<Rightarrow> int \<Rightarrow>
     'v oracle_state \<Rightarrow> (oracle_error + oracle_subscription) \<times> 'v oracle_state" where
  "subscribe_with_signer E agent_did feed_id max_price_watt signer now uuid log_now = (\<lambda>(r, event_log).
     (let subscription = \<lparr>os_agent_did = agent_did, os_feed_id = feed_id,
            os_max_price_watt = max_price_watt, os_subscribed_at = now\<rparr>;
          r = r\<lparr>or_subscriptions := or_subscriptions r @ [subscription]\<rparr>
      in case log_to E signer ''ORACLE_SUBSCRIBE'' (oe_subscription_value E subscription) uuid log_now event_log of
           (Inl e, event_log) \<Rightarrow> (Err e, (r, event_log))
         | (Inr _, event_log) \<Rightarrow> (Ok subscription, (r, event_log))))"

definition subscribe ::
  "'v oracle_env \<Rightarrow> string \<Rightarrow> string \<Rightarrow> int \<Rightarrow> identity \<Rightarrow> int \<Rightarrow> string \<Rightarrow> int \<Rightarrow>
     'v oracle_state \<Rightarrow> (oracle_error + oracle_subscription) \<times> 'v oracle_state" where
  "subscribe E agent_did feed_id max_price_watt identity =
     subscribe_with_signer E agent_did feed_id max_price_watt
       (id_agent_did identity, identity_sign (oe_crypto E) identity)"

definition find_subscription :: "'v oracle_registry \<Rightarrow> string \<Rightarrow> string \<Rightarrow> oracle_subscription option" where
  "find_subscription r agent_did feed_id =
     List.find (\<lambda>s. os_agent_did s = agent_did \<and> os_feed_id s = feed_id) (or_subscriptions r)"

definition eligible_feeds :: "'v oracle_registry \<Rightarrow> string \<Rightarrow> int \<Rightarrow> 'v oracle_feed list" where
  "eligible_feeds r feed_id max_price_watt =
     filter (\<lambda>feed. of_price_watt feed \<le> max_price_watt) (bget_or [] (or_feeds r) feed_id)"

fun verify_feeds :: "'v oracle_env \<Rightarrow> 'v oracle_feed list \<Rightarrow> oracle_error + unit" where
  "verify_feeds E [] = Ok ()"
| "verify_feeds E (feed # feeds) =
     (case verify_feed_signature E feed of
        Inl e \<Rightarrow> Err (Oracle_sign e)
      | Inr valid \<Rightarrow> if \<not> valid then Err Feed_signature_invalid else verify_feeds E feeds)"

definition newest_first :: "'v oracle_feed list \<Rightarrow> 'v oracle_feed list" where
  "newest_first feeds = sort_key (\<lambda>feed. - of_timestamp feed) feeds"

definition pull_for_subscriber ::
  "'v oracle_env \<Rightarrow> string \<Rightarrow> string \<Rightarrow> 'v oracle_registry \<Rightarrow> oracle_error + 'v oracle_feed list" where
  "pull_for_subscriber E agent_did feed_id r =
     (case find_subscription r agent_did feed_id of
        None \<Rightarrow> Err Subscription_not_found
      | Some subscription \<Rightarrow>
        let feeds = eligible_feeds r feed_id (os_max_price_watt subscription)
        in case verify_feeds E feeds of Inl e \<Rightarrow> Err e | Inr _ \<Rightarrow> Ok (newest_first feeds))"

definition delivery_key :: "string \<Rightarrow> string \<Rightarrow> string" where
  "delivery_key agent_did feed_id = agent_did @ '':'' @ feed_id"

text \<open>The loop that verifies the feeds and collects what was not delivered yet, with its cost.\<close>

fun collect_new ::
  "'v oracle_env \<Rightarrow> string btree_set \<Rightarrow> 'v oracle_feed list \<Rightarrow> int \<Rightarrow> 'v oracle_feed list \<Rightarrow>
     oracle_error + ('v oracle_feed list \<times> int)" where
  "collect_new E already [] cost items = Ok (items, cost)"
| "collect_new E already (feed # feeds) cost items =
     (case verify_feed_signature E feed of
        Inl e \<Rightarrow> Err (Oracle_sign e)
      | Inr valid \<Rightarrow>
        if \<not> valid then Err Feed_signature_invalid
        else if bs_member (of_signature feed) already then collect_new E already feeds cost items
        else collect_new E already feeds (to_i64 (cost + of_price_watt feed)) (items @ [feed]))"

text \<open>The loop that records the deliveries and pays the publishers.\<close>

definition deliver :: "string \<Rightarrow> 'v oracle_registry \<Rightarrow> 'v oracle_feed \<Rightarrow> 'v oracle_registry" where
  "deliver key r feed =
     add_balance (of_publisher feed) (of_price_watt feed)
       (r\<lparr>or_delivered := binsert key (bs_insert (of_signature feed) (bget_or bempty (or_delivered r) key))
            (or_delivered r)\<rparr>)"

text \<open>What a settled pull is about to deliver: the rows, the new ones among them and their cost.\<close>

definition quote_pull ::
  "'v oracle_env \<Rightarrow> string \<Rightarrow> string \<Rightarrow> 'v oracle_registry \<Rightarrow>
     oracle_error + ('v oracle_feed list \<times> 'v oracle_feed list \<times> int)" where
  "quote_pull E agent_did feed_id r =
     (case find_subscription r agent_did feed_id of
        None \<Rightarrow> Err Subscription_not_found
      | Some subscription \<Rightarrow>
        let feeds = sort_key of_timestamp (eligible_feeds r feed_id (os_max_price_watt subscription));
            already = bget_or bempty (or_delivered r) (delivery_key agent_did feed_id)
        in case collect_new E already feeds 0 [] of
             Inl e \<Rightarrow> Err e
           | Inr (items, cost) \<Rightarrow>
             if balance_of r agent_did < cost then Err (Insufficient_balance cost (balance_of r agent_did))
             else Ok (feeds, items, cost))"

definition settle_pull ::
  "string \<Rightarrow> string \<Rightarrow> 'v oracle_feed list \<Rightarrow> int \<Rightarrow> 'v oracle_registry \<Rightarrow> 'v oracle_registry" where
  "settle_pull agent_did feed_id items cost r =
     (let key = delivery_key agent_did feed_id;
          r = (if 0 < cost then add_balance agent_did (- cost) r else r);
          r = r\<lparr>or_delivered := binsert key (bget_or bempty (or_delivered r) key) (or_delivered r)\<rparr>
      in foldl (deliver key) r items)"

definition pull_for_subscriber_settled_with_signer ::
  "'v oracle_env \<Rightarrow> string \<Rightarrow> string \<Rightarrow> signer \<Rightarrow> string \<Rightarrow> int \<Rightarrow> 'v oracle_state \<Rightarrow>
     (oracle_error + ('v oracle_feed list \<times> oracle_settlement)) \<times> 'v oracle_state" where
  "pull_for_subscriber_settled_with_signer E agent_did feed_id signer uuid log_now = (\<lambda>(r, event_log).
     (case quote_pull E agent_did feed_id r of
        Inl e \<Rightarrow> (Err e, (r, event_log))
      | Inr (feeds, items, cost) \<Rightarrow>
        let r = settle_pull agent_did feed_id items cost r;
            settlement = \<lparr>ot_agent_did = agent_did, ot_feed_id = feed_id, ot_delivered = length items,
              ot_charged_watt = cost, ot_balance_after = balance_of r agent_did\<rparr>
        in case log_to E signer ''ORACLE_SETTLEMENT'' (oe_settlement_value E settlement) uuid log_now event_log of
             (Inl e, event_log) \<Rightarrow> (Err e, (r, event_log))
           | (Inr _, event_log) \<Rightarrow> (Ok (newest_first feeds, settlement), (r, event_log))))"

definition pull_for_subscriber_settled ::
  "'v oracle_env \<Rightarrow> string \<Rightarrow> string \<Rightarrow> identity \<Rightarrow> string \<Rightarrow> int \<Rightarrow> 'v oracle_state \<Rightarrow>
     (oracle_error + ('v oracle_feed list \<times> oracle_settlement)) \<times> 'v oracle_state" where
  "pull_for_subscriber_settled E agent_did feed_id identity =
     pull_for_subscriber_settled_with_signer E agent_did feed_id
       (id_agent_did identity, identity_sign (oe_crypto E) identity)"

definition list_subscriptions :: "'v oracle_registry \<Rightarrow> string \<Rightarrow> oracle_subscription list" where
  "list_subscriptions r agent_did = filter (\<lambda>s. os_agent_did s = agent_did) (or_subscriptions r)"

definition all_feeds :: "'v oracle_registry \<Rightarrow> 'v oracle_feed list" where
  "all_feeds r = newest_first (concat (bvalues (or_feeds r)))"

datatype 'v oracle_op =
    Publish string 'v int identity_compat_view signer int string int
  | Ingest_feed "'v oracle_feed" "identity_compat_view option" "signer option" string int
  | Credit string int
  | Subscribe string string int signer int string int
  | Pull string string signer string int

definition oracle_step :: "'v oracle_env \<Rightarrow> 'v oracle_state \<Rightarrow> 'v oracle_op \<Rightarrow> 'v oracle_state" where
  "oracle_step E s p = (case p of
     Publish feed_id payload price identity signer now uuid log_now \<Rightarrow>
       snd (publish_with_signer E feed_id payload price identity signer now uuid log_now s)
   | Ingest_feed feed identity signer uuid log_now \<Rightarrow>
       snd (ingest_feed_with_signer E feed identity signer uuid log_now s)
   | Credit agent amount \<Rightarrow> (snd (oracle_credit agent amount (fst s)), snd s)
   | Subscribe agent feed_id cap signer now uuid log_now \<Rightarrow>
       snd (subscribe_with_signer E agent feed_id cap signer now uuid log_now s)
   | Pull agent feed_id signer uuid log_now \<Rightarrow>
       snd (pull_for_subscriber_settled_with_signer E agent feed_id signer uuid log_now s))"

subsection \<open>The sum of the balances\<close>

definition total_supply :: "'v oracle_registry \<Rightarrow> int" where
  "total_supply r = sum_list (map snd (entries (or_balances r)))"

lemma supply_add_balance: "to_i64 (total_supply (add_balance a x r)) = to_i64 (total_supply r + x)"
proof -
  have "total_supply (add_balance a x r) = total_supply r + to_i64 (balance_of r a + x) - balance_of r a"
    by (simp add: total_supply_def add_balance_def bmap.sum_upd balance_of_def bget_or_def
        del: entries_simps split: option.split)
  also have "\<dots> = to_i64 (balance_of r a + x) + (total_supply r - balance_of r a)" by simp
  also have "to_i64 \<dots> = to_i64 (balance_of r a + x + (total_supply r - balance_of r a))"
    by (rule to_i64_add_left)
  finally show ?thesis by (simp add: algebra_simps)
qed

lemma supply_delivered [simp]: "total_supply (r\<lparr>or_delivered := d\<rparr>) = total_supply r"
  by (simp add: total_supply_def)

lemma supply_deliver: "to_i64 (total_supply (deliver key r feed)) = to_i64 (total_supply r + of_price_watt feed)"
  by (simp add: deliver_def supply_add_balance)

lemma supply_deliver_all:
  "to_i64 (total_supply (foldl (deliver key) r items)) = to_i64 (total_supply r + sum_list (map of_price_watt items))"
proof (induction items arbitrary: r)
  case (Cons feed items)
  have "to_i64 (total_supply (deliver key r feed) + sum_list (map of_price_watt items))
      = to_i64 (to_i64 (total_supply (deliver key r feed)) + sum_list (map of_price_watt items))" by simp
  also have "\<dots> = to_i64 (total_supply r + of_price_watt feed + sum_list (map of_price_watt items))"
    unfolding supply_deliver by simp
  finally show ?case using Cons by (simp add: add.assoc)
qed simp

lemma collect_new_Ok:
  assumes "collect_new E already feeds cost items = Ok (items', cost')"
  shows "\<exists>new. items' = items @ new \<and> (\<forall>feed \<in> set new. of_signature feed \<notin> bs_set already)
     \<and> to_i64 cost' = to_i64 (cost + sum_list (map of_price_watt new)) \<and> (i64_ok cost \<longrightarrow> i64_ok cost')"
  using assms
proof (induction E already feeds cost items rule: collect_new.induct)
  case (1 E already cost items)
  then show ?case by simp
next
  case (2 E already feed feeds cost items)
  have valid: "verify_feed_signature E feed = Ok True"
    using 2(3) by (auto split: sum.splits if_splits)
  show ?case
  proof (cases "bs_member (of_signature feed) already")
    case True
    with valid 2(3) have "collect_new E already feeds cost items = Ok (items', cost')" by simp
    with 2(1) valid True show ?thesis by simp
  next
    case False
    with valid 2(3) have rest:
      "collect_new E already feeds (to_i64 (cost + of_price_watt feed)) (items @ [feed]) = Ok (items', cost')"
      by simp
    with 2(2) valid False obtain new where new: "items' = (items @ [feed]) @ new"
        "\<forall>f \<in> set new. of_signature f \<notin> bs_set already"
        "to_i64 cost' = to_i64 (to_i64 (cost + of_price_watt feed) + sum_list (map of_price_watt new))"
        "i64_ok cost'"
      by auto
    with False show ?thesis by (intro exI [of _ "feed # new"]) (simp add: add.assoc)
  qed
qed

lemma quote_pull_Ok:
  assumes "quote_pull E a f r = Ok (rows, items, cost)"
  shows "cost = to_i64 (sum_list (map of_price_watt items))" and "cost \<le> balance_of r a"
    and "feed \<in> set items \<Longrightarrow> of_signature feed \<notin> bs_set (bget_or bempty (or_delivered r) (delivery_key a f))"
proof -
  obtain feeds where coll: "collect_new E (bget_or bempty (or_delivered r) (delivery_key a f)) feeds 0 [] = Ok (items, cost)"
    and bal: "cost \<le> balance_of r a"
    using assms by (auto simp: quote_pull_def Let_def split: option.splits sum.splits if_splits)
  from collect_new_Ok [OF coll] have "to_i64 cost = to_i64 (sum_list (map of_price_watt items))"
    and ok: "i64_ok cost" and new: "\<forall>feed \<in> set items. of_signature feed \<notin> bs_set (bget_or bempty (or_delivered r) (delivery_key a f))"
    by (auto simp: i64_ok_def)
  with bal show "cost = to_i64 (sum_list (map of_price_watt items))" and "cost \<le> balance_of r a"
    by (simp_all add: to_i64_id)
  from new show "feed \<in> set items \<Longrightarrow> of_signature feed \<notin> bs_set (bget_or bempty (or_delivered r) (delivery_key a f))"
    by blast
qed

lemma supply_settle:
  assumes "cost = to_i64 (sum_list (map of_price_watt items))"
  shows "to_i64 (total_supply (settle_pull a f items cost r)) = to_i64 (total_supply r + min 0 cost)"
proof -
  let ?paid = "if 0 < cost then add_balance a (- cost) r else r"
  have paid: "to_i64 (total_supply ?paid) = to_i64 (total_supply r - max 0 cost)"
    by (simp add: supply_add_balance max_def)
  have "to_i64 (total_supply (settle_pull a f items cost r)) = to_i64 (total_supply ?paid + sum_list (map of_price_watt items))"
    by (simp add: settle_pull_def Let_def supply_deliver_all)
  also have "\<dots> = to_i64 (to_i64 (total_supply ?paid) + to_i64 (sum_list (map of_price_watt items)))" by simp
  also have "\<dots> = to_i64 (to_i64 (total_supply r - max 0 cost) + cost)" using paid assms by metis
  also have "\<dots> = to_i64 (total_supply r + min 0 cost)" by (simp add: min_def max_def)
  finally show ?thesis .
qed

text \<open>What the credits of a run pay in, and what its pulls quoted below zero.\<close>

definition credited :: "'v oracle_op list \<Rightarrow> int" where
  "credited ops = sum_list (map (\<lambda>p. case p of Credit a x \<Rightarrow> max 0 x | _ \<Rightarrow> 0) ops)"

definition shortfall :: "'v oracle_env \<Rightarrow> 'v oracle_state \<Rightarrow> 'v oracle_op \<Rightarrow> int" where
  "shortfall E s p = (case p of
     Pull a f _ _ _ \<Rightarrow> (case quote_pull E a f (fst s) of Inr (_, _, cost) \<Rightarrow> max 0 (- cost) | _ \<Rightarrow> 0)
   | _ \<Rightarrow> 0)"

fun shortfalls :: "'v oracle_env \<Rightarrow> 'v oracle_state \<Rightarrow> 'v oracle_op list \<Rightarrow> int" where
  "shortfalls E s [] = 0"
| "shortfalls E s (p # ps) = shortfall E s p + shortfalls E (oracle_step E s p) ps"

lemma log_step_registry:
  "fst (snd (publish_with_signer E i p x v g n u l s)) = fst s
     \<or> (\<exists>feed. fst (snd (publish_with_signer E i p x v g n u l s)) = push_feed i feed (fst s))"
  "fst (snd (ingest_feed_with_signer E feed v' g' u l s)) \<in> {fst s, push_feed (of_feed_id feed) feed (fst s)}"
  "\<exists>sub. fst (snd (subscribe_with_signer E a i c g n u l s)) = (fst s)\<lparr>or_subscriptions := or_subscriptions (fst s) @ [sub]\<rparr>"
  "fst (snd (pull_for_subscriber_settled_with_signer E a i g u l s)) =
     (case quote_pull E a i (fst s) of Inl _ \<Rightarrow> fst s
      | Inr (_, items, cost) \<Rightarrow> settle_pull a i items cost (fst s))"
  by (auto simp: publish_with_signer_def ingest_feed_with_signer_def subscribe_with_signer_def
      pull_for_subscriber_settled_with_signer_def Let_def split: prod.splits sum.splits option.splits)

lemma push_feed_other [simp]:
  "or_balances (push_feed i feed r) = or_balances r" "or_delivered (push_feed i feed r) = or_delivered r"
  by (simp_all add: push_feed_def)

lemma oracle_step_other:
  assumes "\<forall>a x. p \<noteq> Credit a x" and "\<forall>a f g u l. p \<noteq> Pull a f g u l"
  shows "or_balances (fst (oracle_step E s p)) = or_balances (fst s)
     \<and> or_delivered (fst (oracle_step E s p)) = or_delivered (fst s)"
proof (cases p)
  case (Publish i pl x v g n u l)
  with log_step_registry(1) [of E i pl x v g n u l s] show ?thesis by (auto simp: oracle_step_def)
next
  case (Ingest_feed feed v g u l)
  with log_step_registry(2) [of E feed v g u l s] show ?thesis by (auto simp: oracle_step_def)
next
  case (Subscribe a i c g n u l)
  with log_step_registry(3) [of E a i c g n u l s] show ?thesis by (auto simp: oracle_step_def)
qed (use assms in auto)

lemma supply_step:
  "to_i64 (total_supply (fst (oracle_step E s p))) = to_i64 (total_supply (fst s) + credited [p] - shortfall E s p)"
proof (cases "(\<forall>a x. p \<noteq> Credit a x) \<and> (\<forall>a f g u l. p \<noteq> Pull a f g u l)")
  case True
  then have "credited [p] = 0" and "shortfall E s p = 0"
    by (auto simp: credited_def shortfall_def split: oracle_op.split)
  with oracle_step_other [of p E s] True show ?thesis by (simp add: total_supply_def)
next
  case False
  then consider (Credit) a x where "p = Credit a x" | (Pull) a f g u l where "p = Pull a f g u l" by blast
  then show ?thesis
  proof cases
    case Credit
    then show ?thesis
      by (auto simp: oracle_step_def oracle_credit_def Let_def credited_def shortfall_def supply_add_balance)
  next
    case Pull
    show ?thesis
    proof (cases "quote_pull E a f (fst s)")
      case (Inr q)
      obtain rows items cost where q: "q = (rows, items, cost)" by (cases q)
      from quote_pull_Ok(1) [OF Inr [unfolded q]] have cost: "cost = to_i64 (sum_list (map of_price_watt items))" .
      have "min 0 cost = - max 0 (- cost)" by (simp add: min_def max_def)
      with supply_settle [OF cost, of a f "fst s"] Inr q Pull show ?thesis
        by (simp add: oracle_step_def log_step_registry(4) credited_def shortfall_def)
    qed (use Pull in \<open>simp add: oracle_step_def log_step_registry(4) credited_def shortfall_def\<close>)
  qed
qed

text \<open>C34: conservation. Whatever operations are run, the sum of all balances, in the arithmetic of
  \<^verbatim>\<open>i64\<close>, is what it was, plus what was credited, minus what pulls quoted below zero: a pull
  with a cost of zero or more moves money from the subscriber to the publishers and makes none.\<close>

theorem oracle_conserves:
  "to_i64 (total_supply (fst (run (oracle_step E) s ops)))
     = to_i64 (total_supply (fst s) + credited ops - shortfalls E s ops)"
proof (induction ops arbitrary: s)
  case (Cons p ops)
  let ?c = "credited ops - shortfalls E (oracle_step E s p) ops"
  have "to_i64 (total_supply (fst (run (oracle_step E) s (p # ops)))) = to_i64 (total_supply (fst (oracle_step E s p)) + ?c)"
    using Cons by (simp add: algebra_simps)
  also have "\<dots> = to_i64 (to_i64 (total_supply (fst (oracle_step E s p))) + ?c)" by simp
  also have "\<dots> = to_i64 (total_supply (fst s) + credited [p] - shortfall E s p + ?c)"
    unfolding supply_step by simp
  finally show ?case by (simp add: credited_def algebra_simps)
qed (simp add: credited_def)

subsection \<open>Nothing is charged twice\<close>

definition delivered_to :: "'v oracle_state \<Rightarrow> string \<Rightarrow> string set" where
  "delivered_to s key = bs_set (bget_or bempty (or_delivered (fst s)) key)"

lemma bget_or_binsert [simp]: "bget_or d (binsert k v m) j = (if j = k then v else bget_or d m j)"
  by (simp add: bget_or_def)

lemma add_balance_delivered [simp]: "or_delivered (add_balance a x r) = or_delivered r"
  by (simp add: add_balance_def)

lemma deliver_all_delivered:
  "bs_set (bget_or bempty (or_delivered (foldl (deliver key) r items)) k) =
     bs_set (bget_or bempty (or_delivered r) k) \<union> (if k = key then of_signature ` set items else {})"
  by (induction items arbitrary: r) (auto simp: deliver_def)

lemma settle_delivered:
  "bs_set (bget_or bempty (or_delivered (settle_pull a f items cost r)) k) =
     bs_set (bget_or bempty (or_delivered r) k) \<union> (if k = delivery_key a f then of_signature ` set items else {})"
  by (simp add: settle_pull_def Let_def deliver_all_delivered)

lemma pull_step_delivered:
  "quote_pull E a f (fst s) = Ok (rows, items, cost) \<Longrightarrow>
     delivered_to (oracle_step E s (Pull a f g u l)) (delivery_key a f)
       = delivered_to s (delivery_key a f) \<union> of_signature ` set items"
  by (simp add: oracle_step_def log_step_registry(4) delivered_to_def settle_delivered)

interpretation deliveries: forward_machine "oracle_step E" "\<lambda>_. True"
  "\<lambda>s t. \<forall>key. delivered_to s key \<subseteq> delivered_to t key" for E
proof unfold_locales
  fix s p
  show "\<forall>key. delivered_to s key \<subseteq> delivered_to (oracle_step E s p) key"
  proof (cases "(\<forall>a x. p \<noteq> Credit a x) \<and> (\<forall>a f g u l. p \<noteq> Pull a f g u l)")
    case True
    with oracle_step_other [of p E s] show ?thesis by (simp add: delivered_to_def)
  next
    case False
    then consider (Credit) a x where "p = Credit a x" | (Pull) a f g u l where "p = Pull a f g u l" by blast
    then show ?thesis
      by cases (auto simp: oracle_step_def oracle_credit_def Let_def log_step_registry(4) delivered_to_def
          settle_delivered split: sum.splits prod.splits)
  qed
qed (blast+)

lemma images_disjoint:
  assumes "f ` A \<subseteq> S" and "\<And>x. x \<in> B \<Longrightarrow> f x \<notin> S"
  shows "f ` A \<inter> f ` B = {}"
proof (rule equals0I)
  fix y assume "y \<in> f ` A \<inter> f ` B"
  then have "y \<in> f ` A" and "y \<in> f ` B" by (rule IntD1, rule IntD2)
  from this(2) obtain x where "x \<in> B" and "y = f x" by (rule imageE)
  with assms(1) \<open>y \<in> f ` A\<close> have "f x \<in> S" by (metis subsetD)
  with assms(2) [OF \<open>x \<in> B\<close>] show False ..
qed

text \<open>C35: no feed is charged twice. Of two settled pulls of a subscriber for the same feed, the later
  one charges only for rows whose signatures the earlier one did not deliver, and its cost is the
  sum of their prices, in the arithmetic of \<^verbatim>\<open>i64\<close>. The rows delivered earlier are returned
  again, free of charge.\<close>

theorem oracle_charged_once:
  assumes "i < j" and "j < length ops" and "ops ! i = Pull a f g u l"
    and "quote_pull E a f (fst (run (oracle_step E) s (take i ops))) = Ok (rows, items, cost)"
    and "quote_pull E a f (fst (run (oracle_step E) s (take j ops))) = Ok (rows', items', cost')"
  shows "of_signature ` set items \<inter> of_signature ` set items' = {}
     \<and> cost' = to_i64 (sum_list (map of_price_watt items'))"
proof -
  let ?s = "run (oracle_step E) s (take i ops)" and ?mid = "drop (Suc i) (take j ops)"
  have "take j ops = take (Suc i) ops @ ?mid"
    using assms(1) append_take_drop_id [of "Suc i" "take j ops", symmetric] by (simp add: min_def)
  moreover have "take (Suc i) ops = take i ops @ [Pull a f g u l]"
    using assms(1-3) by (simp add: take_Suc_conv_app_nth)
  ultimately have parts: "take j ops = take i ops @ Pull a f g u l # ?mid" by simp
  have split: "run (oracle_step E) s (take j ops)
      = run (oracle_step E) (oracle_step E ?s (Pull a f g u l)) ?mid"
    by (subst parts) simp
  have "of_signature ` set items \<subseteq> delivered_to (oracle_step E ?s (Pull a f g u l)) (delivery_key a f)"
    using pull_step_delivered [OF assms(4), of g u l] by blast
  also have "\<dots> \<subseteq> delivered_to (run (oracle_step E) s (take j ops)) (delivery_key a f)"
    unfolding split using deliveries.run_le [of ?mid "oracle_step E ?s (Pull a f g u l)" E]
    by (simp add: list_all_iff)
  finally have "of_signature ` set items \<subseteq> bs_set (bget_or bempty
      (or_delivered (fst (run (oracle_step E) s (take j ops)))) (delivery_key a f))"
    by (simp add: delivered_to_def)
  then have "of_signature ` set items \<inter> of_signature ` set items' = {}"
    by (rule images_disjoint) (rule quote_pull_Ok(3) [OF assms(5)])
  then show ?thesis using quote_pull_Ok(1) [OF assms(5)] by (rule conjI)
qed

definition demo_oracle :: "unit oracle_env" where
  "demo_oracle = \<lparr>oe_crypto = crypto_demo, oe_feed_jcs = \<lambda>_. Some ''{}'', oe_event_jcs = \<lambda>_. None,
     oe_feed_value = \<lambda>_. None, oe_subscription_value = \<lambda>_. None, oe_settlement_value = \<lambda>_. None\<rparr>"

definition demo_signer :: signer where
  "demo_signer = (id_agent_did demo_identity, identity_sign crypto_demo demo_identity)"

definition demo_feed :: "unit oracle_feed" where
  "demo_feed = \<lparr>of_feed_id = ''f'', of_publisher = id_agent_did demo_identity, of_timestamp = 1,
     of_payload = (), of_price_watt = 3, of_signature = demo_enc (demo_sign demo_seed ''{}'')\<rparr>"

definition demo_trades :: "unit oracle_op list" where
  "demo_trades = [Publish ''f'' () 3 (compat_view demo_identity) demo_signer 1 ''u'' 1,
     Subscribe ''a'' ''f'' 5 demo_signer 1 ''u'' 1, Credit ''a'' 10,
     Pull ''a'' ''f'' demo_signer ''u'' 2, Pull ''a'' ''f'' demo_signer ''u'' 3]"

lemma demo_signs: "identity_sign crypto_demo demo_identity ''{}'' = Ok (demo_enc (demo_sign demo_seed ''{}''))"
  by (simp add: identity_sign_def demo_identity_def crypto_demo_def demo_dec_enc demo_seed_def)

lemma demo_feed_verifies: "verify_feed_signature demo_oracle demo_feed = Ok True"
proof -
  have "sign_payload_with (oe_feed_jcs demo_oracle) (identity_sign crypto_demo demo_identity) (signable_of demo_feed)
      = Ok (of_signature demo_feed)"
    by (simp add: sign_payload_with_def canonical_bytes_def demo_oracle_def demo_signs demo_feed_def)
  from sign_payload_verifies(2) [OF crypto_demo_laws demo_import this] show ?thesis
    by (simp add: verify_feed_signature_def demo_oracle_def demo_feed_def)
qed

lemma demo_market:
  "run (oracle_step demo_oracle) (oracle_empty, None) (take 3 demo_trades) =
     (\<lparr>or_feeds = binsert ''f'' [demo_feed] bempty,
        or_subscriptions = [\<lparr>os_agent_did = ''a'', os_feed_id = ''f'', os_max_price_watt = 5, os_subscribed_at = 1\<rparr>],
        or_balances = binsert ''a'' 10 bempty, or_delivered = bempty\<rparr>, None)"
  by (simp add: demo_trades_def oracle_step_def publish_with_signer_def subscribe_with_signer_def
      oracle_credit_def add_balance_def balance_of_def Let_def log_to_def oracle_empty_def push_feed_def
      sign_payload_with_def canonical_bytes_def demo_oracle_def demo_signer_def demo_signs demo_feed_def
      compat_view_def bget_or_def to_i64_small)

lemma demo_quote:
  "quote_pull demo_oracle ''a'' ''f'' (fst (run (oracle_step demo_oracle) (oracle_empty, None) (take 3 demo_trades)))
     = Ok ([demo_feed], [demo_feed], 3)"
  unfolding demo_market
  by (simp add: quote_pull_def find_subscription_def eligible_feeds_def bget_or_def demo_feed_verifies
      balance_of_def to_i64_small Let_def) (simp add: demo_feed_def to_i64_small)

lemma demo_quote_again:
  "quote_pull demo_oracle ''a'' ''f'' (fst (run (oracle_step demo_oracle) (oracle_empty, None) (take 4 demo_trades)))
     = Ok ([demo_feed], [], 0)"
proof -
  let ?s = "run (oracle_step demo_oracle) (oracle_empty, None) (take 3 demo_trades)"
  have "take 4 demo_trades = take 3 demo_trades @ [Pull ''a'' ''f'' demo_signer ''u'' 2]"
    by (simp add: demo_trades_def)
  then have step: "run (oracle_step demo_oracle) (oracle_empty, None) (take 4 demo_trades)
      = oracle_step demo_oracle ?s (Pull ''a'' ''f'' demo_signer ''u'' 2)" by simp
  have "fst (oracle_step demo_oracle ?s (Pull ''a'' ''f'' demo_signer ''u'' 2)) =
      settle_pull ''a'' ''f'' [demo_feed] 3 (fst ?s)"
    by (simp add: oracle_step_def log_step_registry(4) demo_quote)
  then show ?thesis unfolding step demo_market
    by (simp add: quote_pull_def settle_pull_def deliver_def add_balance_def find_subscription_def
        eligible_feeds_def bget_or_def demo_feed_verifies balance_of_def Let_def to_i64_small)
      (simp add: demo_feed_def demo_identity_def to_i64_small)
qed

lemma oracle_charged_once_witness:
  "quote_pull demo_oracle ''a'' ''f'' (fst (run (oracle_step demo_oracle) (oracle_empty, None) (take 3 demo_trades)))
     = Ok ([demo_feed], [demo_feed], 3)
   \<and> quote_pull demo_oracle ''a'' ''f'' (fst (run (oracle_step demo_oracle) (oracle_empty, None) (take 4 demo_trades)))
     = Ok ([demo_feed], [], 0)
   \<and> of_signature ` set [demo_feed] \<inter> of_signature ` set ([] :: unit oracle_feed list) = {}"
  using oracle_charged_once [of 3 4 demo_trades "''a''" "''f''" demo_signer "''u''" 2 demo_oracle "(oracle_empty, None)",
      OF _ _ _ demo_quote demo_quote_again] demo_quote demo_quote_again
  by (simp add: demo_trades_def)

end
