(* ===== verification/Mailbox.thy ===== *)
theory Mailbox
  imports Signing Machines
begin

text \<open>
  \<^verbatim>\<open>governance/mailbox.rs\<close>: signed messages between subnets, kept per destination until they
  are acknowledged. The mailbox is shown to refine a specification by history: what a subnet
  fetches is what was sent to it and not acknowledged since, in the order of sending.
  The UUID and the clock reading of a message are arguments, \<^verbatim>\<open>serde_jcs\<close> is \<open>jcs\<close>.
\<close>

subsection \<open>Queues of identified items, by key\<close>

text \<open>
  The interface of a mailbox: items are appended under a key and dropped by key and identifier;
  what is fetched under a key is a list. What a sequence of these operations leaves under a key
  follows from the two laws alone.
\<close>

datatype ('k, 'm, 'i) queue_op = Push 'k 'm | Drop 'k 'i

fun outstanding :: "('m \<Rightarrow> 'i) \<Rightarrow> 'k \<Rightarrow> ('k, 'm, 'i) queue_op list \<Rightarrow> 'm list" where
  "outstanding ident k [] = []"
| "outstanding ident k (Push j m # ops) =
     (if j = k \<and> Drop k (ident m) \<notin> set ops then [m] else []) @ outstanding ident k ops"
| "outstanding ident k (Drop j i # ops) = outstanding ident k ops"

locale keyed_queue =
  fixes fetch :: "'q \<Rightarrow> 'k \<Rightarrow> 'm list"
    and push :: "'k \<Rightarrow> 'm \<Rightarrow> 'q \<Rightarrow> 'q"
    and drop_id :: "'k \<Rightarrow> 'i \<Rightarrow> 'q \<Rightarrow> 'q"
    and ident :: "'m \<Rightarrow> 'i"
  assumes fetch_push: "fetch (push k m q) j = (if j = k then fetch q k @ [m] else fetch q j)"
    and fetch_drop:
      "fetch (drop_id k i q) j = (if j = k then filter (\<lambda>m. ident m \<noteq> i) (fetch q k) else fetch q j)"
begin

definition qstep :: "'q \<Rightarrow> ('k, 'm, 'i) queue_op \<Rightarrow> 'q" where
  "qstep q p = (case p of Push k m \<Rightarrow> push k m q | Drop k i \<Rightarrow> drop_id k i q)"

lemma fetch_run:
  "fetch (run qstep q ops) k =
     filter (\<lambda>m. Drop k (ident m) \<notin> set ops) (fetch q k) @ outstanding ident k ops"
proof (induction ops arbitrary: q)
  case (Cons p ops)
  show ?case
  proof (cases p)
    case (Push j m)
    with Cons [of "push j m q"] show ?thesis by (simp add: qstep_def fetch_push)
  next
    case (Drop j i)
    have "filter (\<lambda>m. Drop k (ident m) \<notin> set ops) (fetch (drop_id j i q) k) =
        filter (\<lambda>m. Drop k (ident m) \<notin> set (Drop j i # ops)) (fetch q k)"
      by (auto simp: fetch_drop intro: filter_cong)
    with Drop Cons [of "drop_id j i q"] show ?thesis by (simp add: qstep_def)
  qed
qed simp

end

subsection \<open>The mailbox\<close>

record 'v cross_subnet_message =
  cm_message_id :: string
  cm_from_agent :: string
  cm_to_agent :: string
  cm_from_subnet :: string
  cm_to_subnet :: string
  cm_timestamp :: int
  cm_payload :: 'v
  cm_signature :: string

record 'v message_signable =
  ms_message_id :: string
  ms_from_agent :: string
  ms_to_agent :: string
  ms_from_subnet :: string
  ms_to_subnet :: string
  ms_timestamp :: int
  ms_payload :: 'v

record 'v cross_subnet_mailbox =
  inbox :: "(string, 'v cross_subnet_message list) btree_map"

datatype mailbox_error = Mail_sign sign_error | Subnet_inbox_not_found

definition mailbox_new :: "'v cross_subnet_mailbox" where
  "mailbox_new = \<lparr>inbox = bempty\<rparr>"

definition push_message :: "string \<Rightarrow> 'v cross_subnet_message \<Rightarrow> 'v cross_subnet_mailbox \<Rightarrow> 'v cross_subnet_mailbox" where
  "push_message subnet message b =
     b\<lparr>inbox := binsert subnet (bget_or [] (inbox b) subnet @ [message]) (inbox b)\<rparr>"

definition enqueue_signed_with_signer ::
  "('v message_signable \<Rightarrow> string option) \<Rightarrow> identity_compat_view \<Rightarrow> (string \<Rightarrow> sign_error + string) \<Rightarrow>
   string \<Rightarrow> string \<Rightarrow> string \<Rightarrow> 'v \<Rightarrow> string \<Rightarrow> int \<Rightarrow> 'v cross_subnet_mailbox \<Rightarrow>
   (mailbox_error + 'v cross_subnet_message) \<times> 'v cross_subnet_mailbox" where
  "enqueue_signed_with_signer jcs from_identity sign_bytes to_agent from_subnet to_subnet payload uuid now b =
     (let signable = \<lparr>ms_message_id = uuid, ms_from_agent = icv_agent_did from_identity,
            ms_to_agent = to_agent, ms_from_subnet = from_subnet, ms_to_subnet = to_subnet,
            ms_timestamp = now, ms_payload = payload\<rparr>
      in case sign_payload_with jcs sign_bytes signable of
           Inl e \<Rightarrow> (Err (Mail_sign e), b)
         | Inr signature \<Rightarrow>
           let message = \<lparr>cm_message_id = uuid, cm_from_agent = icv_agent_did from_identity,
                 cm_to_agent = to_agent, cm_from_subnet = from_subnet, cm_to_subnet = to_subnet,
                 cm_timestamp = now, cm_payload = payload, cm_signature = signature\<rparr>
           in (Ok message, push_message to_subnet message b))"

definition enqueue_signed ::
  "crypto \<Rightarrow> ('v message_signable \<Rightarrow> string option) \<Rightarrow> identity \<Rightarrow> string \<Rightarrow> string \<Rightarrow> string \<Rightarrow> 'v \<Rightarrow>
   string \<Rightarrow> int \<Rightarrow> 'v cross_subnet_mailbox \<Rightarrow>
   (mailbox_error + 'v cross_subnet_message) \<times> 'v cross_subnet_mailbox" where
  "enqueue_signed C jcs from_identity =
     enqueue_signed_with_signer jcs (compat_view from_identity) (identity_sign C from_identity)"

definition message_signable_of :: "'v cross_subnet_message \<Rightarrow> 'v message_signable" where
  "message_signable_of m =
     \<lparr>ms_message_id = cm_message_id m, ms_from_agent = cm_from_agent m, ms_to_agent = cm_to_agent m,
      ms_from_subnet = cm_from_subnet m, ms_to_subnet = cm_to_subnet m, ms_timestamp = cm_timestamp m,
      ms_payload = cm_payload m\<rparr>"

definition verify_message ::
  "crypto \<Rightarrow> ('v message_signable \<Rightarrow> string option) \<Rightarrow> 'v cross_subnet_message \<Rightarrow> sign_error + bool" where
  "verify_message C jcs m = verify_payload C jcs (message_signable_of m) (cm_signature m) (cm_from_agent m)"

definition fetch_for_subnet :: "'v cross_subnet_mailbox \<Rightarrow> string \<Rightarrow> 'v cross_subnet_message list" where
  "fetch_for_subnet b subnet = bget_or [] (inbox b) subnet"

definition ack ::
  "string \<Rightarrow> string \<Rightarrow> 'v cross_subnet_mailbox \<Rightarrow> (mailbox_error + unit) \<times> 'v cross_subnet_mailbox" where
  "ack subnet message_id b =
     (case bget (inbox b) subnet of
        None \<Rightarrow> (Err Subnet_inbox_not_found, b)
      | Some items \<Rightarrow>
        (Ok (), b\<lparr>inbox := binsert subnet (filter (\<lambda>item. cm_message_id item \<noteq> message_id) items) (inbox b)\<rparr>))"

datatype 'v mail_op =
    Enqueue identity string string string 'v string int
  | Ack string string

definition mail_step ::
  "crypto \<Rightarrow> ('v message_signable \<Rightarrow> string option) \<Rightarrow> 'v cross_subnet_mailbox \<Rightarrow> 'v mail_op \<Rightarrow> 'v cross_subnet_mailbox" where
  "mail_step C jcs b p = (case p of
     Enqueue i to_agent from_subnet to_subnet payload uuid now \<Rightarrow>
       snd (enqueue_signed C jcs i to_agent from_subnet to_subnet payload uuid now b)
   | Ack subnet message_id \<Rightarrow> snd (ack subnet message_id b))"

subsection \<open>Refinement of the specification\<close>

interpretation mail: keyed_queue fetch_for_subnet push_message
  "\<lambda>subnet message_id b. snd (ack subnet message_id b)" cm_message_id
  by unfold_locales (auto simp: fetch_for_subnet_def push_message_def ack_def bget_or_def split: option.split)

text \<open>The message an operation seals, and the queue operations a sequence amounts to.\<close>

definition sealed ::
  "crypto \<Rightarrow> ('v message_signable \<Rightarrow> string option) \<Rightarrow> 'v mail_op \<Rightarrow> 'v cross_subnet_message option" where
  "sealed C jcs p = (case p of
     Enqueue i to_agent from_subnet to_subnet payload uuid now \<Rightarrow>
       (case fst (enqueue_signed C jcs i to_agent from_subnet to_subnet payload uuid now mailbox_new) of
          Inl _ \<Rightarrow> None | Inr m \<Rightarrow> Some m)
   | Ack _ _ \<Rightarrow> None)"

definition queue_ops ::
  "crypto \<Rightarrow> ('v message_signable \<Rightarrow> string option) \<Rightarrow> 'v mail_op list \<Rightarrow>
     (string, 'v cross_subnet_message, string) queue_op list" where
  "queue_ops C jcs ops = concat (map (\<lambda>p. case p of
     Ack subnet message_id \<Rightarrow> [Drop subnet message_id]
   | Enqueue _ _ _ _ _ _ _ \<Rightarrow> (case sealed C jcs p of None \<Rightarrow> [] | Some m \<Rightarrow> [Push (cm_to_subnet m) m])) ops)"

lemma mail_step_queue: "mail_step C jcs b p = run mail.qstep b (queue_ops C jcs [p])"
  by (cases p)
    (auto simp: mail_step_def queue_ops_def sealed_def mail.qstep_def enqueue_signed_def
      enqueue_signed_with_signer_def Let_def split: sum.splits)

lemma mail_run_queue: "run (mail_step C jcs) b ops = run mail.qstep b (queue_ops C jcs ops)"
proof (induction ops arbitrary: b)
  case (Cons p ops)
  have "queue_ops C jcs (p # ops) = queue_ops C jcs [p] @ queue_ops C jcs ops" by (simp add: queue_ops_def)
  with Cons show ?case by (simp add: mail_step_queue [of C jcs b p])
qed (simp add: queue_ops_def)

lemma outstanding_pushed: "m \<in> set (outstanding ident k ops) \<Longrightarrow> Push k m \<in> set ops"
  by (induction ident k ops rule: outstanding.induct) (auto split: if_splits)

lemma queue_ops_sealed: "Push k m \<in> set (queue_ops C jcs ops) \<Longrightarrow> \<exists>p \<in> set ops. sealed C jcs p = Some m"
proof -
  assume "Push k m \<in> set (queue_ops C jcs ops)"
  then obtain p where p: "p \<in> set ops"
    and push: "Push k m \<in> set (case p of Ack subnet message_id \<Rightarrow> [Drop subnet message_id]
      | Enqueue _ _ _ _ _ _ _ \<Rightarrow> (case sealed C jcs p of None \<Rightarrow> [] | Some m \<Rightarrow> [Push (cm_to_subnet m) m]))"
    unfolding queue_ops_def by auto
  from push have "sealed C jcs p = Some m" by (cases p) (auto split: option.splits)
  with p show ?thesis ..
qed

lemma sealed_verifies:
  assumes "crypto_laws C" and "sealed C jcs (Enqueue i a s t v u n) = Some m"
    and "import_ed25519_private_key C x k = Ok i"
  shows "verify_message C jcs m = Ok True"
proof -
  obtain sig where sig: "sign_payload_with jcs (identity_sign C i) (message_signable_of m) = Ok sig"
    and m: "cm_signature m = sig" "cm_from_agent m = id_agent_did i"
    using assms(2) by (auto simp: sealed_def enqueue_signed_def enqueue_signed_with_signer_def Let_def
        compat_view_def message_signable_of_def split: sum.splits)
  from sign_payload_verifies(2) [OF assms(1,3) sig] show ?thesis by (simp add: verify_message_def m)
qed

definition imported_sender :: "crypto \<Rightarrow> 'v mail_op \<Rightarrow> bool" where
  "imported_sender C p = (case p of
     Enqueue i _ _ _ _ _ _ \<Rightarrow> \<exists>x k. import_ed25519_private_key C x k = Ok i | Ack _ _ \<Rightarrow> True)"

text \<open>C36: the mailbox refines its specification. After any sequence of operations a subnet fetches
  exactly the messages sealed for it that were not acknowledged later, in the order they were
  sent, and each of them verifies against its sender.\<close>

theorem mailbox_refines_history:
  assumes "crypto_laws C" and "list_all (imported_sender C) ops"
  shows "fetch_for_subnet (run (mail_step C jcs) mailbox_new ops) subnet
      = outstanding cm_message_id subnet (queue_ops C jcs ops)
    \<and> list_all (\<lambda>m. verify_message C jcs m = Ok True)
        (fetch_for_subnet (run (mail_step C jcs) mailbox_new ops) subnet)"
proof -
  have fetched: "fetch_for_subnet (run (mail_step C jcs) mailbox_new ops) subnet
      = outstanding cm_message_id subnet (queue_ops C jcs ops)"
    unfolding mail_run_queue mail.fetch_run by (simp add: fetch_for_subnet_def mailbox_new_def bget_or_def)
  have "verify_message C jcs m = Ok True"
    if "m \<in> set (outstanding cm_message_id subnet (queue_ops C jcs ops))" for m
  proof -
    from queue_ops_sealed [OF outstanding_pushed [OF that]] obtain p
      where p: "p \<in> set ops" "sealed C jcs p = Some m" by blast
    from p(2) obtain i a s t v u n where op: "p = Enqueue i a s t v u n" by (cases p) (auto simp: sealed_def)
    from assms(2) p(1) have "imported_sender C p" by (simp add: list_all_iff)
    then obtain x k where "import_ed25519_private_key C x k = Ok i"
      by (auto simp: op imported_sender_def)
    with p op assms(1) show ?thesis by (blast intro: sealed_verifies)
  qed
  with fetched show ?thesis by (simp add: list_all_iff)
qed

lemma mailbox_refines_history_witness:
  "map cm_message_id (fetch_for_subnet (run (mail_step crypto_demo (\<lambda>_. Some ''{}'')) mailbox_new
     [Enqueue demo_identity ''b'' ''s1'' ''s2'' () ''m1'' 1, Enqueue demo_identity ''b'' ''s1'' ''s2'' () ''m2'' 2,
      Ack ''s2'' ''m1'', Enqueue demo_identity ''b'' ''s1'' ''s2'' () ''m3'' 3]) ''s2'') = [''m2'', ''m3'']"
proof -
  let ?ops = "[Enqueue demo_identity ''b'' ''s1'' ''s2'' () ''m1'' 1, Enqueue demo_identity ''b'' ''s1'' ''s2'' () ''m2'' 2,
      Ack ''s2'' ''m1'', Enqueue demo_identity ''b'' ''s1'' ''s2'' () ''m3'' 3]"
  have "list_all (imported_sender crypto_demo) ?ops"
    using demo_import by (auto simp: imported_sender_def)
  from mailbox_refines_history [OF crypto_demo_laws this, of "\<lambda>_. Some ''{}''" "''s2''"]
  have "fetch_for_subnet (run (mail_step crypto_demo (\<lambda>_. Some ''{}'')) mailbox_new ?ops) ''s2''
      = outstanding cm_message_id ''s2'' (queue_ops crypto_demo (\<lambda>_. Some ''{}'') ?ops)" ..
  moreover have "map cm_message_id (outstanding cm_message_id ''s2'' (queue_ops crypto_demo (\<lambda>_. Some ''{}'') ?ops))
      = [''m2'', ''m3'']"
    by (simp add: queue_ops_def sealed_def enqueue_signed_def enqueue_signed_with_signer_def
        sign_payload_with_def canonical_bytes_def identity_sign_def crypto_demo_def demo_identity_def
        demo_dec_enc demo_seed_def Let_def)
  ultimately show ?thesis by metis
qed

end
