(* ===== verification/Identities.thy ===== *)
theory Identities
  imports Signing Registry
begin

text \<open>
  \<^verbatim>\<open>civilization/identities.rs\<close>: public identities, which certify themselves by the fingerprint
  of the key they are bound to, the bindings of their controllers, and the reconciliation of both
  with the agent that runs locally. Clock readings are arguments.
\<close>

subsection \<open>Characters\<close>

text \<open>The characters of a UTF-8 string: a byte that does not continue one starts the next.\<close>

definition continues :: "char \<Rightarrow> bool" where
  "continues c \<longleftrightarrow> 0x80 \<le> (of_char c :: nat) \<and> (of_char c :: nat) < 0xC0"

fun utf8_chars :: "string \<Rightarrow> string list" where
  "utf8_chars [] = []"
| "utf8_chars (c # s) =
     (case utf8_chars s of
        [] \<Rightarrow> [[c]]
      | w # ws \<Rightarrow> if w \<noteq> [] \<and> continues (hd w) then (c # w) # ws else [c] # w # ws)"

text \<open>\<^verbatim>\<open>char::is_control\<close>: the general category Cc.\<close>

fun is_control :: "string \<Rightarrow> bool" where
  "is_control [b] = ((of_char b :: nat) < 0x20 \<or> (of_char b :: nat) = 0x7F)"
| "is_control [a, b] = ((of_char a :: nat) = 0xC2 \<and> 0x80 \<le> (of_char b :: nat) \<and> (of_char b :: nat) < 0xA0)"
| "is_control _ = False"

lemma concat_utf8_chars [simp]: "concat (utf8_chars s) = s"
proof (induction s)
  case (Cons c s)
  then show ?case by (cases "utf8_chars s") auto
qed simp

subsection \<open>Identities and bindings\<close>

definition MAX_DISPLAY_NAME_CHARS :: nat where
  "MAX_DISPLAY_NAME_CHARS = 40"

datatype controller_kind = LocalWattswarm | ExternalRuntime

datatype ownership_scope = Local | External

record public_identity =
  pi_public_id :: string
  pi_display_name :: string
  pi_agent_did :: "string option"
  pi_active :: bool
  pi_created_at :: int
  pi_updated_at :: int

record controller_binding =
  cb_public_id :: string
  cb_controller_kind :: controller_kind
  cb_controller_ref :: string
  cb_controller_node_id :: "string option"
  cb_ownership_scope :: ownership_scope
  cb_active :: bool
  cb_created_at :: int
  cb_updated_at :: int

type_synonym public_identity_registry = "(string, public_identity) btree_map"

type_synonym controller_binding_registry = "(string, controller_binding) btree_map"

datatype identity_error =
    Display_name_required
  | Display_name_too_long
  | Display_name_control
  | Ownership_check sign_error
  | Public_id_not_owned
  | Public_identity_not_found
  | Derive_fingerprint sign_error

definition normalize_display_name :: "string \<Rightarrow> identity_error + string" where
  "normalize_display_name display_name =
     (let display_name = trim display_name
      in if display_name = [] then Err Display_name_required
         else if MAX_DISPLAY_NAME_CHARS < length (utf8_chars display_name) then Err Display_name_too_long
         else if list_ex is_control (utf8_chars display_name) then Err Display_name_control
         else Ok display_name)"

definition did_suffix :: "string \<Rightarrow> nat \<Rightarrow> string" where
  "did_suffix agent_did len =
     concat (rev (take len (rev (utf8_chars (strip_prefixes [''did:key:''] agent_did)))))"

definition default_public_slug :: "string \<Rightarrow> string" where
  "default_public_slug agent_did = ''agent-'' @ did_suffix agent_did 12"

definition default_display_name :: "string \<Rightarrow> string" where
  "default_display_name agent_did = ''Agent-'' @ did_suffix agent_did 8"

definition identity_upsert ::
  "crypto \<Rightarrow> string \<Rightarrow> string \<Rightarrow> string option \<Rightarrow> bool \<Rightarrow> int \<Rightarrow> public_identity_registry \<Rightarrow>
     (identity_error + public_identity) \<times> public_identity_registry" where
  "identity_upsert C public_id display_name agent_did active now r =
     (case normalize_display_name display_name of
        Inl e \<Rightarrow> (Err e, r)
      | Inr name \<Rightarrow>
        (case (case agent_did of None \<Rightarrow> Ok True | Some did \<Rightarrow> verify_public_id_ownership C public_id did) of
           Inl e \<Rightarrow> (Err (Ownership_check e), r)
         | Inr owned \<Rightarrow>
           if \<not> owned then (Err Public_id_not_owned, r)
           else
             let created_at = (case bget r public_id of None \<Rightarrow> now | Some i \<Rightarrow> pi_created_at i);
                 i = \<lparr>pi_public_id = public_id, pi_display_name = name, pi_agent_did = agent_did,
                   pi_active = active, pi_created_at = created_at, pi_updated_at = now\<rparr>
             in (Ok i, binsert public_id i r)))"

definition update_display_name ::
  "string \<Rightarrow> string \<Rightarrow> int \<Rightarrow> public_identity_registry \<Rightarrow>
     (identity_error + public_identity) \<times> public_identity_registry" where
  "update_display_name public_id display_name now r =
     (case normalize_display_name display_name of
        Inl e \<Rightarrow> (Err e, r)
      | Inr name \<Rightarrow> bmodify Public_identity_not_found public_id
          (\<lambda>i. leaves (i\<lparr>pi_display_name := name, pi_updated_at := now\<rparr>)) r)"

definition active_for_agent_did :: "public_identity_registry \<Rightarrow> string \<Rightarrow> public_identity option" where
  "active_for_agent_did r agent_did =
     List.find (\<lambda>i. pi_active i \<and> pi_agent_did i = Some agent_did) (bvalues r)"

definition ensure_local_default_for_agent ::
  "crypto \<Rightarrow> string \<Rightarrow> string option \<Rightarrow> int \<Rightarrow> public_identity_registry \<Rightarrow>
     (identity_error + public_identity) \<times> public_identity_registry" where
  "ensure_local_default_for_agent C agent_did bound_agent_did now r =
     (case bget r agent_did of
        Some i \<Rightarrow> (Ok i, r)
      | None \<Rightarrow>
        (case fingerprint_from_did_key C agent_did of
           Inl e \<Rightarrow> (Err (Derive_fingerprint e), r)
         | Inr fingerprint \<Rightarrow>
           let public_id = build_scoped_public_id (default_public_slug agent_did) fingerprint
           in case bget r public_id of
                Some i \<Rightarrow> (Ok i, r)
              | None \<Rightarrow>
                (case active_for_agent_did r agent_did of
                   Some i \<Rightarrow> (Ok i, r)
                 | None \<Rightarrow> identity_upsert C public_id (default_display_name agent_did) bound_agent_did True now r)))"

definition ensure_local_default ::
  "crypto \<Rightarrow> string \<Rightarrow> int \<Rightarrow> public_identity_registry \<Rightarrow>
     (identity_error + public_identity) \<times> public_identity_registry" where
  "ensure_local_default C agent_did = ensure_local_default_for_agent C agent_did (Some agent_did)"

definition binding_upsert ::
  "string \<Rightarrow> controller_kind \<Rightarrow> string \<Rightarrow> string option \<Rightarrow> ownership_scope \<Rightarrow> bool \<Rightarrow> int \<Rightarrow>
     controller_binding_registry \<Rightarrow> controller_binding \<times> controller_binding_registry" where
  "binding_upsert public_id controller_kind controller_ref controller_node_id ownership_scope active now b =
     (let created_at = (case bget b public_id of None \<Rightarrow> now | Some c \<Rightarrow> cb_created_at c);
          c = \<lparr>cb_public_id = public_id, cb_controller_kind = controller_kind,
            cb_controller_ref = controller_ref, cb_controller_node_id = controller_node_id,
            cb_ownership_scope = ownership_scope, cb_active = active, cb_created_at = created_at,
            cb_updated_at = now\<rparr>
      in (c, binsert public_id c b))"

definition ensure_local_wattswarm ::
  "string \<Rightarrow> string \<Rightarrow> int \<Rightarrow> controller_binding_registry \<Rightarrow> controller_binding \<times> controller_binding_registry" where
  "ensure_local_wattswarm public_id controller_node_id now b =
     (case bget b public_id of
        Some c \<Rightarrow> (c, b)
      | None \<Rightarrow> binding_upsert public_id LocalWattswarm ''local-default'' (Some controller_node_id) Local True now b)"

definition active_for_controller :: "controller_binding_registry \<Rightarrow> string \<Rightarrow> controller_binding option" where
  "active_for_controller b controller_node_id =
     List.find (\<lambda>c. cb_active c \<and> cb_controller_node_id c = Some controller_node_id) (bvalues b)"

definition local_runtime :: "controller_binding \<Rightarrow> bool" where
  "local_runtime c \<longleftrightarrow> cb_controller_kind c = LocalWattswarm \<and> cb_controller_ref c = ''local-default''
     \<and> cb_ownership_scope c = Local"

definition replaced_public_ids ::
  "public_identity_registry \<Rightarrow> controller_binding_registry \<Rightarrow> string \<Rightarrow> string list" where
  "replaced_public_ids r b active_agent_did =
     map cb_public_id (filter (\<lambda>c. local_runtime c \<and>
       is_some_and (bget r (cb_public_id c)) (\<lambda>i. is_some_and (pi_agent_did i) (\<lambda>d. d \<noteq> active_agent_did)))
       (bvalues b))"

definition remove_replaced_local_runtime_identities ::
  "string \<Rightarrow> public_identity_registry \<times> controller_binding_registry \<Rightarrow>
     nat \<times> public_identity_registry \<times> controller_binding_registry" where
  "remove_replaced_local_runtime_identities active_agent_did = (\<lambda>(r, b).
     let ids = replaced_public_ids r b active_agent_did
     in (length ids, foldl (\<lambda>m k. bremove k m) r ids, foldl (\<lambda>m k. bremove k m) b ids))"

definition reconcile_local_runtime_identity ::
  "crypto \<Rightarrow> string \<Rightarrow> int \<Rightarrow> int \<Rightarrow> public_identity_registry \<times> controller_binding_registry \<Rightarrow>
     (identity_error + (public_identity \<times> controller_binding))
       \<times> public_identity_registry \<times> controller_binding_registry" where
  "reconcile_local_runtime_identity C active_agent_did now now' s =
     (case remove_replaced_local_runtime_identities active_agent_did s of
        (_, r, b) \<Rightarrow>
          (case ensure_local_default_for_agent C active_agent_did (Some active_agent_did) now r of
             (Inl e, r) \<Rightarrow> (Err e, (r, b))
           | (Inr i, r) \<Rightarrow>
             (case ensure_local_wattswarm (pi_public_id i) active_agent_did now' b of
                (c, b) \<Rightarrow> (Ok (i, c), (r, b)))))"

subsection \<open>Well-formed registries\<close>

definition name_ok :: "string \<Rightarrow> bool" where
  "name_ok s \<longleftrightarrow> s \<noteq> [] \<and> trim s = s \<and> length (utf8_chars s) \<le> MAX_DISPLAY_NAME_CHARS
     \<and> list_all (\<lambda>c. \<not> is_control c) (utf8_chars s)"

lemma normalize_display_name_Ok:
  "normalize_display_name s = Ok t \<Longrightarrow> t = trim s \<and> name_ok t"
  by (auto simp: normalize_display_name_def name_ok_def Let_def list_ex_iff list_all_iff not_less split: if_splits)

lemma normalize_display_name_idem: "name_ok s \<Longrightarrow> normalize_display_name s = Ok s"
  by (auto simp: normalize_display_name_def name_ok_def Let_def list_ex_iff list_all_iff)

definition identity_ok :: "crypto \<Rightarrow> string \<Rightarrow> public_identity \<Rightarrow> bool" where
  "identity_ok C k i \<longleftrightarrow> pi_public_id i = k \<and> name_ok (pi_display_name i)
     \<and> is_none_or (pi_agent_did i) (\<lambda>d. verify_public_id_ownership C k d = Ok True)"

definition identities_ok :: "crypto \<Rightarrow> public_identity_registry \<Rightarrow> bool" where
  "identities_ok C r \<longleftrightarrow> (\<forall>k i. bget r k = Some i \<longrightarrow> identity_ok C k i)"

definition bindings_ok :: "controller_binding_registry \<Rightarrow> bool" where
  "bindings_ok b \<longleftrightarrow> (\<forall>k c. bget b k = Some c \<longrightarrow> cb_public_id c = k)"

lemma identities_okD: "identities_ok C r \<Longrightarrow> bget r k = Some i \<Longrightarrow> identity_ok C k i"
  by (simp add: identities_ok_def)

lemma identities_ok_insert: "identities_ok C r \<Longrightarrow> identity_ok C k i \<Longrightarrow> identities_ok C (binsert k i r)"
  by (simp add: identities_ok_def)

lemma upsert_result:
  assumes "identity_upsert C k name did active now r = (Ok i, r')"
  shows "identity_ok C k i" and "r' = binsert k i r" and "pi_agent_did i = did" and "pi_active i = active"
    and "pi_created_at i = (case bget r k of None \<Rightarrow> now | Some j \<Rightarrow> pi_created_at j)"
  using assms normalize_display_name_Ok
  by (auto simp: identity_upsert_def identity_ok_def Let_def split: sum.splits option.splits if_splits)

lemma upsert_cases:
  "(\<exists>i. identity_upsert C k name did active now r = (Ok i, binsert k i r) \<and> identity_ok C k i)
     \<or> (\<exists>e. identity_upsert C k name did active now r = (Err e, r))"
proof (cases "identity_upsert C k name did active now r")
  case (Pair res r')
  show ?thesis
  proof (cases res)
    case (Inr i)
    with Pair upsert_result(1,2) [of C k name did active now r i r'] show ?thesis by simp
  next
    case (Inl e)
    with Pair show ?thesis
      by (auto simp: identity_upsert_def Let_def split: sum.splits option.splits if_splits)
  qed
qed

text \<open>Ensuring a default returns an entry, and what it adds is one fresh entry.\<close>

lemma ensure_result:
  assumes "ensure_local_default_for_agent C d bound now r = (Ok i, r')"
  shows "(\<exists>k. bget r k = Some i \<and> r' = r)
     \<or> (\<exists>k. bget r k = None \<and> r' = binsert k i r \<and> identity_ok C k i \<and> pi_agent_did i = bound)"
proof (cases "bget r d")
  case (Some j)
  with assms show ?thesis by (auto simp: ensure_local_default_for_agent_def)
next
  case None
  then obtain fp where fp: "fingerprint_from_did_key C d = Ok fp"
    using assms by (auto simp: ensure_local_default_for_agent_def split: sum.splits)
  define k where "k = build_scoped_public_id (default_public_slug d) fp"
  show ?thesis
  proof (cases "bget r k")
    case (Some j)
    with None fp assms show ?thesis by (auto simp: ensure_local_default_for_agent_def k_def Let_def)
  next
    case fresh: None
    show ?thesis
    proof (cases "active_for_agent_did r d")
      case (Some j)
      then have "j \<in> set (bvalues r)" by (auto simp: active_for_agent_did_def dest: find_Some_iff2)
      then have "\<exists>k. bget r k = Some j" by (simp add: set_bvalues)
      moreover have "i = j \<and> r' = r"
        using None fp fresh Some assms by (simp add: ensure_local_default_for_agent_def k_def Let_def)
      ultimately show ?thesis by blast
    next
      case missing: None
      with None fp fresh assms have "identity_upsert C k (default_display_name d) bound True now r = (Ok i, r')"
        by (simp add: ensure_local_default_for_agent_def k_def Let_def)
      from upsert_result(1-3) [OF this] fresh show ?thesis by blast
    qed
  qed
qed

lemma upsert_error: "identity_upsert C k name did active now r = (Err e, r') \<Longrightarrow> r' = r"
  using upsert_cases [of C k name did active now r] by auto

lemma ensure_error:
  assumes "ensure_local_default_for_agent C d bound now r = (Err e, r')"
  shows "r' = r"
  using assms
  by (auto simp: ensure_local_default_for_agent_def Let_def dest: upsert_error split: option.splits sum.splits)

lemma ensure_ok:
  assumes "identities_ok C r"
  shows "identities_ok C (snd (ensure_local_default_for_agent C d bound now r))"
proof (cases "ensure_local_default_for_agent C d bound now r")
  case (Pair res r')
  show ?thesis
  proof (cases res)
    case (Inl e)
    with Pair ensure_error assms show ?thesis by fastforce
  next
    case (Inr i)
    with ensure_result [OF Pair [unfolded Inr]] Pair assms identities_ok_insert show ?thesis by auto
  qed
qed

lemma bget_removes: "bget (foldl (\<lambda>m k. bremove k m) r ks) j = (if j \<in> set ks then None else bget r j)"
  by (induction ks arbitrary: r) auto

lemma identities_ok_removes: "identities_ok C r \<Longrightarrow> identities_ok C (foldl (\<lambda>m k. bremove k m) r ks)"
  by (simp add: identities_ok_def bget_removes)

lemma bindings_ok_removes: "bindings_ok b \<Longrightarrow> bindings_ok (foldl (\<lambda>m k. bremove k m) b ks)"
  by (simp add: bindings_ok_def bget_removes)

lemma binding_upsert_ok: "bindings_ok b \<Longrightarrow> bindings_ok (snd (binding_upsert k kind cref node scope active now b))"
  by (simp add: bindings_ok_def binding_upsert_def Let_def)

lemma ensure_local_wattswarm_ok: "bindings_ok b \<Longrightarrow> bindings_ok (snd (ensure_local_wattswarm k node now b))"
  by (simp add: ensure_local_wattswarm_def binding_upsert_ok split: option.split)

lemma ensure_local_wattswarm_get:
  "bget (snd (ensure_local_wattswarm k node now b)) j =
     (if j = k then Some (fst (ensure_local_wattswarm k node now b)) else bget b j)"
  by (auto simp: ensure_local_wattswarm_def binding_upsert_def Let_def split: option.split)

subsection \<open>Reconciliation\<close>

text \<open>The local runtime of another agent than the active one.\<close>

definition foreign_runtime ::
  "string \<Rightarrow> public_identity_registry \<Rightarrow> controller_binding_registry \<Rightarrow> string \<Rightarrow> bool" where
  "foreign_runtime did r b k \<longleftrightarrow> is_some_and (bget b k) local_runtime
     \<and> is_some_and (bget r k) (\<lambda>i. is_some_and (pi_agent_did i) (\<lambda>d. d \<noteq> did))"

lemma set_replaced:
  assumes "bindings_ok b"
  shows "k \<in> set (replaced_public_ids r b did) \<longleftrightarrow> foreign_runtime did r b k"
proof
  assume "k \<in> set (replaced_public_ids r b did)"
  then obtain c where "c \<in> set (bvalues b)" and k: "k = cb_public_id c"
    and c: "local_runtime c" "is_some_and (bget r k) (\<lambda>i. is_some_and (pi_agent_did i) (\<lambda>d. d \<noteq> did))"
    by (auto simp: replaced_public_ids_def)
  then obtain j where "bget b j = Some c" by (auto simp: set_bvalues)
  with assms k have "bget b k = Some c" by (auto simp: bindings_ok_def)
  with c show "foreign_runtime did r b k" by (simp add: foreign_runtime_def)
next
  assume "foreign_runtime did r b k"
  then obtain c where c: "bget b k = Some c" "local_runtime c"
    "is_some_and (bget r k) (\<lambda>i. is_some_and (pi_agent_did i) (\<lambda>d. d \<noteq> did))"
    by (auto simp: foreign_runtime_def is_some_and_iff)
  with assms have "cb_public_id c = k" by (simp add: bindings_ok_def)
  with c show "k \<in> set (replaced_public_ids r b did)"
    by (force simp: replaced_public_ids_def set_bvalues)
qed

lemma removed_entries:
  assumes "bindings_ok b" and "remove_replaced_local_runtime_identities did (r, b) = (n, r', b')"
  shows "bget r' k = (if foreign_runtime did r b k then None else bget r k)"
    and "bget b' k = (if foreign_runtime did r b k then None else bget b k)"
  using assms(2) set_replaced [OF assms(1), of k r did]
  by (auto simp: remove_replaced_local_runtime_identities_def Let_def bget_removes)

lemma reconcile_result:
  assumes ok: "identities_ok C r" "bindings_ok b"
    and res: "reconcile_local_runtime_identity C did now now' (r, b) = (Ok (i, c), (r', b'))"
  shows "bget r' (pi_public_id i) = Some i" and "bget b' (pi_public_id i) = Some c"
    and "k \<noteq> pi_public_id i \<Longrightarrow> \<not> foreign_runtime did r' b' k"
    and "k \<noteq> pi_public_id i \<Longrightarrow> \<not> foreign_runtime did r b k \<Longrightarrow> bget r' k = bget r k \<and> bget b' k = bget b k"
proof -
  obtain n r1 b1 where rem: "remove_replaced_local_runtime_identities did (r, b) = (n, r1, b1)"
    by (cases "remove_replaced_local_runtime_identities did (r, b)")
  note gone = removed_entries [OF ok(2) rem]
  have ok1: "identities_ok C r1" "bindings_ok b1"
    using rem ok by (auto simp: remove_replaced_local_runtime_identities_def Let_def
        identities_ok_removes bindings_ok_removes)
  from res rem have ens: "ensure_local_default_for_agent C did (Some did) now r1 = (Ok i, r')"
    and b': "c = fst (ensure_local_wattswarm (pi_public_id i) did now' b1)"
      "b' = snd (ensure_local_wattswarm (pi_public_id i) did now' b1)"
    by (auto simp: reconcile_local_runtime_identity_def split: prod.splits sum.splits)
  have entry: "bget r' (pi_public_id i) = Some i \<and> (\<forall>j. j \<noteq> pi_public_id i \<longrightarrow> bget r' j = bget r1 j)"
    using ensure_result [OF ens]
  proof
    assume "\<exists>k. bget r1 k = Some i \<and> r' = r1"
    then obtain j where "bget r1 j = Some i" and "r' = r1" by blast
    moreover from this have "pi_public_id i = j" using identities_okD [OF ok1(1)] by (auto simp: identity_ok_def)
    ultimately show ?thesis by simp
  next
    assume "\<exists>k. bget r1 k = None \<and> r' = binsert k i r1 \<and> identity_ok C k i \<and> pi_agent_did i = Some did"
    then show ?thesis by (auto simp: identity_ok_def)
  qed
  then show "bget r' (pi_public_id i) = Some i" ..
  show "bget b' (pi_public_id i) = Some c" by (simp add: b' ensure_local_wattswarm_get)
  show "bget r' k = bget r k \<and> bget b' k = bget b k" if "k \<noteq> pi_public_id i" and "\<not> foreign_runtime did r b k"
    using that entry gone by (simp add: b' ensure_local_wattswarm_get)
  show "\<not> foreign_runtime did r' b' k" if "k \<noteq> pi_public_id i"
    using that entry gone [of k] by (auto simp: b' ensure_local_wattswarm_get foreign_runtime_def split: if_splits)
qed

lemma reconcile_ok:
  assumes "identities_ok C r" and "bindings_ok b"
  shows "identities_ok C (fst (snd (reconcile_local_runtime_identity C did now now' (r, b))))"
    and "bindings_ok (snd (snd (reconcile_local_runtime_identity C did now now' (r, b))))"
proof -
  obtain n r1 b1 where rem: "remove_replaced_local_runtime_identities did (r, b) = (n, r1, b1)"
    by (cases "remove_replaced_local_runtime_identities did (r, b)")
  then have "identities_ok C r1" and b1: "bindings_ok b1"
    using assms by (auto simp: remove_replaced_local_runtime_identities_def Let_def
        identities_ok_removes bindings_ok_removes)
  then have "identities_ok C (snd (ensure_local_default_for_agent C did (Some did) now r1))" by (simp add: ensure_ok)
  then show "identities_ok C (fst (snd (reconcile_local_runtime_identity C did now now' (r, b))))"
    and "bindings_ok (snd (snd (reconcile_local_runtime_identity C did now now' (r, b))))"
    using b1 ensure_local_wattswarm_ok [OF b1]
    by (auto simp: reconcile_local_runtime_identity_def rem split: prod.splits sum.splits) (metis snd_conv)+
qed

subsection \<open>Sequences of operations\<close>

datatype identity_op =
    Upsert string string "string option" bool int
  | Rename string string int
  | Ensure string "string option" int
  | Bind string controller_kind string "string option" ownership_scope bool int
  | Reconcile string int int

type_synonym identity_state = "public_identity_registry \<times> controller_binding_registry"

definition identity_step :: "crypto \<Rightarrow> identity_state \<Rightarrow> identity_op \<Rightarrow> identity_state" where
  "identity_step C s p = (case p of
     Upsert k name did active now \<Rightarrow> (snd (identity_upsert C k name did active now (fst s)), snd s)
   | Rename k name now \<Rightarrow> (snd (update_display_name k name now (fst s)), snd s)
   | Ensure did bound now \<Rightarrow> (snd (ensure_local_default_for_agent C did bound now (fst s)), snd s)
   | Bind k kind cref node scope active now \<Rightarrow> (fst s, snd (binding_upsert k kind cref node scope active now (snd s)))
   | Reconcile did now now' \<Rightarrow> snd (reconcile_local_runtime_identity C did now now' s))"

lemma update_display_name_ok:
  "identities_ok C r \<Longrightarrow> identities_ok C (snd (update_display_name k name now r))"
  by (auto simp: update_display_name_def identities_ok_def bmodify_get identity_ok_def
      dest: normalize_display_name_Ok split: sum.splits if_splits)

interpretation certified: invariant_machine "identity_step C" "\<lambda>_. True"
  "\<lambda>s. identities_ok C (fst s) \<and> bindings_ok (snd s)" for C
proof unfold_locales
  fix p and s :: identity_state
  assume s: "identities_ok C (fst s) \<and> bindings_ok (snd s)"
  show "identities_ok C (fst (identity_step C s p)) \<and> bindings_ok (snd (identity_step C s p))"
  proof (cases p)
    case (Upsert k name did active now)
    with s upsert_cases [of C k name did active now "fst s"] show ?thesis
      by (auto simp: identity_step_def identities_ok_insert)
  next
    case (Reconcile did now now')
    with s reconcile_ok [of C "fst s" "snd s" did now now'] show ?thesis by (simp add: identity_step_def)
  qed (use s in \<open>simp_all add: identity_step_def update_display_name_ok ensure_ok binding_upsert_ok\<close>)
qed

text \<open>C37: well-formed identities. Whatever operations are run from empty registries, every public
  identity is stored under its own id with a normalised display name and, when it is bound to an
  agent, its id is owned by that agent's key; and whenever the local runtime is then reconciled,
  the identity and the binding returned are the stored ones, no other local runtime of another
  agent is left, and every entry but these is as it was.\<close>

theorem identities_certified:
  fixes C ops
  assumes "run (identity_step C) (bempty, bempty) ops = (r, b)"
  shows "identities_ok C r \<and> bindings_ok b
    \<and> (case reconcile_local_runtime_identity C did now now' (r, b) of
         (Inr (i, c), (r', b')) \<Rightarrow>
           bget r' (pi_public_id i) = Some i \<and> bget b' (pi_public_id i) = Some c
           \<and> (\<forall>k. k \<noteq> pi_public_id i \<longrightarrow> \<not> foreign_runtime did r' b' k
                 \<and> (foreign_runtime did r b k \<or> bget r' k = bget r k \<and> bget b' k = bget b k))
       | (Inl _, _) \<Rightarrow> True)"
proof -
  have "identities_ok C (fst (run (identity_step C) (bempty, bempty) ops))
      \<and> bindings_ok (snd (run (identity_step C) (bempty, bempty) ops))"
    by (rule certified.run_inv) (simp_all add: list_all_iff identities_ok_def bindings_ok_def)
  then have ok: "identities_ok C r" "bindings_ok b" by (simp_all add: assms)
  obtain res r' b' where rec: "reconcile_local_runtime_identity C did now now' (r, b) = (res, (r', b'))"
    by (cases "reconcile_local_runtime_identity C did now now' (r, b)") auto
  show ?thesis
  proof (cases res)
    case (Inr q)
    obtain i c where q: "q = (i, c)" by (cases q)
    note result = reconcile_result [OF ok rec [unfolded Inr q]]
    then have "\<forall>k. k \<noteq> pi_public_id i \<longrightarrow> \<not> foreign_runtime did r' b' k
        \<and> (foreign_runtime did r b k \<or> bget r' k = bget r k \<and> bget b' k = bget b k)" by blast
    with ok rec Inr q result(1,2) show ?thesis by simp
  qed (use ok rec in simp)
qed

lemma identities_certified_witness:
  "identities_ok crypto_demo (fst (run (identity_step crypto_demo) (bempty, bempty)
      [Upsert ''did:key:a'' ''Ann'' (Some ''did:key:a'') True 1]))
   \<and> bget (fst (run (identity_step crypto_demo) (bempty, bempty)
      [Upsert ''did:key:a'' ''Ann'' (Some ''did:key:a'') True 1])) ''did:key:a'' \<noteq> None"
proof -
  let ?s = "run (identity_step crypto_demo) (bempty, bempty) [Upsert ''did:key:a'' ''Ann'' (Some ''did:key:a'') True 1]"
  have "normalize_display_name ''Ann'' = Ok ''Ann''"
    by (rule normalize_display_name_idem)
      (simp add: name_ok_def trim_printable printable_def MAX_DISPLAY_NAME_CHARS_def continues_def)
  then have "bget (fst ?s) ''did:key:a'' \<noteq> None"
    by (simp add: identity_step_def identity_upsert_def verify_public_id_ownership_def is_did_key_public_id_def
        DID_KEY_PREFIX_def public_key_b64_from_did_key_def crypto_demo_def Let_def)
  with identities_certified [where C = crypto_demo and r = "fst ?s" and b = "snd ?s"
      and ops = "[Upsert ''did:key:a'' ''Ann'' (Some ''did:key:a'') True 1]"] show ?thesis by simp
qed

end
