(* ===== verification/Space.thy ===== *)
theory Space
  imports Identities
begin

text \<open>
  \<^verbatim>\<open>space/mod.rs\<close> and \<^verbatim>\<open>space/package.rs\<close>: a space is a grid of tiles with places on it;
  a package is validated as a whole, and the presence records of agents and world events are
  validated against it. \<^verbatim>\<open>serde_json\<close> and \<^verbatim>\<open>serde_jcs\<close> are the parameter
  \<open>canon\<close>, the canonical form of a package without its version.
\<close>

subsection \<open>Data\<close>

type_synonym tile = "nat \<times> nat"

datatype place_kind = World | Sector | Arena | GameObject

fun place_kind_rank :: "place_kind \<Rightarrow> nat" where
  "place_kind_rank World = 0"
| "place_kind_rank Sector = 1"
| "place_kind_rank Arena = 2"
| "place_kind_rank GameObject = 3"

lemma place_kind_rank_inj: "place_kind_rank a = place_kind_rank b \<Longrightarrow> a = b"
  by (cases a; cases b) simp_all

text \<open>The derived order of the kinds.\<close>

instantiation place_kind :: linorder
begin

definition less_eq_place_kind :: "place_kind \<Rightarrow> place_kind \<Rightarrow> bool" where
  "less_eq_place_kind a b \<longleftrightarrow> place_kind_rank a \<le> place_kind_rank b"

definition less_place_kind :: "place_kind \<Rightarrow> place_kind \<Rightarrow> bool" where
  "less_place_kind a b \<longleftrightarrow> place_kind_rank a < place_kind_rank b"

instance
  by standard (auto simp: less_eq_place_kind_def less_place_kind_def dest: place_kind_rank_inj)

end

record place_name =
  pn_en :: string
  pn_zh :: string

record place =
  pl_place_id :: string
  pl_parent_place_id :: "string option"
  pl_kind :: place_kind
  pl_name :: place_name
  pl_tiles :: "tile list"

record portal =
  po_portal_id :: string
  po_source_place_id :: string
  po_target_space_id :: string
  po_target_place_id :: string

record service_binding =
  sb_place_id :: string
  sb_agent_id :: string

record space_package =
  sk_space_id :: string
  sk_space_version :: string
  sk_size :: "nat \<times> nat"
  sk_tile_size :: nat
  sk_walkable_grid :: "nat list list"
  sk_places :: "place list"
  sk_spawn_place_id :: string
  sk_walk_speed :: f64
  sk_movement_search_radius :: "nat option"
  sk_service_bindings :: "service_binding list"
  sk_portals :: "portal list"

record space_presence_record =
  pr_agent_did :: string
  pr_avatar_id :: "nat option"
  pr_skin_id :: "string option"
  pr_network_id :: string
  pr_space_id :: string
  pr_space_version :: string
  pr_entered :: bool
  pr_seq :: nat
  pr_from_tile :: tile
  pr_path :: string
  pr_depart_at :: int
  pr_destination_place_id :: string
  pr_activity :: string
  pr_object_place_id :: "string option"
  pr_updated_at :: int

record world_event =
  we_event_id :: string
  we_space_id :: string
  we_title :: string
  we_description :: string
  we_place_id :: string
  we_starts_at :: int
  we_ends_at :: int

datatype space_error =
    Space_id_required
  | Space_size_empty
  | Tile_size_zero
  | Walk_speed_invalid
  | Walkable_grid_invalid
  | Place_ids_invalid
  | Place_without_tiles string
  | Place_tiles_blocked string
  | Place_tiles_duplicate string
  | Unknown_parent_place
  | World_with_parent
  | Invalid_place_hierarchy
  | Tiles_outside_parent string
  | Root_not_world
  | World_place_missing
  | Spawn_place_unknown
  | Unknown_binding_place
  | Binding_agent_required
  | Portal_ids_invalid
  | Unknown_portal_source
  | Portal_target_space_required
  | Portal_target_place_required
  | Package_not_serializable
  | Space_version_mismatch
  | Record_space_mismatch
  | Record_version_mismatch
  | Agent_did_required
  | Sequence_not_positive
  | Presence_starts_blocked
  | Unknown_destination_place
  | Path_leaves_grid
  | Path_misses_destination
  | Unknown_object_place
  | Object_not_game_object
  | Object_not_at_tile
  | World_event_space_mismatch
  | World_event_id_required
  | World_event_title_required
  | Unknown_world_event_place
  | World_event_ends_before_start
  | Route_endpoint_blocked
  | Route_predecessor_missing
  | Destination_unreachable
  | Spawn_not_walkable
  | Place_not_reachable
  | Index_out_of_bounds

definition nth_opt :: "'a list \<Rightarrow> nat \<Rightarrow> 'a option" where
  "nth_opt xs i = (if i < length xs then Some (xs ! i) else None)"

subsection \<open>Tiles\<close>

definition is_walkable :: "space_package \<Rightarrow> tile \<Rightarrow> bool" where
  "is_walkable p t \<longleftrightarrow> fst t < fst (sk_size p) \<and> snd t < snd (sk_size p)
     \<and> (case nth_opt (sk_walkable_grid p) (snd t) of
          None \<Rightarrow> False | Some row \<Rightarrow> nth_opt row (fst t) = Some 1)"

definition checked_sub :: "nat \<Rightarrow> nat \<Rightarrow> nat option" where
  "checked_sub a b = (if b \<le> a then Some (a - b) else None)"

definition checked_add_u32 :: "nat \<Rightarrow> nat \<Rightarrow> nat option" where
  "checked_add_u32 a b = (if a + b \<le> u32_max then Some (a + b) else None)"

definition tile_step :: "space_package \<Rightarrow> tile \<Rightarrow> char \<Rightarrow> tile option" where
  "tile_step p t direction =
     (case (if direction = CHR ''U'' then map_option (Pair (fst t)) (checked_sub (snd t) 1)
            else if direction = CHR ''R'' then map_option (\<lambda>x. (x, snd t)) (checked_add_u32 (fst t) 1)
            else if direction = CHR ''D'' then map_option (Pair (fst t)) (checked_add_u32 (snd t) 1)
            else if direction = CHR ''L'' then map_option (\<lambda>x. (x, snd t)) (checked_sub (fst t) 1)
            else None) of
        None \<Rightarrow> None
      | Some next_tile \<Rightarrow> if is_walkable p next_tile then Some next_tile else None)"

text \<open>The loop that follows the bytes of a path.\<close>

fun walk_path :: "space_package \<Rightarrow> tile \<Rightarrow> string \<Rightarrow> tile option" where
  "walk_path p t [] = Some t"
| "walk_path p t (d # ds) = (case tile_step p t d of None \<Rightarrow> None | Some t' \<Rightarrow> walk_path p t' ds)"

definition find_place :: "space_package \<Rightarrow> string \<Rightarrow> place option" where
  "find_place p place_id = List.find (\<lambda>q. pl_place_id q = place_id) (sk_places p)"

definition places_at_tile :: "space_package \<Rightarrow> tile \<Rightarrow> place list" where
  "places_at_tile p t =
     sort_key (\<lambda>q. (pl_kind q, pl_place_id q)) (filter (\<lambda>q. t \<in> set (pl_tiles q)) (sk_places p))"

definition place_at_tile :: "space_package \<Rightarrow> tile \<Rightarrow> place option" where
  "place_at_tile p t = (case places_at_tile p t of [] \<Rightarrow> None | qs \<Rightarrow> Some (last qs))"

subsection \<open>Validation of a package\<close>

fun f64_positive :: "f64 \<Rightarrow> bool" where
  "f64_positive (F64_Fin x) = (0 < x)"
| "f64_positive _ = False"

text \<open>The first loop over the places, with the ids seen so far.\<close>

fun check_place_tiles :: "space_package \<Rightarrow> string set \<Rightarrow> place list \<Rightarrow> space_error + unit" where
  "check_place_tiles p ids [] = Ok ()"
| "check_place_tiles p ids (q # qs) =
     (if blank (pl_place_id q) \<or> pl_place_id q \<in> ids then Err Place_ids_invalid
      else if pl_tiles q = [] then Err (Place_without_tiles (pl_place_id q))
      else if \<not> list_all (is_walkable p) (pl_tiles q) then Err (Place_tiles_blocked (pl_place_id q))
      else if \<not> distinct (pl_tiles q) then Err (Place_tiles_duplicate (pl_place_id q))
      else check_place_tiles p (insert (pl_place_id q) ids) qs)"

fun parent_kind :: "place_kind \<Rightarrow> place_kind option" where
  "parent_kind World = None"
| "parent_kind Sector = Some World"
| "parent_kind Arena = Some Sector"
| "parent_kind GameObject = Some Arena"

text \<open>The second loop, over the hierarchy.\<close>

fun check_hierarchy :: "space_package \<Rightarrow> place list \<Rightarrow> space_error + unit" where
  "check_hierarchy p [] = Ok ()"
| "check_hierarchy p (q # qs) =
     (case pl_parent_place_id q of
        Some parent_id \<Rightarrow>
          (case find_place p parent_id of
             None \<Rightarrow> Err Unknown_parent_place
           | Some parent \<Rightarrow>
             (case parent_kind (pl_kind q) of
                None \<Rightarrow> Err World_with_parent
              | Some expected_kind \<Rightarrow>
                if pl_kind parent \<noteq> expected_kind then Err Invalid_place_hierarchy
                else if \<not> list_all (\<lambda>t. t \<in> set (pl_tiles parent)) (pl_tiles q)
                then Err (Tiles_outside_parent (pl_place_id q))
                else check_hierarchy p qs))
      | None \<Rightarrow>
          if \<not> (pl_kind q = World \<and> pl_place_id q = sk_space_id p) then Err Root_not_world
          else check_hierarchy p qs)"

fun check_bindings :: "space_package \<Rightarrow> service_binding list \<Rightarrow> space_error + unit" where
  "check_bindings p [] = Ok ()"
| "check_bindings p (b # bs) =
     (if find_place p (sb_place_id b) = None then Err Unknown_binding_place
      else if blank (sb_agent_id b) then Err Binding_agent_required
      else check_bindings p bs)"

fun validate_portals :: "space_package \<Rightarrow> string set \<Rightarrow> portal list \<Rightarrow> space_error + unit" where
  "validate_portals p ids [] = Ok ()"
| "validate_portals p ids (q # qs) =
     (if blank (po_portal_id q) \<or> po_portal_id q \<in> ids then Err Portal_ids_invalid
      else if find_place p (po_source_place_id q) = None then Err Unknown_portal_source
      else if blank (po_target_space_id q) then Err Portal_target_space_required
      else if blank (po_target_place_id q) then Err Portal_target_place_required
      else validate_portals p (insert (po_portal_id q) ids) qs)"

definition validate_package ::
  "crypto \<Rightarrow> (space_package \<Rightarrow> string option) \<Rightarrow> space_package \<Rightarrow> space_error + unit" where
  "validate_package C canon p =
     (if blank (sk_space_id p) then Err Space_id_required
      else if \<not> (0 < fst (sk_size p) \<and> 0 < snd (sk_size p)) then Err Space_size_empty
      else if \<not> 0 < sk_tile_size p then Err Tile_size_zero
      else if \<not> f64_positive (sk_walk_speed p) then Err Walk_speed_invalid
      else if \<not> (length (sk_walkable_grid p) = snd (sk_size p)
        \<and> list_all (\<lambda>row. length row = fst (sk_size p) \<and> list_all (\<lambda>cell. cell \<le> 1) row) (sk_walkable_grid p))
      then Err Walkable_grid_invalid
      else case check_place_tiles p {} (sk_places p) of Inl e \<Rightarrow> Err e | Inr _ \<Rightarrow>
     (case check_hierarchy p (sk_places p) of Inl e \<Rightarrow> Err e | Inr _ \<Rightarrow>
        if find_place p (sk_space_id p) = None then Err World_place_missing
        else if find_place p (sk_spawn_place_id p) = None then Err Spawn_place_unknown
        else case check_bindings p (sk_service_bindings p) of Inl e \<Rightarrow> Err e | Inr _ \<Rightarrow>
       (case validate_portals p {} (sk_portals p) of Inl e \<Rightarrow> Err e | Inr _ \<Rightarrow>
       (case canon p of
          None \<Rightarrow> Err Package_not_serializable
        | Some bytes \<Rightarrow>
          if sk_space_version p \<noteq> ''sha256:'' @ hex_encode C (sha256 C bytes) then Err Space_version_mismatch
          else Ok ()))))"

subsection \<open>Validation of records and events\<close>

definition validate_record_geometry :: "space_package \<Rightarrow> space_presence_record \<Rightarrow> space_error + unit" where
  "validate_record_geometry p r =
     (if pr_space_id r \<noteq> sk_space_id p then Err Record_space_mismatch
      else if blank (pr_agent_did r) then Err Agent_did_required
      else if \<not> 0 < pr_seq r then Err Sequence_not_positive
      else if \<not> is_walkable p (pr_from_tile r) then Err Presence_starts_blocked
      else case find_place p (pr_destination_place_id r) of
        None \<Rightarrow> Err Unknown_destination_place
      | Some destination \<Rightarrow>
        (case walk_path p (pr_from_tile r) (pr_path r) of
           None \<Rightarrow> Err Path_leaves_grid
         | Some t \<Rightarrow>
           if t \<notin> set (pl_tiles destination) then Err Path_misses_destination
           else case pr_object_place_id r of
             None \<Rightarrow> Ok ()
           | Some object_id \<Rightarrow>
             (case find_place p object_id of
                None \<Rightarrow> Err Unknown_object_place
              | Some obj \<Rightarrow>
                if pl_kind obj \<noteq> GameObject then Err Object_not_game_object
                else if t \<notin> set (pl_tiles obj) then Err Object_not_at_tile
                else Ok ())))"

definition validate_record :: "space_package \<Rightarrow> space_presence_record \<Rightarrow> space_error + unit" where
  "validate_record p r =
     (if pr_space_id r \<noteq> sk_space_id p then Err Record_space_mismatch
      else if pr_space_version r \<noteq> sk_space_version p then Err Record_version_mismatch
      else validate_record_geometry p r)"

definition validate_world_event :: "space_package \<Rightarrow> world_event \<Rightarrow> space_error + unit" where
  "validate_world_event p e =
     (if we_space_id e \<noteq> sk_space_id p then Err World_event_space_mismatch
      else if blank (we_event_id e) then Err World_event_id_required
      else if blank (we_title e) then Err World_event_title_required
      else if find_place p (we_place_id e) = None then Err Unknown_world_event_place
      else if \<not> we_starts_at e < we_ends_at e then Err World_event_ends_before_start
      else Ok ())"

text \<open>The loop of \<^verbatim>\<open>tile_at\<close>, after so many steps of the path, with saturating coordinates.\<close>

fun tile_after :: "tile \<Rightarrow> string \<Rightarrow> tile" where
  "tile_after t [] = t"
| "tile_after t (d # ds) =
     (if d = CHR ''U'' then tile_after (fst t, snd t - 1) ds
      else if d = CHR ''R'' then tile_after (sat_add u32_max (fst t) 1, snd t) ds
      else if d = CHR ''D'' then tile_after (fst t, sat_add u32_max (snd t) 1) ds
      else if d = CHR ''L'' then tile_after (fst t - 1, snd t) ds
      else t)"

subsection \<open>Walking\<close>

lemma tile_step_walkable: "tile_step p t d = Some t' \<Longrightarrow> is_walkable p t'"
  by (auto simp: tile_step_def split: option.splits if_splits)

lemma tile_step_direction: "tile_step p t d = Some t' \<Longrightarrow> d \<in> {CHR ''U'', CHR ''R'', CHR ''D'', CHR ''L''}"
  by (auto simp: tile_step_def split: option.splits if_splits)

lemma walk_append: "walk_path p t (s @ s') = (case walk_path p t s of None \<Rightarrow> None | Some u \<Rightarrow> walk_path p u s')"
  by (induction p t s rule: walk_path.induct) (auto split: option.split)

lemma walk_snoc: "walk_path p t (s @ [d]) = (case walk_path p t s of None \<Rightarrow> None | Some u \<Rightarrow> tile_step p u d)"
  by (auto simp: walk_append split: option.split)

lemma walk_walkable: "is_walkable p t \<Longrightarrow> walk_path p t s = Some u \<Longrightarrow> is_walkable p u"
  by (induction p t s rule: walk_path.induct) (auto split: option.splits dest: tile_step_walkable)

text \<open>Every step can be taken back.\<close>

fun opposite :: "char \<Rightarrow> char" where
  "opposite d = (if d = CHR ''U'' then CHR ''D'' else if d = CHR ''D'' then CHR ''U''
     else if d = CHR ''L'' then CHR ''R'' else CHR ''L'')"

definition size_u32 :: "space_package \<Rightarrow> bool" where
  "size_u32 p \<longleftrightarrow> fst (sk_size p) \<le> u32_max \<and> snd (sk_size p) \<le> u32_max"

lemma tile_step_back:
  assumes "tile_step p t d = Some t'" and "is_walkable p t" and "size_u32 p"
  shows "tile_step p t' (opposite d) = Some t"
proof -
  obtain x y where t: "t = (x, y)" by (cases t)
  from assms(2,3) have "x < u32_max" "y < u32_max" by (auto simp: t is_walkable_def size_u32_def)
  with assms(1,2) show ?thesis
    by (cases x; cases y) (auto simp: t tile_step_def checked_sub_def checked_add_u32_def split: if_splits)
qed

lemma walk_back:
  "walk_path p t s = Some u \<Longrightarrow> is_walkable p t \<Longrightarrow> size_u32 p \<Longrightarrow> \<exists>s'. walk_path p u s' = Some t"
proof (induction s arbitrary: t)
  case Nil
  then have "walk_path p u [] = Some t" by simp
  then show ?case ..
next
  case (Cons d s)
  then obtain t' where t': "tile_step p t d = Some t'" "walk_path p t' s = Some u" by (auto split: option.splits)
  with Cons tile_step_walkable obtain s' where "walk_path p u s' = Some t'" by blast
  then have "walk_path p u (s' @ [opposite d]) = Some t"
    using tile_step_back [OF t'(1) Cons.prems(2,3)] by (simp add: walk_snoc)
  then show ?case ..
qed

text \<open>On a walk of the grid the saturating steps are the checked ones.\<close>

lemma tile_after_walk: "walk_path p t s = Some u \<Longrightarrow> tile_after t s = u"
proof (induction s arbitrary: t)
  case (Cons d s)
  then obtain t' where t': "tile_step p t d = Some t'" "walk_path p t' s = Some u" by (auto split: option.splits)
  from t'(1) have "tile_after t (d # s) = tile_after t' s"
    by (auto simp: tile_step_def checked_sub_def checked_add_u32_def sat_add_def split: if_splits)
  with Cons t' show ?case by simp
qed simp

end
