(* ===== verification/Space_Routing.thy ===== *)
theory Space_Routing
  imports Space
begin

text \<open>
  \<^verbatim>\<open>space/routing.rs\<close>: the breadth-first search for a path between two tiles, the tiles reachable
  from the spawn place, and the tile of a place an agent walks to. The visited and predecessor
  vectors are lists indexed as in the code; an index outside them is the error
  \<open>Index_out_of_bounds\<close>, the panic of the code.
\<close>

subsection \<open>The operations\<close>

definition DIRECTIONS :: string where
  "DIRECTIONS = ''URDL''"

definition tile_index :: "space_package \<Rightarrow> tile \<Rightarrow> nat" where
  "tile_index p t = snd t * fst (sk_size p) + fst t"

definition cell_count :: "space_package \<Rightarrow> nat" where
  "cell_count p = fst (sk_size p) * snd (sk_size p)"

type_synonym previous = "(tile \<times> char) option list"

record search_state =
  ss_visited :: "bool list"
  ss_previous :: previous
  ss_queue :: "tile list"

text \<open>The inner loop over the directions: an error, the predecessors once the destination is
  found, or the state for the next tile.\<close>

fun try_directions ::
  "space_package \<Rightarrow> tile \<Rightarrow> tile \<Rightarrow> string \<Rightarrow> search_state \<Rightarrow> (space_error + previous) + search_state" where
  "try_directions p to_tile t [] st = Inr st"
| "try_directions p to_tile t (d # ds) st =
     (case tile_step p t d of
        None \<Rightarrow> try_directions p to_tile t ds st
      | Some u \<Rightarrow>
        (case nth_opt (ss_visited st) (tile_index p u) of
           None \<Rightarrow> Inl (Err Index_out_of_bounds)
         | Some True \<Rightarrow> try_directions p to_tile t ds st
         | Some False \<Rightarrow>
           let visited = (ss_visited st)[tile_index p u := True];
               prev = (ss_previous st)[tile_index p u := Some (t, d)]
           in if u = to_tile then Inl (Ok prev)
              else try_directions p to_tile t ds
                \<lparr>ss_visited = visited, ss_previous = prev, ss_queue = ss_queue st @ [u]\<rparr>))"

text \<open>Every tile put into the queue was unvisited and is visited from then on.\<close>

definition unvisited :: "bool list \<Rightarrow> nat" where
  "unvisited v = length (filter Not v)"

lemma unvisited_update:
  "nth_opt v i = Some False \<Longrightarrow> Suc (unvisited (v[i := True])) = unvisited v"
  unfolding unvisited_def
proof (induction v arbitrary: i)
  case (Cons b v)
  then show ?case by (cases i) (auto simp: nth_opt_def split: if_splits)
qed (simp add: nth_opt_def)

lemma try_directions_measure:
  "try_directions p to_tile t ds st = Inr st' \<Longrightarrow>
   unvisited (ss_visited st') + length (ss_queue st') = unvisited (ss_visited st) + length (ss_queue st)"
proof (induction ds arbitrary: st)
  case (Cons d ds)
  show ?case
  proof (cases "tile_step p t d")
    case (Some u)
    with Cons.prems obtain b where b: "nth_opt (ss_visited st) (tile_index p u) = Some b"
      by (auto split: option.splits)
    show ?thesis
    proof (cases b)
      case False
      with Cons Some b show ?thesis
        using unvisited_update [of "ss_visited st" "tile_index p u"]
        by (fastforce simp: Let_def split: if_splits)
    qed (use Cons Some b in auto)
  qed (use Cons in auto)
qed simp

text \<open>The outer loop, until the queue is empty.\<close>

function search_loop :: "space_package \<Rightarrow> tile \<Rightarrow> search_state \<Rightarrow> space_error + previous" where
  "search_loop p to_tile st =
     (case ss_queue st of
        [] \<Rightarrow> Err Destination_unreachable
      | t # q \<Rightarrow>
        (case try_directions p to_tile t DIRECTIONS (st\<lparr>ss_queue := q\<rparr>) of
           Inl r \<Rightarrow> r
         | Inr st' \<Rightarrow> search_loop p to_tile st'))"
  by pat_completeness auto
termination
  by (relation "measure (\<lambda>(p, to_tile, st). unvisited (ss_visited st) + length (ss_queue st))")
    (auto dest: try_directions_measure)

text \<open>The loop that follows the predecessors back; it has no bound of its own.\<close>

partial_function (option) rebuild ::
  "space_package \<Rightarrow> tile \<Rightarrow> previous \<Rightarrow> tile \<Rightarrow> string \<Rightarrow> (space_error + string) option" where
  "rebuild p from_tile prev cursor path =
     (if cursor = from_tile then Some (Ok (rev path))
      else case nth_opt prev (tile_index p cursor) of
        None \<Rightarrow> Some (Err Index_out_of_bounds)
      | Some None \<Rightarrow> Some (Err Route_predecessor_missing)
      | Some (Some (parent, direction)) \<Rightarrow> rebuild p from_tile prev parent (path @ [direction]))"

definition space_path :: "space_package \<Rightarrow> tile \<Rightarrow> tile \<Rightarrow> (space_error + string) option" where
  "space_path p from_tile to_tile =
     (if \<not> (is_walkable p from_tile \<and> is_walkable p to_tile) then Some (Err Route_endpoint_blocked)
      else if from_tile = to_tile then Some (Ok [])
      else if cell_count p \<le> tile_index p from_tile then Some (Err Index_out_of_bounds)
      else case search_loop p to_tile
          \<lparr>ss_visited = (replicate (cell_count p) False)[tile_index p from_tile := True],
           ss_previous = replicate (cell_count p) None, ss_queue = [from_tile]\<rparr> of
        Inl e \<Rightarrow> Some (Err e)
      | Inr prev \<Rightarrow> rebuild p from_tile prev to_tile [])"

fun mark_directions ::
  "space_package \<Rightarrow> tile \<Rightarrow> string \<Rightarrow> bool list \<times> tile list \<Rightarrow> space_error + bool list \<times> tile list" where
  "mark_directions p t [] st = Ok st"
| "mark_directions p t (d # ds) (reachable, q) =
     (case tile_step p t d of
        None \<Rightarrow> mark_directions p t ds (reachable, q)
      | Some u \<Rightarrow>
        (case nth_opt reachable (tile_index p u) of
           None \<Rightarrow> Err Index_out_of_bounds
         | Some True \<Rightarrow> mark_directions p t ds (reachable, q)
         | Some False \<Rightarrow> mark_directions p t ds (reachable[tile_index p u := True], q @ [u])))"

lemma mark_directions_measure:
  "mark_directions p t ds st = Inr st' \<Longrightarrow>
   unvisited (fst st') + length (snd st') = unvisited (fst st) + length (snd st)"
proof (induction p t ds st rule: mark_directions.induct)
  case (2 p t d ds reachable q)
  show ?case
  proof (cases "tile_step p t d")
    case (Some u)
    with 2(4) obtain b where b: "nth_opt reachable (tile_index p u) = Some b"
      by (auto split: option.splits)
    show ?thesis
    proof (cases b)
      case False
      with 2 Some b show ?thesis
        using unvisited_update [of reachable "tile_index p u"] by fastforce
    qed (use 2 Some b in auto)
  qed (use 2 in auto)
qed simp

function mark_loop :: "space_package \<Rightarrow> bool list \<times> tile list \<Rightarrow> space_error + bool list" where
  "mark_loop p st =
     (case snd st of
        [] \<Rightarrow> Ok (fst st)
      | t # q \<Rightarrow>
        (case mark_directions p t DIRECTIONS (fst st, q) of
           Inl e \<Rightarrow> Err e
         | Inr st' \<Rightarrow> mark_loop p st'))"
  by pat_completeness auto
termination
  by (relation "measure (\<lambda>(p, st). unvisited (fst st) + length (snd st))")
    (auto dest: mark_directions_measure)

text \<open>\<^verbatim>\<open>Iterator::min_by_key\<close>: the first of the least elements.\<close>

fun min_by_key :: "('a \<Rightarrow> 'k::linorder) \<Rightarrow> 'a list \<Rightarrow> 'a option" where
  "min_by_key f [] = None"
| "min_by_key f (x # xs) =
     (case min_by_key f xs of
        None \<Rightarrow> Some x
      | Some y \<Rightarrow> if f x \<le> f y then Some x else Some y)"

definition spawn_start :: "space_package \<Rightarrow> space_error + tile" where
  "spawn_start p =
     (case find_place p (sk_spawn_place_id p) of
        None \<Rightarrow> Err Spawn_place_unknown
      | Some spawn \<Rightarrow>
        (case min_by_key (\<lambda>t. (snd t, fst t)) (filter (is_walkable p) (pl_tiles spawn)) of
           None \<Rightarrow> Err Spawn_not_walkable
         | Some start \<Rightarrow> Ok start))"

definition spawn_reachable :: "space_package \<Rightarrow> space_error + bool list" where
  "spawn_reachable p =
     (case spawn_start p of
        Inl e \<Rightarrow> Err e
      | Inr start \<Rightarrow>
        if cell_count p \<le> tile_index p start then Err Index_out_of_bounds
        else mark_loop p ((replicate (cell_count p) False)[tile_index p start := True], [start]))"

fun keep_reachable :: "space_package \<Rightarrow> bool list \<Rightarrow> tile list \<Rightarrow> space_error + tile list" where
  "keep_reachable p reachable [] = Ok []"
| "keep_reachable p reachable (t # ts) =
     (case nth_opt reachable (tile_index p t) of
        None \<Rightarrow> Err Index_out_of_bounds
      | Some b \<Rightarrow>
        (case keep_reachable p reachable ts of
           Inl e \<Rightarrow> Err e
         | Inr us \<Rightarrow> Ok (if b then t # us else us)))"

definition from_be_bytes :: "string \<Rightarrow> nat" where
  "from_be_bytes bs = foldl (\<lambda>n c. n * 256 + of_char c) 0 bs"

definition destination_tile :: "crypto \<Rightarrow> space_package \<Rightarrow> string \<Rightarrow> string \<Rightarrow> space_error + tile" where
  "destination_tile C p agent_did place_id =
     (case find_place p place_id of
        None \<Rightarrow> Err Unknown_destination_place
      | Some q \<Rightarrow>
        (case spawn_reachable p of
           Inl e \<Rightarrow> Err e
         | Inr reachable \<Rightarrow>
           (case keep_reachable p reachable (pl_tiles q) of
              Inl e \<Rightarrow> Err e
            | Inr kept \<Rightarrow>
              let candidates = sort_key (\<lambda>t. (snd t, fst t)) kept;
                  selector = from_be_bytes (take 8 (sha256 C (agent_did @ [CHR 0x0A] @ place_id)))
              in if candidates = [] then Err Place_not_reachable
                 else Ok (candidates ! (selector mod length candidates)))))"

subsection \<open>Visited tiles\<close>

declare split_paired_All [simp del] split_paired_Ex [simp del]

definition seen :: "space_package \<Rightarrow> bool list \<Rightarrow> tile \<Rightarrow> bool" where
  "seen p v t \<longleftrightarrow> nth_opt v (tile_index p t) = Some True"

lemma tile_index_bound: "is_walkable p t \<Longrightarrow> tile_index p t < cell_count p"
proof -
  assume "is_walkable p t"
  then have *: "fst t < fst (sk_size p)" "Suc (snd t) \<le> snd (sk_size p)" by (simp_all add: is_walkable_def)
  have "tile_index p t < Suc (snd t) * fst (sk_size p)" using *(1) by (simp add: tile_index_def)
  also have "\<dots> \<le> snd (sk_size p) * fst (sk_size p)" using *(2) by (rule mult_le_mono1)
  finally show ?thesis by (simp add: cell_count_def mult.commute)
qed

lemma tile_index_inj:
  assumes "is_walkable p t" and "is_walkable p u" and "tile_index p t = tile_index p u"
  shows "t = u"
proof -
  let ?w = "fst (sk_size p)"
  have w: "fst t < ?w" "fst u < ?w" using assms by (simp_all add: is_walkable_def)
  have "(snd t * ?w + fst t) mod ?w = (snd u * ?w + fst u) mod ?w"
    "(snd t * ?w + fst t) div ?w = (snd u * ?w + fst u) div ?w"
    using assms(3) by (simp_all add: tile_index_def)
  with w have "fst t = fst u" "snd t = snd u" by simp_all
  then show ?thesis by (rule prod_eqI)
qed

lemma nth_opt_update:
  "nth_opt (xs[i := x]) j = (if j = i \<and> i < length xs then Some x else nth_opt xs j)"
  by (auto simp: nth_opt_def)

lemma nth_opt_tile:
  "is_walkable p t \<Longrightarrow> length xs = cell_count p \<Longrightarrow> nth_opt xs (tile_index p t) = Some (xs ! tile_index p t)"
  by (simp add: nth_opt_def tile_index_bound)

lemma seen_update:
  assumes "is_walkable p t" and "is_walkable p u" and "length v = cell_count p"
  shows "seen p (v[tile_index p t := True]) u \<longleftrightarrow> u = t \<or> seen p v u"
  using assms tile_index_inj [of p u t] tile_index_bound [of p t]
  by (auto simp: seen_def nth_opt_update)

lemma seen_cases:
  assumes "is_walkable p t" and "length v = cell_count p"
  obtains "nth_opt v (tile_index p t) = Some True" and "seen p v t"
  | "nth_opt v (tile_index p t) = Some False" and "\<not> seen p v t"
  using assms by (cases "v ! tile_index p t") (auto simp: seen_def nth_opt_tile)

lemma seen_start:
  "is_walkable p s \<Longrightarrow> is_walkable p u \<Longrightarrow>
   seen p ((replicate (cell_count p) False)[tile_index p s := True]) u \<longleftrightarrow> u = s"
  by (simp add: seen_update) (simp add: seen_def nth_opt_def)

subsection \<open>Distances\<close>

definition reaches :: "space_package \<Rightarrow> tile \<Rightarrow> tile \<Rightarrow> bool" where
  "reaches p s t \<longleftrightarrow> (\<exists>w. walk_path p s w = Some t)"

definition dist :: "space_package \<Rightarrow> tile \<Rightarrow> tile \<Rightarrow> nat" where
  "dist p s t = (LEAST n. \<exists>w. walk_path p s w = Some t \<and> length w = n)"

lemma dist_le: "walk_path p s w = Some t \<Longrightarrow> dist p s t \<le> length w"
  unfolding dist_def by (rule Least_le) blast

lemma dist_walk: "reaches p s t \<Longrightarrow> \<exists>w. walk_path p s w = Some t \<and> length w = dist p s t"
  unfolding dist_def reaches_def by (rule LeastI_ex) blast

lemma dist_self [simp]: "dist p s s = 0"
  using dist_le [of p s "[]" s] by simp

lemma dist_zero: "reaches p s t \<Longrightarrow> dist p s t = 0 \<Longrightarrow> t = s"
  using dist_walk [of p s t] by auto

lemma reaches_self [simp]: "reaches p s s"
  unfolding reaches_def by (rule exI [of _ "[]"]) simp

lemma reaches_step: "reaches p s t \<Longrightarrow> tile_step p t d = Some u \<Longrightarrow> reaches p s u"
  unfolding reaches_def by (metis option.simps(5) walk_snoc)

lemma dist_step:
  assumes "reaches p s t" and "tile_step p t d = Some u"
  shows "dist p s u \<le> Suc (dist p s t)"
proof -
  obtain w where w: "walk_path p s w = Some t" "length w = dist p s t" using dist_walk [OF assms(1)] by blast
  then have "walk_path p s (w @ [d]) = Some u" using assms(2) by (simp add: walk_snoc)
  from dist_le [OF this] show ?thesis using w(2) by simp
qed

lemma reaches_trans: "reaches p s t \<Longrightarrow> reaches p t u \<Longrightarrow> reaches p s u"
  unfolding reaches_def by (metis option.simps(5) walk_append)

lemma reaches_sym: "reaches p s t \<Longrightarrow> is_walkable p s \<Longrightarrow> size_u32 p \<Longrightarrow> reaches p t s"
  unfolding reaches_def using walk_back by blast

lemma reaches_walkable: "reaches p s t \<Longrightarrow> is_walkable p s \<Longrightarrow> is_walkable p t"
  unfolding reaches_def using walk_walkable by blast

subsection \<open>The frontier of a search\<close>

text \<open>Only reachable tiles are visited, and a step from a visited tile leads to a visited one
  unless it is pending: its tile is queued, or it is the tile at hand and the direction is left.\<close>

definition frontier ::
  "space_package \<Rightarrow> tile \<Rightarrow> bool list \<Rightarrow> tile list \<Rightarrow> tile \<Rightarrow> string \<Rightarrow> bool" where
  "frontier p s v q t ds \<longleftrightarrow>
     length v = cell_count p \<and> is_walkable p s \<and> seen p v s
     \<and> (\<forall>u. is_walkable p u \<and> seen p v u \<longrightarrow> reaches p s u)
     \<and> (\<forall>u \<in> insert t (set q). is_walkable p u \<and> seen p v u)
     \<and> (\<forall>u d u'. is_walkable p u \<and> seen p v u \<and> tile_step p u d = Some u' \<longrightarrow>
           seen p v u' \<or> u \<in> set q \<or> u = t \<and> d \<in> set ds)"

lemma frontierD:
  assumes "frontier p s v q t ds"
  shows "length v = cell_count p" and "is_walkable p s" and "seen p v s"
    and "is_walkable p u \<Longrightarrow> seen p v u \<Longrightarrow> reaches p s u"
    and "is_walkable p t" and "seen p v t"
    and "u \<in> set q \<Longrightarrow> is_walkable p u" and "u \<in> set q \<Longrightarrow> seen p v u"
    and "is_walkable p u \<Longrightarrow> seen p v u \<Longrightarrow> tile_step p u d = Some u' \<Longrightarrow>
      seen p v u' \<or> u \<in> set q \<or> u = t \<and> d \<in> set ds"
  using assms unfolding frontier_def by blast+

lemma frontierI:
  assumes "length v = cell_count p" and "is_walkable p s" and "seen p v s"
    and "\<And>u. is_walkable p u \<Longrightarrow> seen p v u \<Longrightarrow> reaches p s u"
    and "\<And>u. u = t \<or> u \<in> set q \<Longrightarrow> is_walkable p u \<and> seen p v u"
    and "\<And>u d u'. is_walkable p u \<Longrightarrow> seen p v u \<Longrightarrow> tile_step p u d = Some u' \<Longrightarrow>
      seen p v u' \<or> u \<in> set q \<or> u = t \<and> d \<in> set ds"
  shows "frontier p s v q t ds"
  using assms unfolding frontier_def by (metis insert_iff)

lemma frontier_start:
  assumes "is_walkable p s"
  shows "frontier p s ((replicate (cell_count p) False)[tile_index p s := True]) [s] s []"
  by (rule frontierI) (use assms in \<open>auto simp: seen_start\<close>)

lemma frontier_pop:
  assumes "frontier p s v (t # q) t' []"
  shows "frontier p s v q t DIRECTIONS"
proof (rule frontierI)
  fix u d u' assume "is_walkable p u" "seen p v u" "tile_step p u d = Some u'"
  then show "seen p v u' \<or> u \<in> set q \<or> u = t \<and> d \<in> set DIRECTIONS"
    using frontierD(9) [OF assms, of u d u'] tile_step_direction [of p u d u']
    by (auto simp: DIRECTIONS_def)
qed (use frontierD [OF assms] in auto)

lemma frontier_skip:
  assumes "frontier p s v q t (d # ds)" and "\<And>u. tile_step p t d = Some u \<Longrightarrow> seen p v u"
  shows "frontier p s v q t ds"
proof (rule frontierI)
  fix u d' u' assume "is_walkable p u" "seen p v u" "tile_step p u d' = Some u'"
  then show "seen p v u' \<or> u \<in> set q \<or> u = t \<and> d' \<in> set ds"
    using frontierD(9) [OF assms(1), of u d' u'] assms(2) [of u'] by auto
qed (use frontierD [OF assms(1)] in auto)

lemma frontier_push:
  assumes f: "frontier p s v q t (d # ds)" and u: "tile_step p t d = Some u"
  shows "frontier p s (v[tile_index p u := True]) (q @ [u]) t ds"
proof -
  note len = frontierD(1) [OF f]
  have w: "is_walkable p u" using u by (rule tile_step_walkable)
  note seen = seen_update [OF w _ len]
  have r: "reaches p s u" using frontierD(4-6) [OF f] u by (blast intro: reaches_step)
  show ?thesis
  proof (rule frontierI)
    fix x d' x' assume x: "is_walkable p x" "seen p (v[tile_index p u := True]) x" "tile_step p x d' = Some x'"
    have x': "is_walkable p x'" using x(3) by (rule tile_step_walkable)
    show "seen p (v[tile_index p u := True]) x' \<or> x \<in> set (q @ [u]) \<or> x = t \<and> d' \<in> set ds"
    proof (cases "x = u")
      case False
      then have "seen p v x" using x(1,2) by (simp add: seen)
      then show ?thesis using frontierD(9) [OF f x(1) _ x(3)] u x(3) x' by (auto simp: seen)
    qed simp
  next
    fix x assume "x = t \<or> x \<in> set (q @ [u])"
    then show "is_walkable p x \<and> seen p (v[tile_index p u := True]) x"
      using frontierD(5,6) [OF f] frontierD(7,8) [OF f, of x] w seen [of x] by auto
  qed (use frontierD(1-4) [OF f] w r seen in \<open>auto\<close>)
qed

lemma frontier_next: "frontier p s v q t [] \<Longrightarrow> frontier p s v q s []"
  unfolding frontier_def by (simp, blast)

text \<open>A reachable tile that is not yet visited lies beyond a pending one.\<close>

lemma frontier_cover:
  assumes f: "frontier p s v q t ds" and w: "walk_path p s w = Some u" and u: "\<not> seen p v u"
  shows "\<exists>x. (x \<in> set q \<or> x = t \<and> ds \<noteq> []) \<and> reaches p s x \<and> dist p s x < length w"
  using w u
proof (induction w arbitrary: u rule: rev_induct)
  case Nil
  then show ?case using frontierD(3) [OF f] by simp
next
  case (snoc d w)
  then obtain x where x: "walk_path p s w = Some x" "tile_step p x d = Some u"
    by (auto simp: walk_snoc split: option.splits)
  show ?case
  proof (cases "seen p v x")
    case True
    have xw: "is_walkable p x" using walk_walkable [OF frontierD(2) [OF f] x(1)] .
    have "x \<in> set q \<or> x = t \<and> ds \<noteq> []" using frontierD(9) [OF f xw True x(2)] snoc.prems(2) by auto
    moreover have "reaches p s x" using x(1) by (auto simp: reaches_def)
    moreover have "dist p s x < length (w @ [d])" using dist_le [OF x(1)] by simp
    ultimately show ?thesis by blast
  next
    case False
    from snoc.IH [OF x(1) False] show ?thesis by (auto intro: less_SucI)
  qed
qed

lemma frontier_done:
  assumes "frontier p s v [] t []" and "is_walkable p u"
  shows "seen p v u \<longleftrightarrow> reaches p s u"
proof
  assume "reaches p s u"
  then obtain w where "walk_path p s w = Some u" by (auto simp: reaches_def)
  from frontier_cover [OF assms(1) this] show "seen p v u" by auto
qed (rule frontierD(4) [OF assms])

subsection \<open>Predecessors and levels\<close>

definition chained :: "space_package \<Rightarrow> tile \<Rightarrow> bool list \<Rightarrow> previous \<Rightarrow> bool" where
  "chained p s v prev \<longleftrightarrow> length prev = cell_count p
     \<and> (\<forall>u. is_walkable p u \<and> seen p v u \<and> u \<noteq> s \<longrightarrow>
          (\<exists>t d. nth_opt prev (tile_index p u) = Some (Some (t, d)) \<and> is_walkable p t \<and> seen p v t
             \<and> tile_step p t d = Some u \<and> dist p s u = Suc (dist p s t)))"

definition levelled :: "space_package \<Rightarrow> tile \<Rightarrow> tile list \<Rightarrow> tile \<Rightarrow> bool" where
  "levelled p s q t \<longleftrightarrow> sorted (map (dist p s) q)
     \<and> list_all (\<lambda>u. dist p s t \<le> dist p s u \<and> dist p s u \<le> Suc (dist p s t)) q"

lemma chained_start:
  assumes "is_walkable p s"
  shows "chained p s ((replicate (cell_count p) False)[tile_index p s := True]) (replicate (cell_count p) None)"
  unfolding chained_def using seen_start [OF assms] by (simp, blast)

lemma chained_push:
  assumes c: "chained p s v prev" and len: "length v = cell_count p" and u: "tile_step p t d = Some u"
    and t: "is_walkable p t" "seen p v t" and new: "\<not> seen p v u" and dist: "dist p s u = Suc (dist p s t)"
  shows "chained p s (v[tile_index p u := True]) (prev[tile_index p u := Some (t, d)])"
  unfolding chained_def
proof (intro conjI allI impI)
  have w: "is_walkable p u" using u by (rule tile_step_walkable)
  note seen = seen_update [OF w _ len]
  show "length (prev[tile_index p u := Some (t, d)]) = cell_count p" using c by (simp add: chained_def)
  fix x assume x: "is_walkable p x \<and> seen p (v[tile_index p u := True]) x \<and> x \<noteq> s"
  show "\<exists>t' d'. nth_opt (prev[tile_index p u := Some (t, d)]) (tile_index p x) = Some (Some (t', d'))
      \<and> is_walkable p t' \<and> seen p (v[tile_index p u := True]) t' \<and> tile_step p t' d' = Some x
      \<and> dist p s x = Suc (dist p s t')"
  proof (cases "x = u")
    case True
    have "nth_opt (prev[tile_index p u := Some (t, d)]) (tile_index p u) = Some (Some (t, d))"
      using c tile_index_bound [OF w] by (simp add: nth_opt_update chained_def)
    with True t u dist seen [OF t(1)] show ?thesis by blast
  next
    case False
    with x have x': "is_walkable p x" "seen p v x" "x \<noteq> s" using seen [of x] by auto
    then obtain t' d' where td: "nth_opt prev (tile_index p x) = Some (Some (t', d'))" "is_walkable p t'"
      "seen p v t'" "tile_step p t' d' = Some x" "dist p s x = Suc (dist p s t')"
      using c unfolding chained_def by blast
    have "tile_index p x \<noteq> tile_index p u" using tile_index_inj [OF x'(1) w] False by blast
    with td seen [OF td(2)] show ?thesis by (auto simp: nth_opt_update)
  qed
qed

lemma levelled_pop: "levelled p s (t # q) x \<Longrightarrow> levelled p s q t"
  by (fastforce simp: levelled_def list_all_iff)

lemma levelled_push:
  "levelled p s q t \<Longrightarrow> dist p s u = Suc (dist p s t) \<Longrightarrow> levelled p s (q @ [u]) t"
  by (auto simp: levelled_def list_all_iff sorted_append)

text \<open>A tile met for the first time is one step further than the tile at hand.\<close>

lemma new_tile_dist:
  assumes f: "frontier p s v q t (d # ds)" and l: "levelled p s q t"
    and u: "tile_step p t d = Some u" and new: "\<not> seen p v u"
  shows "dist p s u = Suc (dist p s t)"
proof (rule antisym)
  have r: "reaches p s t" using frontierD(4-6) [OF f] by blast
  show "dist p s u \<le> Suc (dist p s t)" using dist_step [OF r u] .
  obtain w where w: "walk_path p s w = Some u" "length w = dist p s u"
    using dist_walk [OF reaches_step [OF r u]] by blast
  obtain x where x: "x \<in> set q \<or> x = t" "dist p s x < dist p s u"
    using frontier_cover [OF f w(1) new] w(2) by auto
  have "dist p s t \<le> dist p s x" using x(1) l by (auto simp: levelled_def list_all_iff)
  with x(2) show "Suc (dist p s t) \<le> dist p s u" by simp
qed

definition searching :: "space_package \<Rightarrow> tile \<Rightarrow> tile \<Rightarrow> search_state \<Rightarrow> tile \<Rightarrow> string \<Rightarrow> bool" where
  "searching p s to_tile st t ds \<longleftrightarrow>
     frontier p s (ss_visited st) (ss_queue st) t ds \<and> chained p s (ss_visited st) (ss_previous st)
     \<and> levelled p s (ss_queue st) t \<and> \<not> seen p (ss_visited st) to_tile"

definition found :: "space_package \<Rightarrow> tile \<Rightarrow> tile \<Rightarrow> previous \<Rightarrow> bool" where
  "found p s to_tile prev \<longleftrightarrow> (\<exists>v. chained p s v prev \<and> seen p v to_tile
     \<and> (\<forall>u. is_walkable p u \<and> seen p v u \<longrightarrow> reaches p s u))"

lemma searching_push:
  assumes i: "searching p s to_tile st t (d # ds)" and u: "tile_step p t d = Some u"
    and new: "\<not> seen p (ss_visited st) u"
  defines "v \<equiv> (ss_visited st)[tile_index p u := True]"
    and "prev \<equiv> (ss_previous st)[tile_index p u := Some (t, d)]"
  shows "frontier p s v (ss_queue st @ [u]) t ds" and "chained p s v prev"
    and "levelled p s (ss_queue st @ [u]) t" and "seen p v u"
    and "is_walkable p x \<Longrightarrow> seen p v x \<longleftrightarrow> x = u \<or> seen p (ss_visited st) x"
proof -
  from i have f: "frontier p s (ss_visited st) (ss_queue st) t (d # ds)"
    and c: "chained p s (ss_visited st) (ss_previous st)" and l: "levelled p s (ss_queue st) t"
    unfolding searching_def by blast+
  have w: "is_walkable p u" using u by (rule tile_step_walkable)
  note dist = new_tile_dist [OF f l u new]
  show "frontier p s v (ss_queue st @ [u]) t ds" unfolding v_def by (rule frontier_push [OF f u])
  show "chained p s v prev" unfolding v_def prev_def
    by (rule chained_push [OF c frontierD(1) [OF f] u frontierD(5,6) [OF f] new dist])
  show "levelled p s (ss_queue st @ [u]) t" by (rule levelled_push [OF l dist])
  show "seen p v u" unfolding v_def using seen_update [OF w w frontierD(1) [OF f]] by simp
  show "is_walkable p x \<Longrightarrow> seen p v x \<longleftrightarrow> x = u \<or> seen p (ss_visited st) x"
    unfolding v_def by (rule seen_update [OF w _ frontierD(1) [OF f]])
qed

lemma try_directions_correct:
  assumes "searching p s to_tile st t ds" and "is_walkable p to_tile"
  shows "case try_directions p to_tile t ds st of
      Inr st' \<Rightarrow> searching p s to_tile st' t [] | Inl (Inr prev) \<Rightarrow> found p s to_tile prev | Inl (Inl e) \<Rightarrow> False"
  using assms(1)
proof (induction ds arbitrary: st)
  case (Cons d ds)
  have f: "frontier p s (ss_visited st) (ss_queue st) t (d # ds)" using Cons.prems by (simp add: searching_def)
  have skip: "searching p s to_tile st t ds" if "\<And>u. tile_step p t d = Some u \<Longrightarrow> seen p (ss_visited st) u"
    using Cons.prems frontier_skip [OF f that] by (simp add: searching_def)
  show ?case
  proof (cases "tile_step p t d")
    case None
    with Cons.IH [OF skip] show ?thesis by simp
  next
    case (Some u)
    from seen_cases [OF tile_step_walkable [OF Some] frontierD(1) [OF f]] show ?thesis
    proof cases
      case 1
      then show ?thesis using Cons.IH [OF skip] Some by simp
    next
      case 2
      note new = searching_push [OF Cons.prems Some 2(2)]
      show ?thesis
      proof (cases "u = to_tile")
        case True
        have "found p s to_tile ((ss_previous st)[tile_index p u := Some (t, d)])"
          unfolding found_def using new(2,4) frontierD(4) [OF new(1)] True by blast
        then show ?thesis using Some 2(1) True by (simp add: Let_def)
      next
        case False
        then have "\<not> seen p ((ss_visited st)[tile_index p u := True]) to_tile"
          using new(5) [OF assms(2)] Cons.prems by (simp add: searching_def)
        with new(1-3) show ?thesis using Cons.IH Some 2(1) False by (simp add: Let_def searching_def)
      qed
    qed
  qed
qed simp

lemma searching_next:
  assumes "searching p s to_tile st t []" and "ss_queue st = t' # q"
  shows "searching p s to_tile (st\<lparr>ss_queue := q\<rparr>) t' DIRECTIONS"
  using assms frontier_pop levelled_pop unfolding searching_def by fastforce

lemma search_loop_correct:
  assumes "searching p s to_tile st t []" and "is_walkable p to_tile"
  shows "case search_loop p to_tile st of
      Inr prev \<Rightarrow> found p s to_tile prev
    | Inl e \<Rightarrow> e = Destination_unreachable \<and> \<not> reaches p s to_tile"
  using assms
proof (induction p to_tile st arbitrary: t rule: search_loop.induct)
  case (1 p to_tile st)
  show ?case
  proof (cases "ss_queue st")
    case Nil
    with 1 have "frontier p s (ss_visited st) [] t []" "\<not> seen p (ss_visited st) to_tile"
      by (simp_all add: searching_def)
    with frontier_done [of p s "ss_visited st" t to_tile] show ?thesis
      using Nil 1(3) by (simp add: search_loop.simps [of p to_tile st])
  next
    case (Cons t' q)
    show ?thesis
    proof (cases "try_directions p to_tile t' DIRECTIONS (st\<lparr>ss_queue := q\<rparr>)")
      case (Inl r)
      then show ?thesis using try_directions_correct [OF searching_next [OF 1(2) Cons] 1(3)] Cons
        by (cases r) (auto simp: search_loop.simps [of p to_tile st])
    next
      case (Inr st')
      then have "searching p s to_tile st' t' []"
        using try_directions_correct [OF searching_next [OF 1(2) Cons] 1(3)] by fastforce
      from 1(1) [OF Cons Inr this 1(3)] show ?thesis using Cons Inr by (simp add: search_loop.simps [of p to_tile st])
    qed
  qed
qed

subsection \<open>Rebuilding the path\<close>

lemma rebuild_correct:
  assumes c: "chained p s v prev" and r: "\<And>u. is_walkable p u \<Longrightarrow> seen p v u \<Longrightarrow> reaches p s u"
  shows "is_walkable p u \<Longrightarrow> seen p v u \<Longrightarrow>
    \<exists>w. rebuild p s prev u acc = Some (Ok (w @ rev acc)) \<and> walk_path p s w = Some u \<and> length w = dist p s u"
proof (induction "dist p s u" arbitrary: u acc)
  case 0
  then have "u = s" using dist_zero [OF r] by simp
  then show ?case by (intro exI [of _ "[]"]) (simp add: rebuild.simps)
next
  case (Suc n)
  then have "u \<noteq> s" by auto
  with Suc c obtain t d where t: "nth_opt prev (tile_index p u) = Some (Some (t, d))" "is_walkable p t"
    "seen p v t" "tile_step p t d = Some u" "dist p s u = Suc (dist p s t)"
    unfolding chained_def by blast
  then obtain w where w: "rebuild p s prev t (acc @ [d]) = Some (Ok (w @ rev (acc @ [d])))"
    "walk_path p s w = Some t" "length w = dist p s t"
    using Suc(1) [of t "acc @ [d]"] Suc(2) by auto
  have "rebuild p s prev u acc = Some (Ok ((w @ [d]) @ rev acc))"
    using \<open>u \<noteq> s\<close> t(1) w(1) by (simp add: rebuild.simps [of p s prev u])
  moreover have "walk_path p s (w @ [d]) = Some u" using w(2) t(4) by (simp add: walk_snoc)
  ultimately show ?case using w(3) t(5) by (intro exI [of _ "w @ [d]"]) simp
qed

lemma space_path_correct:
  assumes "is_walkable p s" and "is_walkable p t"
  shows "if reaches p s t then \<exists>w. space_path p s t = Some (Ok w) \<and> walk_path p s w = Some t \<and> length w = dist p s t
    else space_path p s t = Some (Err Destination_unreachable)"
proof (cases "s = t")
  case True
  then show ?thesis using assms by (auto simp: space_path_def)
next
  case False
  let ?st = "\<lparr>ss_visited = (replicate (cell_count p) False)[tile_index p s := True],
     ss_previous = replicate (cell_count p) None, ss_queue = [s]\<rparr>"
  have path: "space_path p s t = (case search_loop p t ?st of Inl e \<Rightarrow> Some (Err e) | Inr prev \<Rightarrow> rebuild p s prev t [])"
    using assms False tile_index_bound [OF assms(1)] by (simp add: space_path_def)
  have "searching p s t ?st s []"
    using frontier_start [OF assms(1)] chained_start [OF assms(1)] seen_start [OF assms] False
    by (simp add: searching_def levelled_def)
  note res = search_loop_correct [OF this assms(2)]
  show ?thesis
  proof (cases "search_loop p t ?st")
    case (Inl e)
    with res path show ?thesis by simp
  next
    case (Inr prev)
    with res obtain v where "chained p s v prev" "seen p v t"
      and r: "\<And>u. is_walkable p u \<Longrightarrow> seen p v u \<Longrightarrow> reaches p s u"
      by (auto simp: found_def)
    from rebuild_correct [OF this(1) r assms(2) this(2), of "[]"] r [OF assms(2) this(2)] path Inr
    show ?thesis by auto
  qed
qed

subsection \<open>The tiles reachable from the spawn place\<close>

lemma mark_directions_correct:
  assumes "frontier p s (fst st) (snd st) t ds"
  shows "\<exists>st'. mark_directions p t ds st = Ok st' \<and> frontier p s (fst st') (snd st') t []"
  using assms
proof (induction p t ds st rule: mark_directions.induct)
  case (2 p t d ds reachable q)
  then have f: "frontier p s reachable q t (d # ds)" by simp
  show ?case
  proof (cases "tile_step p t d")
    case None
    with 2(1) frontier_skip [OF f] show ?thesis by simp
  next
    case (Some u)
    from seen_cases [OF tile_step_walkable [OF Some] frontierD(1) [OF f]] show ?thesis
    proof cases
      case 1
      with 2(2) [OF Some 1(1)] frontier_skip [OF f] Some show ?thesis by simp
    next
      case new: 2
      with 2(3) [OF Some new(1)] frontier_push [OF f Some] Some show ?thesis by simp
    qed
  qed
qed simp

lemma mark_loop_correct:
  assumes "frontier p s (fst st) (snd st) t []"
  shows "\<exists>v. mark_loop p st = Ok v \<and> frontier p s v [] s []"
  using assms
proof (induction p st arbitrary: t rule: mark_loop.induct)
  case (1 p st)
  show ?case
  proof (cases "snd st")
    case Nil
    with 1 frontier_next show ?thesis by (auto simp: mark_loop.simps [of p st])
  next
    case (Cons t' q)
    with 1(2) have "frontier p s (fst st) q t' DIRECTIONS" by (auto intro: frontier_pop)
    then obtain st' where st': "mark_directions p t' DIRECTIONS (fst st, q) = Ok st'"
      "frontier p s (fst st') (snd st') t' []"
      using mark_directions_correct [of p s "(fst st, q)" t' DIRECTIONS] by fastforce
    from 1(1) [OF Cons st'] Cons st'(1) show ?thesis by (simp add: mark_loop.simps [of p st])
  qed
qed

lemma min_by_key_mem: "min_by_key f xs = Some x \<Longrightarrow> x \<in> set xs"
  by (induction xs arbitrary: x) (auto split: option.splits if_splits)

lemma min_by_key_None: "min_by_key f xs = None \<longleftrightarrow> xs = []"
  by (cases xs) (auto split: option.splits)

lemma spawn_start_walkable: "spawn_start p = Ok s \<Longrightarrow> is_walkable p s"
  by (auto simp: spawn_start_def split: option.splits dest!: min_by_key_mem)

lemma spawn_reachable_correct:
  assumes "spawn_start p = Ok s"
  shows "\<exists>v. spawn_reachable p = Ok v \<and> length v = cell_count p
    \<and> (\<forall>u. is_walkable p u \<longrightarrow> (seen p v u \<longleftrightarrow> reaches p s u))"
proof -
  note w = spawn_start_walkable [OF assms]
  obtain v where v: "mark_loop p ((replicate (cell_count p) False)[tile_index p s := True], [s]) = Ok v"
    "frontier p s v [] s []"
    using mark_loop_correct [of p s "(_, [s])"] frontier_start [OF w] by fastforce
  then show ?thesis using assms tile_index_bound [OF w] frontierD(1) [OF v(2)] frontier_done [OF v(2)]
    by (auto simp: spawn_reachable_def)
qed

subsection \<open>Valid packages\<close>

lemma check_place_tiles_ok:
  "check_place_tiles p ids qs = Ok () \<Longrightarrow> q \<in> set qs \<Longrightarrow> pl_tiles q \<noteq> [] \<and> list_all (is_walkable p) (pl_tiles q)"
  by (induction p ids qs rule: check_place_tiles.induct) (auto split: if_splits)

lemma validate_packageD:
  assumes "validate_package C canon p = Ok ()"
  shows "check_place_tiles p {} (sk_places p) = Ok ()" and "find_place p (sk_spawn_place_id p) \<noteq> None"
  using assms unfolding validate_package_def by (auto split: if_splits sum.splits)

lemma find_place_mem: "find_place p k = Some q \<Longrightarrow> q \<in> set (sk_places p)"
  unfolding find_place_def by (auto simp: find_Some_iff)

lemma valid_place_tiles:
  "validate_package C canon p = Ok () \<Longrightarrow> find_place p k = Some q \<Longrightarrow>
   pl_tiles q \<noteq> [] \<and> list_all (is_walkable p) (pl_tiles q)"
  using check_place_tiles_ok [OF validate_packageD(1) find_place_mem] .

lemma valid_spawn_start:
  assumes "validate_package C canon p = Ok ()"
  obtains s where "spawn_start p = Ok s"
proof -
  obtain q where q: "find_place p (sk_spawn_place_id p) = Some q" using validate_packageD(2) [OF assms] by blast
  from valid_place_tiles [OF assms q] have "filter (is_walkable p) (pl_tiles q) \<noteq> []"
    by (cases "pl_tiles q") auto
  then obtain s where "min_by_key (\<lambda>t. (snd t, fst t)) (filter (is_walkable p) (pl_tiles q)) = Some s"
    by (metis min_by_key_None option.exhaust)
  with q have "spawn_start p = Ok s" by (simp add: spawn_start_def)
  then show thesis by (rule that)
qed

lemma keep_reachable_filter:
  "list_all (is_walkable p) ts \<Longrightarrow> length v = cell_count p \<Longrightarrow> keep_reachable p v ts = Ok (filter (seen p v) ts)"
  by (induction ts) (auto simp: nth_opt_tile seen_def)

lemma destination_tile_mem:
  assumes "spawn_reachable p = Ok v" and "length v = cell_count p" and "find_place p k = Some q"
    and "list_all (is_walkable p) (pl_tiles q)"
  shows "destination_tile C p agent k = Err Place_not_reachable \<and> filter (seen p v) (pl_tiles q) = []
    \<or> (\<exists>t. destination_tile C p agent k = Ok t \<and> t \<in> set (pl_tiles q) \<and> seen p v t)"
proof -
  let ?c = "sort_key (\<lambda>t. (snd t, fst t)) (filter (seen p v) (pl_tiles q))"
  let ?i = "from_be_bytes (take 8 (sha256 C (agent @ [CHR 0x0A] @ k))) mod length ?c"
  have d: "destination_tile C p agent k = (if ?c = [] then Err Place_not_reachable else Ok (?c ! ?i))"
    using assms by (simp add: destination_tile_def keep_reachable_filter Let_def)
  show ?thesis
  proof (cases "?c = []")
    case True
    then have "length (filter (seen p v) (pl_tiles q)) = 0" by (metis length_sort list.size(3))
    with True d show ?thesis by simp
  next
    case False
    then have "0 < length ?c" by (metis length_greater_0_conv)
    then have "?i < length ?c" by (rule mod_less_divisor)
    then have "?c ! ?i \<in> set ?c" by (rule nth_mem)
    then show ?thesis using False d by simp
  qed
qed

subsection \<open>Properties\<close>

text \<open>C38: the path search is correct and total. It always returns. It fails with a blocked endpoint
  exactly when one of the two tiles is not walkable, and with an unreachable destination exactly
  when no walk over walkable tiles joins them; otherwise it returns a walk from the one to the
  other, and no walk between them is shorter.\<close>

theorem space_path_shortest:
  "\<exists>r. space_path p from_tile to_tile = Some r \<and>
     (case r of
        Inr w \<Rightarrow> is_walkable p from_tile \<and> is_walkable p to_tile \<and> walk_path p from_tile w = Some to_tile
          \<and> (\<forall>w'. walk_path p from_tile w' = Some to_tile \<longrightarrow> length w \<le> length w')
      | Inl e \<Rightarrow>
          e = Route_endpoint_blocked \<and> \<not> (is_walkable p from_tile \<and> is_walkable p to_tile)
        \<or> e = Destination_unreachable \<and> is_walkable p from_tile \<and> is_walkable p to_tile
          \<and> (\<forall>w. walk_path p from_tile w \<noteq> Some to_tile))"
proof (cases "is_walkable p from_tile \<and> is_walkable p to_tile")
  case True
  note path = space_path_correct [OF conjunct1 [OF True] conjunct2 [OF True]]
  show ?thesis
  proof (cases "reaches p from_tile to_tile")
    case r: True
    with path obtain w where "space_path p from_tile to_tile = Some (Ok w)"
      "walk_path p from_tile w = Some to_tile" "length w = dist p from_tile to_tile" by auto
    with True show ?thesis using dist_le by auto
  next
    case False
    with path True show ?thesis by (auto simp: reaches_def)
  qed
next
  case False
  then show ?thesis by (auto simp: space_path_def)
qed

text \<open>A space of five walkable tiles around a wall, with a kiosk at its far end.\<close>

definition demo_space :: space_package where
  "demo_space = \<lparr>sk_space_id = ''w'', sk_space_version = ''sha256:'' @ replicate 64 (CHR ''0''),
     sk_size = (3, 2), sk_tile_size = 16, sk_walkable_grid = [[1, 0, 1], [1, 1, 1]],
     sk_places =
       [\<lparr>pl_place_id = ''w'', pl_parent_place_id = None, pl_kind = World,
          pl_name = \<lparr>pn_en = ''World'', pn_zh = ''World''\<rparr>,
          pl_tiles = [(0, 0), (2, 0), (0, 1), (1, 1), (2, 1)]\<rparr>,
        \<lparr>pl_place_id = ''kiosk'', pl_parent_place_id = Some ''w'', pl_kind = Sector,
          pl_name = \<lparr>pn_en = ''Kiosk'', pn_zh = ''Kiosk''\<rparr>, pl_tiles = [(2, 0)]\<rparr>],
     sk_spawn_place_id = ''w'', sk_walk_speed = F64_Fin 2, sk_movement_search_radius = Some 4,
     sk_service_bindings = [], sk_portals = []\<rparr>"

lemmas demo_space_simps = demo_space_def tile_step_def checked_sub_def checked_add_u32_def u32_max_def
  is_walkable_def nth_opt_def

lemma demo_space_walkable:
  "is_walkable demo_space (0, 0)" "is_walkable demo_space (0, 1)" "is_walkable demo_space (2, 0)"
  by (simp_all add: demo_space_simps)

lemma demo_space_walks:
  "walk_path demo_space (0, 0) ''DRRU'' = Some (2, 0)" "walk_path demo_space (0, 0) ''D'' = Some (0, 1)"
  by (simp_all add: demo_space_simps)

theorem space_path_shortest_witness:
  "\<exists>w. space_path demo_space (0, 0) (2, 0) = Some (Ok w) \<and> walk_path demo_space (0, 0) w = Some (2, 0) \<and> length w \<le> 4"
proof -
  from space_path_shortest [of demo_space "(0, 0)" "(2, 0)"]
  obtain r where path: "space_path demo_space (0, 0) (2, 0) = Some r"
    and r: "case r of
        Inr w \<Rightarrow> is_walkable demo_space (0, 0) \<and> is_walkable demo_space (2, 0)
          \<and> walk_path demo_space (0, 0) w = Some (2, 0)
          \<and> (\<forall>w'. walk_path demo_space (0, 0) w' = Some (2, 0) \<longrightarrow> length w \<le> length w')
      | Inl e \<Rightarrow>
          e = Route_endpoint_blocked \<and> \<not> (is_walkable demo_space (0, 0) \<and> is_walkable demo_space (2, 0))
        \<or> e = Destination_unreachable \<and> is_walkable demo_space (0, 0) \<and> is_walkable demo_space (2, 0)
          \<and> (\<forall>w. walk_path demo_space (0, 0) w \<noteq> Some (2, 0))"
    by blast
  show ?thesis
  proof (cases r)
    case (Inl e)
    with r demo_space_walks(1) demo_space_walkable show ?thesis by (simp del: walk_path.simps)
  next
    case (Inr w)
    with r have "walk_path demo_space (0, 0) w = Some (2, 0)" "length w \<le> length ''DRRU''"
      using demo_space_walks(1) by (simp_all del: list.size walk_path.simps)
    with Inr path show ?thesis by simp
  qed
qed

text \<open>C39: agents can always move on. In a valid package the tiles reachable from the spawn place are
  computed; a destination tile is chosen for every place that has such a tile, and for no other.
  From every tile reachable from the spawn place the path to the chosen tile is found, a presence
  record with it is valid, and following it ends on that tile, which is again reachable from
  the spawn place.\<close>

theorem agents_can_move:
  assumes "validate_package C canon p = Ok ()" and "size_u32 p"
  shows "\<exists>reachable. spawn_reachable p = Ok reachable
    \<and> ((\<exists>t. destination_tile C p agent k = Ok t) \<longleftrightarrow>
         (\<exists>q t. find_place p k = Some q \<and> t \<in> set (pl_tiles q) \<and> seen p reachable t))
    \<and> (\<forall>here t r. is_walkable p here \<and> seen p reachable here \<and> destination_tile C p agent k = Ok t
         \<and> \<not> blank (pr_agent_did r) \<and> 0 < pr_seq r \<longrightarrow>
         (\<exists>w. space_path p here t = Some (Ok w) \<and> tile_after here w = t
            \<and> is_walkable p t \<and> seen p reachable t
            \<and> validate_record_geometry p (r\<lparr>pr_space_id := sk_space_id p, pr_from_tile := here, pr_path := w,
                 pr_destination_place_id := k, pr_object_place_id := None\<rparr>) = Ok ()))"
proof -
  obtain s where s: "spawn_start p = Ok s" using valid_spawn_start [OF assms(1)] .
  obtain v where v: "spawn_reachable p = Ok v" "length v = cell_count p"
    "\<And>u. is_walkable p u \<Longrightarrow> seen p v u \<longleftrightarrow> reaches p s u"
    using spawn_reachable_correct [OF s] by blast
  have tile: "\<exists>q. find_place p k = Some q \<and> t \<in> set (pl_tiles q) \<and> seen p v t \<and> is_walkable p t"
    if t: "destination_tile C p agent k = Ok t" for t
  proof -
    obtain q where q: "find_place p k = Some q"
      using t by (cases "find_place p k") (auto simp: destination_tile_def)
    note w = conjunct2 [OF valid_place_tiles [OF assms(1) q]]
    show ?thesis using destination_tile_mem [OF v(1,2) q w, of C agent] t q w by (auto simp: list_all_iff)
  qed
  have ex: "\<exists>t. destination_tile C p agent k = Ok t"
    if q: "find_place p k = Some q" and t: "t \<in> set (pl_tiles q)" "seen p v t" for q t
  proof -
    have "filter (seen p v) (pl_tiles q) \<noteq> []" using t by (auto simp: filter_empty_conv)
    then show ?thesis
      using destination_tile_mem [OF v(1,2) q conjunct2 [OF valid_place_tiles [OF assms(1) q]], of C agent] by auto
  qed
  have move: "\<exists>w. space_path p here t = Some (Ok w) \<and> tile_after here w = t \<and> is_walkable p t \<and> seen p v t
      \<and> validate_record_geometry p (r\<lparr>pr_space_id := sk_space_id p, pr_from_tile := here, pr_path := w,
           pr_destination_place_id := k, pr_object_place_id := None\<rparr>) = Ok ()"
    if here: "is_walkable p here" "seen p v here" and t: "destination_tile C p agent k = Ok t"
      and r: "\<not> blank (pr_agent_did r)" "0 < pr_seq r" for here t r
  proof -
    obtain q where q: "find_place p k = Some q" "t \<in> set (pl_tiles q)" "seen p v t" "is_walkable p t"
      using tile [OF t] by blast
    have "reaches p s here" "reaches p s t" using v(3) here q(3,4) by auto
    then have "reaches p here t"
      using reaches_sym [OF _ spawn_start_walkable [OF s] assms(2)] by (blast intro: reaches_trans)
    then obtain w where w: "space_path p here t = Some (Ok w)" "walk_path p here w = Some t"
      using space_path_correct [OF here(1) q(4)] by auto
    with q here r tile_after_walk [OF w(2)] show ?thesis by (auto simp: validate_record_geometry_def)
  qed
  show ?thesis using v(1) tile ex move by (intro exI [of _ v]) blast
qed

lemma demo_space_ids: "\<not> blank ''w''" "\<not> blank ''kiosk''" "\<not> blank ''did:a''"
  by code_simp+

lemma demo_space_valid:
  "validate_package crypto_demo (\<lambda>_. Some ''m'') demo_space = Ok ()" "size_u32 demo_space"
  by (simp_all add: validate_package_def size_u32_def demo_space_simps crypto_demo_def find_place_def demo_space_ids)

lemma demo_space_start: "spawn_start demo_space = Ok (0, 0)"
  by (simp add: spawn_start_def find_place_def demo_space_simps)

theorem agents_can_move_witness:
  "validate_package crypto_demo (\<lambda>_. Some ''m'') demo_space = Ok () \<and> size_u32 demo_space
   \<and> (\<exists>reachable t. spawn_reachable demo_space = Ok reachable
        \<and> destination_tile crypto_demo demo_space ''did:a'' ''kiosk'' = Ok t \<and> seen demo_space reachable t
        \<and> is_walkable demo_space (0, 1) \<and> seen demo_space reachable (0, 1)
        \<and> (\<exists>w. space_path demo_space (0, 1) t = Some (Ok w) \<and> tile_after (0, 1) w = t))"
proof -
  let ?r = "\<lparr>pr_agent_did = ''did:a'', pr_avatar_id = None, pr_skin_id = None, pr_network_id = [],
    pr_space_id = [], pr_space_version = [], pr_entered = False, pr_seq = 1, pr_from_tile = (0, 0), pr_path = [],
    pr_depart_at = 0, pr_destination_place_id = [], pr_activity = [], pr_object_place_id = None,
    pr_updated_at = 0\<rparr>"
  have r: "\<not> blank (pr_agent_did ?r) \<and> 0 < pr_seq ?r" by (simp add: demo_space_ids)
  have "reaches demo_space (0, 0) (0, 1)" "reaches demo_space (0, 0) (2, 0)"
    using demo_space_walks unfolding reaches_def by blast+
  with spawn_reachable_correct [OF demo_space_start] demo_space_walkable
  obtain v where v: "spawn_reachable demo_space = Ok v" "seen demo_space v (0, 1)" "seen demo_space v (2, 0)"
    by blast
  obtain q where q: "find_place demo_space ''kiosk'' = Some q" "(2, 0) \<in> set (pl_tiles q)"
    by (simp add: find_place_def demo_space_def)
  from agents_can_move [OF demo_space_valid, of "''did:a''" "''kiosk''"] v(1)
  have move: "(\<exists>t. destination_tile crypto_demo demo_space ''did:a'' ''kiosk'' = Ok t) \<longleftrightarrow>
      (\<exists>q t. find_place demo_space ''kiosk'' = Some q \<and> t \<in> set (pl_tiles q) \<and> seen demo_space v t)"
    "\<And>here t. is_walkable demo_space here \<and> seen demo_space v here
      \<and> destination_tile crypto_demo demo_space ''did:a'' ''kiosk'' = Ok t
      \<and> \<not> blank (pr_agent_did ?r) \<and> 0 < pr_seq ?r \<Longrightarrow>
      \<exists>w. space_path demo_space here t = Some (Ok w) \<and> tile_after here w = t \<and> seen demo_space v t"
    by (metis Inr_inject)+
  obtain t where t: "destination_tile crypto_demo demo_space ''did:a'' ''kiosk'' = Ok t" using move(1) q v(3) by blast
  from move(2) [of "(0, 1)" t] show ?thesis using demo_space_valid v t r demo_space_walkable by blast
qed

end
