(* ===== verification/Friend_Requests.thy ===== *)
theory Friend_Requests
  imports Identities Machines
begin

text \<open>
  The friend requests of the social layer: \<^verbatim>\<open>crates/social/src/domain/friend_requests.rs\<close>, the
  service \<^verbatim>\<open>application/friend_request_service.rs\<close> and the statements it runs on the tables
  \<^verbatim>\<open>friend_requests\<close> and \<^verbatim>\<open>reliability_tasks\<close> (\<^verbatim>\<open>store/mod.rs\<close>,
  \<^verbatim>\<open>store/reliability_tasks.rs\<close>). A table is a map from its primary key to its rows; of the
  reliability tasks only the keys matter here. Failures of the storage itself are left out.
\<close>

subsection \<open>Data\<close>

datatype friend_request_direction = Inbound | Outbound

datatype friend_request_state =
  Fr_Pending | Fr_DecisionPending | Fr_Accepted | Fr_Rejected | Fr_Blocked | Fr_Cancelled | Fr_Expired

record friend_request =
  fr_request_id :: string
  fr_local_public_id :: string
  fr_remote_public_id :: string
  fr_remote_node_id :: "string option"
  fr_direction :: friend_request_direction
  fr_state :: friend_request_state
  fr_decision_reason :: "string option"
  fr_correlation_id :: "string option"
  fr_created_at :: int
  fr_updated_at :: int
  fr_expires_at :: "int option"

fun fr_can_transition_to :: "friend_request \<Rightarrow> friend_request_state \<Rightarrow> bool" where
  "fr_can_transition_to r s' =
     (if fr_state r = s' then True
      else case fr_state r of
        Fr_Pending \<Rightarrow> s' \<in> {Fr_DecisionPending, Fr_Accepted, Fr_Rejected, Fr_Blocked, Fr_Cancelled, Fr_Expired}
      | Fr_DecisionPending \<Rightarrow> s' \<in> {Fr_Accepted, Fr_Rejected, Fr_Blocked, Fr_Cancelled, Fr_Expired}
      | _ \<Rightarrow> False)"

datatype social_error =
    Social_invalid string
  | Social_conflict
  | Social_storage string

record friend_store =
  fs_requests :: "(string, friend_request) btree_map"
  fs_tasks :: "(string \<times> string) list"

record friend_request_counterpart_ref =
  cr_public_id :: string
  cr_remote_node_id :: string
  cr_target_agent :: string

record queue_friend_request_decision_input =
  qi_local_public_id :: string
  qi_request_id :: string
  qi_remote_public_id :: string
  qi_remote_node_id :: string
  qi_decision_reason :: string
  qi_correlation_id :: "string option"
  qi_occurred_at :: int

subsection \<open>The store\<close>

text \<open>The upsert leaves the creation time of an existing row alone.\<close>

definition put_request :: "friend_request \<Rightarrow> (string, friend_request) btree_map \<Rightarrow> (string, friend_request) btree_map" where
  "put_request r m = binsert (fr_request_id r)
     (case bget m (fr_request_id r) of
        None \<Rightarrow> r
      | Some old \<Rightarrow> r\<lparr>fr_created_at := fr_created_at old\<rparr>) m"

definition store_request :: "friend_request \<Rightarrow> friend_store \<Rightarrow> friend_store" where
  "store_request r st = st\<lparr>fs_requests := put_request r (fs_requests st)\<rparr>"

definition only_spaces :: "string \<Rightarrow> bool" where
  "only_spaces s \<longleftrightarrow> list_all (\<lambda>c. c = CHR 0x20) s"

definition stored_requests :: "friend_store \<Rightarrow> string \<Rightarrow> friend_request list" where
  "stored_requests st local_id =
     sort_key (\<lambda>r. (- fr_updated_at r, fr_request_id r))
       (filter (\<lambda>r. fr_local_public_id r = local_id \<and> \<not> only_spaces (fr_request_id r)) (bvalues (fs_requests st)))"

definition clear_reliability_task :: "string \<Rightarrow> string \<Rightarrow> friend_store \<Rightarrow> friend_store" where
  "clear_reliability_task kind object_id st = st\<lparr>fs_tasks := filter (\<lambda>k. k \<noteq> (kind, object_id)) (fs_tasks st)\<rparr>"

subsection \<open>The service\<close>

definition FRIEND_REQUEST_OBJECT_KIND :: string where
  "FRIEND_REQUEST_OBJECT_KIND = ''friend_request''"

definition validate_friend_request :: "friend_request \<Rightarrow> social_error + unit" where
  "validate_friend_request r =
     (if blank (fr_request_id r) then Err (Social_invalid ''request_id is required'')
      else if blank (fr_local_public_id r) then Err (Social_invalid ''local_public_id is required'')
      else if blank (fr_remote_public_id r) then Err (Social_invalid ''remote_public_id is required'')
      else if fr_updated_at r < fr_created_at r then Err (Social_invalid ''updated_at must be >= created_at'')
      else if fr_state r \<noteq> Fr_Pending \<and> fr_decision_reason r = None
      then Err (Social_invalid ''decision_reason is required for non-pending requests'')
      else Ok ())"

definition same_identity_pair :: "friend_request \<Rightarrow> friend_request \<Rightarrow> bool" where
  "same_identity_pair a b \<longleftrightarrow>
     fr_local_public_id a = fr_local_public_id b \<and> fr_remote_public_id a = fr_remote_public_id b"

definition same_request_pair :: "friend_request \<Rightarrow> friend_request \<Rightarrow> bool" where
  "same_request_pair a b \<longleftrightarrow> same_identity_pair a b \<and> fr_direction a = fr_direction b"

definition blocks_new_pending_request :: "friend_request_state \<Rightarrow> bool" where
  "blocks_new_pending_request s \<longleftrightarrow> s = Fr_DecisionPending \<or> s = Fr_Blocked"

definition or_else :: "'a option \<Rightarrow> 'a option \<Rightarrow> 'a option" where
  "or_else a b = (case a of None \<Rightarrow> b | Some _ \<Rightarrow> a)"

definition merge_friend_request :: "friend_request \<Rightarrow> friend_request \<Rightarrow> friend_request" where
  "merge_friend_request old new =
     \<lparr>fr_request_id = fr_request_id old, fr_local_public_id = fr_local_public_id new,
      fr_remote_public_id = fr_remote_public_id new,
      fr_remote_node_id = or_else (fr_remote_node_id new) (fr_remote_node_id old),
      fr_direction = fr_direction new, fr_state = fr_state new,
      fr_decision_reason = or_else (fr_decision_reason new) (fr_decision_reason old),
      fr_correlation_id = or_else (fr_correlation_id new) (fr_correlation_id old),
      fr_created_at = min (fr_created_at old) (fr_created_at new),
      fr_updated_at = max (fr_updated_at old) (fr_updated_at new),
      fr_expires_at = or_else (fr_expires_at new) (fr_expires_at old)\<rparr>"

definition coalesce_friend_request :: "friend_request list \<Rightarrow> friend_request \<Rightarrow> friend_request option" where
  "coalesce_friend_request items r =
     (if fr_state r = Fr_Pending then
        (if list_ex (\<lambda>x. same_identity_pair x r \<and> blocks_new_pending_request (fr_state x)) items then None
         else case List.find (\<lambda>x. fr_request_id x = fr_request_id r \<and> same_request_pair x r \<and> fr_state x = Fr_Pending) items of
           Some x \<Rightarrow> Some (merge_friend_request x r)
         | None \<Rightarrow> Some r)
      else case List.find (\<lambda>x. fr_request_id x = fr_request_id r) items of
        Some x \<Rightarrow> Some (merge_friend_request x r)
      | None \<Rightarrow>
        (case List.find (\<lambda>x. same_request_pair x r \<and> fr_state x = Fr_Pending) items of
           Some x \<Rightarrow> Some (merge_friend_request x r)
         | None \<Rightarrow>
           (case List.find (\<lambda>x. same_request_pair x r \<and> fr_state x \<noteq> Fr_Pending) items of
              Some x \<Rightarrow> if fr_state x = fr_state r then Some (merge_friend_request x r) else None
            | None \<Rightarrow> Some r)))"

definition superseded_reason :: string where
  "superseded_reason = ''superseded_by_new_request''"

definition supersede :: "friend_request \<Rightarrow> friend_request \<Rightarrow> friend_request" where
  "supersede r x = x\<lparr>fr_state := Fr_Cancelled, fr_decision_reason := Some superseded_reason,
     fr_updated_at := max (fr_updated_at x) (fr_updated_at r)\<rparr>"

definition upsert_friend_request :: "friend_request \<Rightarrow> friend_store \<Rightarrow> (social_error + unit) \<times> friend_store" where
  "upsert_friend_request r st =
     (case validate_friend_request r of
        Inl e \<Rightarrow> (Err e, st)
      | Inr _ \<Rightarrow>
        (let items = stored_requests st (fr_local_public_id r);
             old = List.find (\<lambda>x. fr_request_id x = fr_request_id r) items
         in if is_some_and old (\<lambda>x. \<not> fr_can_transition_to x (fr_state r))
            then (if fr_state r = Fr_Pending then Ok () else Err Social_conflict, st)
            else case coalesce_friend_request items r of
              None \<Rightarrow> (Ok (), st)
            | Some coalesced \<Rightarrow>
              let superseded = (if fr_state r = Fr_Pending
                then filter (\<lambda>x. fr_request_id x \<noteq> fr_request_id r \<and> same_request_pair x r \<and> fr_state x = Fr_Pending) items
                else [])
              in (Ok (), store_request coalesced (fold (\<lambda>x. store_request (supersede r x)) superseded st))))"

text \<open>The request pairs whose pending request is already listed are \<open>seen_pairs\<close>.\<close>

definition identity_pair_key :: "friend_request \<Rightarrow> string \<times> string" where
  "identity_pair_key r = (fr_local_public_id r, fr_remote_public_id r)"

definition request_pair_key :: "friend_request \<Rightarrow> string \<times> string \<times> string" where
  "request_pair_key r = (fr_local_public_id r, fr_remote_public_id r,
     case fr_direction r of Inbound \<Rightarrow> ''inbound'' | Outbound \<Rightarrow> ''outbound'')"

fun dedupe_pending ::
  "(string \<times> string) set \<Rightarrow> (string \<times> string \<times> string) set \<Rightarrow> friend_request list \<Rightarrow> friend_request list" where
  "dedupe_pending blocking seen_pairs [] = []"
| "dedupe_pending blocking seen_pairs (r # rs) =
     (if fr_state r \<noteq> Fr_Pending then r # dedupe_pending blocking seen_pairs rs
      else if identity_pair_key r \<in> blocking then dedupe_pending blocking seen_pairs rs
      else if request_pair_key r \<in> seen_pairs then dedupe_pending blocking seen_pairs rs
      else r # dedupe_pending blocking (insert (request_pair_key r) seen_pairs) rs)"

definition dedupe_friend_requests :: "friend_request list \<Rightarrow> friend_request list" where
  "dedupe_friend_requests items =
     dedupe_pending (identity_pair_key ` set (filter (\<lambda>r. blocks_new_pending_request (fr_state r)) items)) {}
       (sort_key (\<lambda>r. (- fr_updated_at r, - fr_created_at r, fr_request_id r)) items)"

definition list_friend_requests :: "friend_store \<Rightarrow> string \<Rightarrow> social_error + friend_request list" where
  "list_friend_requests st local_id =
     (if blank local_id then Err (Social_invalid ''local_public_id is required'')
      else Ok (dedupe_friend_requests (stored_requests st local_id)))"

definition queued_decision ::
  "queue_friend_request_decision_input \<Rightarrow> friend_request option \<Rightarrow> friend_request" where
  "queued_decision i old =
     \<lparr>fr_request_id = qi_request_id i, fr_local_public_id = qi_local_public_id i,
      fr_remote_public_id = qi_remote_public_id i, fr_remote_node_id = Some (qi_remote_node_id i),
      fr_direction = Inbound, fr_state = Fr_DecisionPending, fr_decision_reason = Some (qi_decision_reason i),
      fr_correlation_id = or_else (qi_correlation_id i) (case old of None \<Rightarrow> None | Some x \<Rightarrow> fr_correlation_id x),
      fr_created_at = (case old of None \<Rightarrow> qi_occurred_at i | Some x \<Rightarrow> min (fr_created_at x) (qi_occurred_at i)),
      fr_updated_at = qi_occurred_at i,
      fr_expires_at = (case old of None \<Rightarrow> None | Some x \<Rightarrow> fr_expires_at x)\<rparr>"

definition queue_friend_request_decision ::
  "queue_friend_request_decision_input \<Rightarrow> friend_store \<Rightarrow> (social_error + unit) \<times> friend_store" where
  "queue_friend_request_decision i st =
     (case list_friend_requests st (qi_local_public_id i) of
        Inl e \<Rightarrow> (Err e, st)
      | Inr items \<Rightarrow>
        (let old = List.find (\<lambda>x. fr_request_id x = qi_request_id i) items
         in if is_some_and old (\<lambda>x. fr_state x \<notin> {Fr_Pending, Fr_DecisionPending}) then (Ok (), st)
            else upsert_friend_request (queued_decision i old) st))"

definition clear_friend_request_retry :: "string \<Rightarrow> friend_store \<Rightarrow> friend_store" where
  "clear_friend_request_retry request_id st = clear_reliability_task FRIEND_REQUEST_OBJECT_KIND request_id st"

definition counterpart_match_keys :: "friend_request_counterpart_ref \<Rightarrow> string set" where
  "counterpart_match_keys c =
     set (filter (\<lambda>s. s \<noteq> []) (map trim [cr_public_id c, cr_remote_node_id c, cr_target_agent c]))"

definition request_matches_counterpart :: "friend_request \<Rightarrow> string set \<Rightarrow> bool" where
  "request_matches_counterpart r keys \<longleftrightarrow>
     trim (fr_remote_public_id r) \<in> keys \<or> is_some_and (fr_remote_node_id r) (\<lambda>n. trim n \<in> keys)"

definition sat_i64 :: "int \<Rightarrow> int" where
  "sat_i64 z = max (- (2 ^ 63)) (min i64_max z)"

definition as_millis :: "int \<Rightarrow> int" where
  "as_millis t = (if t > 10000000000 then t else sat_i64 (t * 1000))"

definition accepted_at_millis :: "int \<Rightarrow> int" where
  "accepted_at_millis t = (if t > 10000000000 then t else sat_i64 (as_millis t + 999))"

definition is_superseded :: "friend_request \<Rightarrow> bool" where
  "is_superseded r \<longleftrightarrow> fr_state r = Fr_Cancelled \<and> fr_decision_reason r = Some superseded_reason"

definition accept_one :: "string set \<Rightarrow> int \<Rightarrow> friend_request \<Rightarrow> friend_store \<Rightarrow> friend_store" where
  "accept_one keys occurred_at r st =
     (if \<not> request_matches_counterpart r keys \<or> as_millis (fr_created_at r) > accepted_at_millis occurred_at then st
      else
        let st1 = (if fr_state r \<in> {Fr_Pending, Fr_DecisionPending} \<or> is_superseded r
              then store_request (r\<lparr>fr_state := Fr_Accepted, fr_decision_reason := Some ''accepted'',
                fr_updated_at := max (fr_updated_at r) occurred_at\<rparr>) st
              else st)
        in if fr_state r \<in> {Fr_Pending, Fr_DecisionPending, Fr_Accepted} \<or> is_superseded r
           then clear_friend_request_retry (fr_request_id r) st1 else st1)"

definition accept_related_friend_requests ::
  "string \<Rightarrow> friend_request_counterpart_ref \<Rightarrow> int \<Rightarrow> friend_store \<Rightarrow> friend_store" where
  "accept_related_friend_requests local_id c occurred_at st =
     fold (accept_one (counterpart_match_keys c) occurred_at) (stored_requests st local_id) st"

fun settle_each ::
  "string set \<Rightarrow> friend_request_state \<Rightarrow> string \<Rightarrow> int \<Rightarrow> friend_request list \<Rightarrow> friend_store \<Rightarrow>
   (social_error + unit) \<times> friend_store" where
  "settle_each keys s reason occurred_at [] st = (Ok (), st)"
| "settle_each keys s reason occurred_at (r # rs) st =
     (if fr_direction r \<noteq> Outbound \<or> fr_state r \<noteq> Fr_Pending \<or> \<not> request_matches_counterpart r keys
      then settle_each keys s reason occurred_at rs st
      else case upsert_friend_request (r\<lparr>fr_state := s, fr_decision_reason := Some reason,
            fr_updated_at := max (fr_updated_at r) occurred_at\<rparr>) st of
        (Inl e, st1) \<Rightarrow> (Err e, st1)
      | (Inr _, st1) \<Rightarrow> settle_each keys s reason occurred_at rs (clear_friend_request_retry (fr_request_id r) st1))"

definition settle_related_outbound_friend_requests ::
  "string \<Rightarrow> friend_request_counterpart_ref \<Rightarrow> friend_request_state \<Rightarrow> string \<Rightarrow> int \<Rightarrow> friend_store \<Rightarrow>
   (social_error + unit) \<times> friend_store" where
  "settle_related_outbound_friend_requests local_id c s reason occurred_at st =
     (case list_friend_requests st local_id of
        Inl e \<Rightarrow> (Err e, st)
      | Inr items \<Rightarrow> settle_each (counterpart_match_keys c) s reason occurred_at items st)"

datatype friend_op =
    Upsert_request friend_request
  | Queue_decision queue_friend_request_decision_input
  | Accept_related string friend_request_counterpart_ref int
  | Settle_outbound string friend_request_counterpart_ref friend_request_state string int

definition friend_step :: "friend_store \<Rightarrow> friend_op \<Rightarrow> friend_store" where
  "friend_step st p = (case p of
     Upsert_request r \<Rightarrow> snd (upsert_friend_request r st)
   | Queue_decision i \<Rightarrow> snd (queue_friend_request_decision i st)
   | Accept_related local_id c t \<Rightarrow> accept_related_friend_requests local_id c t st
   | Settle_outbound local_id c s reason t \<Rightarrow> snd (settle_related_outbound_friend_requests local_id c s reason t st))"

definition friend_store_empty :: friend_store where
  "friend_store_empty = \<lparr>fs_requests = bempty, fs_tasks = []\<rparr>"

subsection \<open>Rows\<close>

lemma put_request_get:
  "bget (put_request r m) k =
     (if k = fr_request_id r
      then Some (case bget m k of None \<Rightarrow> r | Some old \<Rightarrow> r\<lparr>fr_created_at := fr_created_at old\<rparr>)
      else bget m k)"
  by (simp add: put_request_def)

lemma put_request_Some: "\<exists>t. bget (put_request r m) (fr_request_id r) = Some (r\<lparr>fr_created_at := t\<rparr>)"
proof (cases "bget m (fr_request_id r)")
  case None
  then show ?thesis by (intro exI [of _ "fr_created_at r"]) (simp add: put_request_get)
next
  case (Some old)
  then show ?thesis by (intro exI [of _ "fr_created_at old"]) (simp add: put_request_get)
qed

lemma fs_requests_store [simp]: "fs_requests (store_request r st) = put_request r (fs_requests st)"
  by (simp add: store_request_def)

lemma fs_requests_clear [simp]:
  "fs_requests (clear_reliability_task kind k st) = fs_requests st"
  "fs_requests (clear_friend_request_retry k st) = fs_requests st"
  by (simp_all add: clear_reliability_task_def clear_friend_request_retry_def)

lemma fs_requests_fold:
  "fs_requests (fold (\<lambda>x. store_request (f x)) xs st) = fold (\<lambda>x. put_request (f x)) xs (fs_requests st)"
  by (induction xs arbitrary: st) simp_all

text \<open>Rows are filed under their ids, and ids are not blank.\<close>

definition rows_ok :: "(string, friend_request) btree_map \<Rightarrow> bool" where
  "rows_ok m \<longleftrightarrow> (\<forall>k r. bget m k = Some r \<longrightarrow> fr_request_id r = k \<and> \<not> blank k)"

definition owned :: "(string \<Rightarrow> string) \<Rightarrow> (string, friend_request) btree_map \<Rightarrow> bool" where
  "owned owner m \<longleftrightarrow> (\<forall>k r. bget m k = Some r \<longrightarrow> fr_local_public_id r = owner k)"

definition one_pending :: "(string, friend_request) btree_map \<Rightarrow> bool" where
  "one_pending m \<longleftrightarrow> (\<forall>k j a b. bget m k = Some a \<and> bget m j = Some b \<and> fr_state a = Fr_Pending
     \<and> fr_state b = Fr_Pending \<and> same_request_pair a b \<longrightarrow> k = j)"

text \<open>How a row may change: a decision is final, except that a request cancelled because a newer one
  superseded it may still be accepted along with the newer one.\<close>

fun may_become :: "friend_request \<Rightarrow> friend_request \<Rightarrow> bool" where
  "may_become r r' =
     (case fr_state r of
        Fr_Pending \<Rightarrow> True
      | Fr_DecisionPending \<Rightarrow> fr_state r' \<noteq> Fr_Pending \<and> \<not> is_superseded r'
      | Fr_Cancelled \<Rightarrow>
          if is_superseded r then fr_state r' \<in> {Fr_Cancelled, Fr_Accepted}
          else fr_state r' = Fr_Cancelled \<and> \<not> is_superseded r'
      | s \<Rightarrow> fr_state r' = s)"

lemma may_become_refl: "may_become r r"
  by (simp add: is_superseded_def split: friend_request_state.split)

lemma may_become_trans: "may_become a b \<Longrightarrow> may_become b c \<Longrightarrow> may_become a c"
  by (auto simp: is_superseded_def split: friend_request_state.splits if_splits)

lemma may_become_cong:
  "fr_state r' = fr_state r'' \<Longrightarrow> fr_decision_reason r' = fr_decision_reason r'' \<Longrightarrow> may_become r r' = may_become r r''"
  by (simp add: is_superseded_def split: friend_request_state.split)

lemma transition_may_become:
  "fr_can_transition_to r (fr_state r') \<Longrightarrow> \<not> is_superseded r' \<Longrightarrow> may_become r r'"
  by (auto split: friend_request_state.splits if_splits)

declare may_become.simps [simp del] fr_can_transition_to.simps [simp del]

lemma only_spaces_blank: "only_spaces s \<Longrightarrow> blank s"
proof -
  have strip: "strip_prefixes white_space s = []" if "list_all (\<lambda>c. c = CHR 0x20) s" for s
    using that
  proof (induction s)
    case Nil
    show ?case by (rule strip_prefixes_none) (simp add: match_prefix_def find_None_iff)
  next
    case (Cons c s)
    then have "match_prefix white_space (c # s) = Some [CHR 0x20]"
      by (simp add: match_prefix_def white_space_def)
    then show ?case using Cons by (subst strip_prefixes.simps) simp
  qed
  have "trim_end [] = []"
    unfolding trim_end_def using strip_prefixes_none [of "map rev white_space" "[]"]
    by (simp add: match_prefix_def find_None_iff)
  then show "only_spaces s \<Longrightarrow> blank s"
    using strip unfolding only_spaces_def blank_def trim_def trim_start_def by simp
qed

lemma stored_iff:
  assumes "rows_ok (fs_requests st)"
  shows "r \<in> set (stored_requests st l) \<longleftrightarrow>
    bget (fs_requests st) (fr_request_id r) = Some r \<and> fr_local_public_id r = l"
proof -
  have "r \<in> set (stored_requests st l) \<longleftrightarrow>
      (\<exists>k. bget (fs_requests st) k = Some r) \<and> fr_local_public_id r = l \<and> \<not> only_spaces (fr_request_id r)"
    by (simp add: stored_requests_def set_bvalues)
  then show ?thesis using assms only_spaces_blank unfolding rows_ok_def by blast
qed

text \<open>Several rows of the table written one after the other.\<close>

lemma fold_put_get:
  assumes "\<And>x. x \<in> set xs \<Longrightarrow> fr_request_id (f x) = fr_request_id x"
  shows "bget (fold (\<lambda>x. put_request (f x)) xs m) k = bget m k \<and> k \<notin> fr_request_id ` set xs
    \<or> (\<exists>x t. x \<in> set xs \<and> fr_request_id x = k
         \<and> bget (fold (\<lambda>x. put_request (f x)) xs m) k = Some ((f x)\<lparr>fr_created_at := t\<rparr>))"
  using assms
proof (induction xs rule: rev_induct)
  case (snoc x xs)
  let ?m = "fold (\<lambda>x. put_request (f x)) xs m"
  show ?case
  proof (cases "k = fr_request_id x")
    case True
    with snoc.prems put_request_Some [of "f x" ?m] show ?thesis by fastforce
  next
    case False
    then have "bget (put_request (f x) ?m) k = bget ?m k" using snoc.prems by (simp add: put_request_get)
    moreover have "bget ?m k = bget m k \<and> k \<notin> fr_request_id ` set xs
      \<or> (\<exists>x t. x \<in> set xs \<and> fr_request_id x = k \<and> bget ?m k = Some ((f x)\<lparr>fr_created_at := t\<rparr>))"
      using snoc.prems by (intro snoc.IH) simp
    ultimately show ?thesis using False by auto
  qed
qed simp

text \<open>Writing back changed versions of rows that are there.\<close>

lemma fold_put_rows:
  assumes "rows_ok m" and "\<And>x. x \<in> set xs \<Longrightarrow> bget m (fr_request_id x) = Some x"
    and "\<And>x. fr_request_id (f x) = fr_request_id x"
  shows "bget (fold (\<lambda>x. put_request (f x)) xs m) k = bget m k \<and> k \<notin> fr_request_id ` set xs
    \<or> (\<exists>x t. x \<in> set xs \<and> bget m k = Some x
         \<and> bget (fold (\<lambda>x. put_request (f x)) xs m) k = Some ((f x)\<lparr>fr_created_at := t\<rparr>))"
proof -
  have "x \<in> set xs \<Longrightarrow> fr_request_id x = k \<Longrightarrow> bget m k = Some x" for x using assms(2) by blast
  with fold_put_get [of xs f m k, OF assms(3)] show ?thesis by metis
qed

lemma fold_put_keeps:
  assumes "rows_ok m" and "\<And>x. x \<in> set xs \<Longrightarrow> bget m (fr_request_id x) = Some x"
    and "\<And>x. fr_request_id (f x) = fr_request_id x" and "\<And>x. fr_local_public_id (f x) = fr_local_public_id x"
    and "\<And>x. x \<in> set xs \<Longrightarrow> may_become x (f x) \<and> fr_state (f x) \<noteq> Fr_Pending"
  defines "m' \<equiv> fold (\<lambda>x. put_request (f x)) xs m"
  shows "rows_ok m'" and "owned owner m \<Longrightarrow> owned owner m'" and "one_pending m \<Longrightarrow> one_pending m'"
    and "entry_advances may_become k m m'"
proof -
  have rows: "bget m' k = bget m k \<or> (\<exists>x t. x \<in> set xs \<and> bget m k = Some x
      \<and> bget m' k = Some ((f x)\<lparr>fr_created_at := t\<rparr>))" for k
    using fold_put_rows [OF assms(1-3), of xs k] unfolding m'_def by blast
  have same: "\<exists>x. bget m k = Some x \<and> fr_request_id y = fr_request_id x \<and> fr_local_public_id y = fr_local_public_id x"
    if y: "bget m' k = Some y" for k y
    using rows [of k]
  proof
    assume "\<exists>x t. x \<in> set xs \<and> bget m k = Some x \<and> bget m' k = Some ((f x)\<lparr>fr_created_at := t\<rparr>)"
    then obtain x t where "bget m k = Some x" "y = (f x)\<lparr>fr_created_at := t\<rparr>" using y by auto
    then show ?thesis by (simp add: assms(3,4))
  next
    assume "bget m' k = bget m k"
    then have "bget m k = Some y" using y by (simp only:)
    then show ?thesis by (intro exI [of _ y] conjI refl)
  qed
  show "rows_ok m'" using same assms(1) unfolding rows_ok_def by metis
  show "owned owner m \<Longrightarrow> owned owner m'" using same unfolding owned_def by metis
  have pending: "bget m k = Some a" if a: "bget m' k = Some a" "fr_state a = Fr_Pending" for k a
    using rows [of k]
  proof
    assume "\<exists>x t. x \<in> set xs \<and> bget m k = Some x \<and> bget m' k = Some ((f x)\<lparr>fr_created_at := t\<rparr>)"
    then obtain x t where "x \<in> set xs" "a = (f x)\<lparr>fr_created_at := t\<rparr>" using a(1) by auto
    with assms(5) a(2) show ?thesis by fastforce
  qed (use a in auto)
  then show "one_pending m \<Longrightarrow> one_pending m'" unfolding one_pending_def by blast
  show "entry_advances may_become k m m'"
    unfolding entry_advances_def
  proof (intro allI impI)
    fix v assume v: "bget m k = Some v"
    from rows [of k] show "\<exists>v'. bget m' k = Some v' \<and> may_become v v'"
    proof
      assume "\<exists>x t. x \<in> set xs \<and> bget m k = Some x \<and> bget m' k = Some ((f x)\<lparr>fr_created_at := t\<rparr>)"
      then obtain x t where x: "x \<in> set xs" "v = x" "bget m' k = Some ((f x)\<lparr>fr_created_at := t\<rparr>)" using v by auto
      have "may_become x ((f x)\<lparr>fr_created_at := t\<rparr>)"
        using assms(5) [OF x(1)] may_become_cong [of "(f x)\<lparr>fr_created_at := t\<rparr>" "f x" x] by simp
      with x show ?thesis by blast
    next
      assume "bget m' k = bget m k"
      with v may_become_refl [of v] show ?thesis by (intro exI [of _ v]) (simp only:)
    qed
  qed
qed

subsection \<open>The operations on the rows\<close>

lemma merge_simps [simp]:
  "fr_request_id (merge_friend_request x r) = fr_request_id x"
  "fr_local_public_id (merge_friend_request x r) = fr_local_public_id r"
  "fr_remote_public_id (merge_friend_request x r) = fr_remote_public_id r"
  "fr_direction (merge_friend_request x r) = fr_direction r"
  "fr_state (merge_friend_request x r) = fr_state r"
  by (simp_all add: merge_friend_request_def)

lemma coalesce_pair:
  assumes "coalesce_friend_request items r = Some c"
  shows "fr_local_public_id c = fr_local_public_id r" and "fr_remote_public_id c = fr_remote_public_id r"
    and "fr_direction c = fr_direction r" and "fr_state c = fr_state r"
  using assms unfolding coalesce_friend_request_def by (auto split: if_splits option.splits)

text \<open>The row that is written is the one with the id of the request, or a row of the same pair that
  is pending or has the state of the request already.\<close>

lemma coalesce_id:
  assumes "coalesce_friend_request items r = Some c"
  shows "fr_request_id c = fr_request_id r
    \<or> fr_state r \<noteq> Fr_Pending \<and> (\<exists>x \<in> set items. fr_request_id c = fr_request_id x
         \<and> (fr_state x = Fr_Pending \<or> fr_state x = fr_state r))"
  using assms unfolding coalesce_friend_request_def
  by (auto split: if_splits option.splits dest!: find_Some_iff2)

lemma coalesce_superseded:
  assumes "coalesce_friend_request items r = Some c" and "fr_state r = Fr_Pending \<or> fr_decision_reason r \<noteq> None"
  shows "is_superseded c = is_superseded r"
proof -
  have "is_superseded (merge_friend_request x r) = is_superseded r" for x
    using assms(2) by (auto simp: is_superseded_def merge_friend_request_def or_else_def)
  with assms(1) show ?thesis unfolding coalesce_friend_request_def by (auto split: if_splits option.splits)
qed

lemma supersede_simps [simp]:
  "fr_request_id (supersede r x) = fr_request_id x"
  "fr_local_public_id (supersede r x) = fr_local_public_id x"
  "fr_state (supersede r x) = Fr_Cancelled"
  by (simp_all add: supersede_def)

lemma upsert_request_cases:
  obtains (same) "snd (upsert_friend_request r st) = st"
  | (stored) c xs where "\<not> blank (fr_request_id r)"
      and "coalesce_friend_request (stored_requests st (fr_local_public_id r)) r = Some c"
      and "\<And>x. x \<in> set (stored_requests st (fr_local_public_id r)) \<Longrightarrow> fr_request_id x = fr_request_id r \<Longrightarrow>
        \<exists>y \<in> set (stored_requests st (fr_local_public_id r)).
          fr_request_id y = fr_request_id r \<and> fr_can_transition_to y (fr_state r)"
      and "xs = (if fr_state r = Fr_Pending
        then filter (\<lambda>x. fr_request_id x \<noteq> fr_request_id r \<and> same_request_pair x r \<and> fr_state x = Fr_Pending)
          (stored_requests st (fr_local_public_id r)) else [])"
      and "fs_requests (snd (upsert_friend_request r st)) =
        put_request c (fold (\<lambda>x. put_request (supersede r x)) xs (fs_requests st))"
      and "fr_state r = Fr_Pending \<or> fr_decision_reason r \<noteq> None"
proof -
  let ?items = "stored_requests st (fr_local_public_id r)"
  let ?old = "List.find (\<lambda>x. fr_request_id x = fr_request_id r) ?items"
  consider "snd (upsert_friend_request r st) = st"
    | c where "validate_friend_request r = Ok ()" "\<not> is_some_and ?old (\<lambda>x. \<not> fr_can_transition_to x (fr_state r))"
      "coalesce_friend_request ?items r = Some c"
  proof (cases "is_ok (validate_friend_request r) \<and> \<not> is_some_and ?old (\<lambda>x. \<not> fr_can_transition_to x (fr_state r))
      \<and> coalesce_friend_request ?items r \<noteq> None")
    case True
    then show thesis using that(2) by (auto simp: is_ok_iff)
  next
    case False
    then have "snd (upsert_friend_request r st) = st"
      by (auto simp: upsert_friend_request_def Let_def is_ok_iff split: sum.split)
    then show thesis by (rule that(1))
  qed
  then show thesis
  proof cases
    case 2
    have "\<not> blank (fr_request_id r)" "fr_state r = Fr_Pending \<or> fr_decision_reason r \<noteq> None"
      using 2(1) by (auto simp: validate_friend_request_def split: if_splits)
    moreover have "\<exists>y \<in> set ?items. fr_request_id y = fr_request_id r \<and> fr_can_transition_to y (fr_state r)"
      if "x \<in> set ?items" "fr_request_id x = fr_request_id r" for x
    proof -
      obtain y where "?old = Some y" using \<open>x \<in> set ?items\<close> \<open>fr_request_id x = fr_request_id r\<close>
        by (cases ?old) (auto simp: find_None_iff2)
      with 2(2) find_Some_iff2 [OF this] show ?thesis by auto
    qed
    ultimately show thesis using 2 stored by (simp add: upsert_friend_request_def Let_def fs_requests_fold)
  qed (rule same)
qed

text \<open>The invariant: rows are in order, ids belong to one local identity, at most one request of a
  pair is pending, and every row of an earlier table has only moved forward.\<close>

definition friend_inv ::
  "(string \<Rightarrow> string) \<Rightarrow> (string, friend_request) btree_map \<Rightarrow> friend_store \<Rightarrow> bool" where
  "friend_inv owner m0 st \<longleftrightarrow> rows_ok (fs_requests st) \<and> owned owner (fs_requests st)
     \<and> one_pending (fs_requests st) \<and> (\<forall>k. entry_advances may_become k m0 (fs_requests st))"

lemma friend_inv_advance:
  assumes "friend_inv owner m0 st" and "rows_ok (fs_requests st')" and "owned owner (fs_requests st')"
    and "one_pending (fs_requests st')" and "\<And>k. entry_advances may_become k (fs_requests st) (fs_requests st')"
  shows "friend_inv owner m0 st'"
proof -
  have "entry_advances may_become k m0 (fs_requests st')" for k
    using assms(1,5) entry_advances_trans [of may_become k m0 "fs_requests st" "fs_requests st'"] may_become_trans
    unfolding friend_inv_def by blast
  with assms(2-4) show ?thesis by (simp add: friend_inv_def)
qed

lemma put_request_keeps:
  assumes "rows_ok m" and "owned owner m" and "one_pending m" and "\<not> blank (fr_request_id c)"
    and "fr_local_public_id c = owner (fr_request_id c)"
    and pending: "\<And>j b. fr_state c = Fr_Pending \<Longrightarrow> bget m j = Some b \<Longrightarrow> fr_state b = Fr_Pending \<Longrightarrow>
      same_request_pair b c \<Longrightarrow> j = fr_request_id c"
  shows "rows_ok (put_request c m)" and "owned owner (put_request c m)" and "one_pending (put_request c m)"
proof -
  have row: "bget (put_request c m) k = bget m k" if "k \<noteq> fr_request_id c" for k
    using \<open>k \<noteq> fr_request_id c\<close> by (simp add: put_request_get)
  obtain t where c: "bget (put_request c m) (fr_request_id c) = Some (c\<lparr>fr_created_at := t\<rparr>)"
    using put_request_Some by blast
  have rows: "k \<noteq> fr_request_id c \<and> bget m k = Some a \<or> k = fr_request_id c \<and> a = c\<lparr>fr_created_at := t\<rparr>"
    if "bget (put_request c m) k = Some a" for k a
    using that row [of k] c by (cases "k = fr_request_id c") auto
  show "rows_ok (put_request c m)" unfolding rows_ok_def
  proof (intro allI impI)
    fix k a assume "bget (put_request c m) k = Some a"
    from rows [OF this] assms(1,4) show "fr_request_id a = k \<and> \<not> blank k" by (auto simp: rows_ok_def)
  qed
  show "owned owner (put_request c m)" unfolding owned_def
  proof (intro allI impI)
    fix k a assume "bget (put_request c m) k = Some a"
    from rows [OF this] assms(2,5) show "fr_local_public_id a = owner k" by (auto simp: owned_def)
  qed
  show "one_pending (put_request c m)" unfolding one_pending_def
  proof (intro allI impI)
    fix k j a b
    assume *: "bget (put_request c m) k = Some a \<and> bget (put_request c m) j = Some b
      \<and> fr_state a = Fr_Pending \<and> fr_state b = Fr_Pending \<and> same_request_pair a b"
    have pair: "same_request_pair x (c\<lparr>fr_created_at := t\<rparr>) = same_request_pair x c"
      "same_request_pair (c\<lparr>fr_created_at := t\<rparr>) x = same_request_pair x c" for x
      by (auto simp: same_request_pair_def same_identity_pair_def)
    from * rows [of k a] rows [of j b] pending [of k a] pending [of j b] assms(3)
    show "k = j" unfolding one_pending_def by (auto simp: pair)
  qed
qed

lemma put_request_advances:
  assumes "\<And>v. bget m (fr_request_id c) = Some v \<Longrightarrow> may_become v c"
  shows "entry_advances may_become k m (put_request c m)"
  unfolding entry_advances_def
proof (intro allI impI)
  fix v assume v: "bget m k = Some v"
  show "\<exists>v'. bget (put_request c m) k = Some v' \<and> may_become v v'"
  proof (cases "k = fr_request_id c")
    case True
    obtain t where t: "bget (put_request c m) (fr_request_id c) = Some (c\<lparr>fr_created_at := t\<rparr>)"
      using put_request_Some by blast
    have "may_become v (c\<lparr>fr_created_at := t\<rparr>)"
      using assms v True may_become_cong [of "c\<lparr>fr_created_at := t\<rparr>" c v] by simp
    with t True show ?thesis by blast
  next
    case False
    then have "bget (put_request c m) k = Some v" using v by (simp add: put_request_get)
    with may_become_refl show ?thesis by blast
  qed
qed

lemma coalesce_owner:
  assumes ok: "rows_ok (fs_requests st)" "owned owner (fs_requests st)"
    and own: "fr_local_public_id r = owner (fr_request_id r)" and r: "\<not> blank (fr_request_id r)"
    and c: "coalesce_friend_request (stored_requests st (fr_local_public_id r)) r = Some c"
  shows "\<not> blank (fr_request_id c)" and "fr_local_public_id c = owner (fr_request_id c)"
proof -
  have "\<not> blank (fr_request_id c) \<and> fr_local_public_id c = owner (fr_request_id c)"
  proof (cases "fr_request_id c = fr_request_id r")
    case True
    with own r coalesce_pair(1) [OF c] show ?thesis by simp
  next
    case False
    then obtain x where "bget (fs_requests st) (fr_request_id c) = Some x"
      "fr_local_public_id x = fr_local_public_id r"
      using coalesce_id [OF c] stored_iff [OF ok(1)] by metis
    with ok coalesce_pair(1) [OF c] show ?thesis unfolding rows_ok_def owned_def by metis
  qed
  then show "\<not> blank (fr_request_id c)" "fr_local_public_id c = owner (fr_request_id c)" by simp_all
qed

lemma coalesce_advances:
  assumes ok: "rows_ok (fs_requests st)" "owned owner (fs_requests st)"
    and own: "fr_local_public_id r = owner (fr_request_id r)"
    and c: "coalesce_friend_request (stored_requests st (fr_local_public_id r)) r = Some c"
    and step: "\<And>x. x \<in> set (stored_requests st (fr_local_public_id r)) \<Longrightarrow> fr_request_id x = fr_request_id r \<Longrightarrow>
      \<exists>y \<in> set (stored_requests st (fr_local_public_id r)).
        fr_request_id y = fr_request_id r \<and> fr_can_transition_to y (fr_state r)"
    and v: "bget (fs_requests st) (fr_request_id c) = Some v" and cancel: "\<not> is_superseded c"
  shows "may_become v c"
proof (cases "fr_request_id c = fr_request_id r")
  case True
  note items = stored_iff [OF ok(1)]
  have vid: "fr_request_id v = fr_request_id r" "fr_local_public_id v = fr_local_public_id r"
    using ok v own True unfolding rows_ok_def owned_def by auto
  then have "v \<in> set (stored_requests st (fr_local_public_id r))" using items v True by simp
  from step [OF this vid(1)] obtain y where y: "y \<in> set (stored_requests st (fr_local_public_id r))"
    "fr_request_id y = fr_request_id r" "fr_can_transition_to y (fr_state r)" by blast
  with items v True have "y = v" by simp
  with y(3) coalesce_pair(4) [OF c] cancel show ?thesis by (intro transition_may_become) simp_all
next
  case False
  with coalesce_id [OF c] obtain x where x: "x \<in> set (stored_requests st (fr_local_public_id r))"
    "fr_request_id c = fr_request_id x" "fr_state x = Fr_Pending \<or> fr_state x = fr_state r" by blast
  with stored_iff [OF ok(1)] v have "x = v" by simp
  with x(3) coalesce_pair(4) [OF c] cancel show ?thesis
    by (auto simp: may_become.simps split: friend_request_state.split)
qed

text \<open>After a new pending request has superseded the others of its pair, none of them is pending.\<close>

lemma supersede_all:
  assumes ok: "rows_ok (fs_requests st)"
    and xs_def: "xs = filter (\<lambda>x. fr_request_id x \<noteq> fr_request_id r \<and> same_request_pair x r \<and> fr_state x = Fr_Pending)
      (stored_requests st (fr_local_public_id r))"
    and b: "bget (fold (\<lambda>x. put_request (supersede r x)) xs (fs_requests st)) j = Some b"
    "fr_state b = Fr_Pending" "same_request_pair b r"
  shows "j = fr_request_id r"
proof (rule ccontr)
  assume ne: "j \<noteq> fr_request_id r"
  have xs: "bget (fs_requests st) (fr_request_id x) = Some x" if "x \<in> set xs" for x
    using that stored_iff [OF ok] unfolding xs_def by simp
  have "bget (fold (\<lambda>x. put_request (supersede r x)) xs (fs_requests st)) j = bget (fs_requests st) j
      \<and> j \<notin> fr_request_id ` set xs
    \<or> (\<exists>x t. x \<in> set xs \<and> bget (fs_requests st) j = Some x
      \<and> bget (fold (\<lambda>x. put_request (supersede r x)) xs (fs_requests st)) j = Some ((supersede r x)\<lparr>fr_created_at := t\<rparr>))"
    by (rule fold_put_rows [OF ok xs supersede_simps(1)])
  then consider "bget (fs_requests st) j = Some b" "j \<notin> fr_request_id ` set xs"
    | x t where "b = (supersede r x)\<lparr>fr_created_at := t\<rparr>" using b(1) by auto
  then show False
  proof cases
    case 1
    then have j: "fr_request_id b = j" using ok by (simp add: rows_ok_def)
    then have "b \<in> set (stored_requests st (fr_local_public_id r))"
      using stored_iff [OF ok] 1(1) b(3) by (simp add: same_request_pair_def same_identity_pair_def)
    then have "b \<in> set xs" unfolding xs_def using b(2,3) j ne by simp
    with 1(2) j show False by blast
  next
    case 2
    with b(2) show False by simp
  qed
qed

lemma upsert_inv:
  assumes inv: "friend_inv owner m0 st" and own: "fr_local_public_id r = owner (fr_request_id r)"
    and cancel: "\<not> is_superseded r"
  shows "friend_inv owner m0 (snd (upsert_friend_request r st))"
proof (cases rule: upsert_request_cases [of r st])
  case same
  with inv show ?thesis by simp
next
  case (stored c xs)
  let ?m = "fs_requests st" and ?m1 = "fold (\<lambda>x. put_request (supersede r x)) xs (fs_requests st)"
  have ok: "rows_ok ?m" "owned owner ?m" "one_pending ?m" using inv by (simp_all add: friend_inv_def)
  note c = coalesce_pair [OF stored(2)]
  have new: "\<not> is_superseded c" using cancel coalesce_superseded [OF stored(2,6)] by simp
  have xs: "bget ?m (fr_request_id x) = Some x" "fr_state x = Fr_Pending" "fr_request_id x \<noteq> fr_request_id r"
    "fr_state r = Fr_Pending" if "x \<in> set xs" for x
    using that stored_iff [OF ok(1)] unfolding stored(4) by (auto split: if_splits)
  have become: "may_become x (supersede r x) \<and> fr_state (supersede r x) \<noteq> Fr_Pending" if "x \<in> set xs" for x
    using xs(2) [OF that] by (simp add: may_become.simps)
  note keep = fold_put_keeps [OF ok(1) xs(1) supersede_simps(1,2) become]
  have keeps: "rows_ok ?m1" "owned owner ?m1" "one_pending ?m1"
    by (rule keep(1), assumption+) (rule keep(2), assumption+, rule ok(2), rule keep(3), assumption+, rule ok(3))
  have grow: "entry_advances may_become k ?m ?m1" for k by (rule keep(4))
  have pending: "j = fr_request_id c" if "fr_state c = Fr_Pending"
    and b: "bget ?m1 j = Some b" "fr_state b = Fr_Pending" "same_request_pair b c" for j b
  proof -
    have r: "fr_state r = Fr_Pending" "same_request_pair b r"
      using \<open>fr_state c = Fr_Pending\<close> b(3) c by (simp_all add: same_request_pair_def same_identity_pair_def)
    have "j = fr_request_id r" by (rule supersede_all [OF ok(1) _ b(1,2) r(2)]) (simp add: stored(4) r(1))
    with coalesce_id [OF stored(2)] r(1) show ?thesis by simp
  qed
  have advance: "may_become v c" if v: "bget ?m1 (fr_request_id c) = Some v" for v
  proof -
    have "fr_request_id c \<notin> fr_request_id ` set xs"
      using xs(3,4) coalesce_id [OF stored(2)] by fastforce
    then have old: "bget ?m (fr_request_id c) = Some v"
      using fold_put_get [of xs "supersede r" ?m "fr_request_id c", OF supersede_simps(1)] v by (metis imageI)
    show ?thesis by (rule coalesce_advances [OF ok(1,2) own stored(2) _ old new]) (rule stored(3))
  qed
  note put = put_request_keeps [OF keeps coalesce_owner [OF ok(1,2) own stored(1,2)] pending]
  show ?thesis
  proof (rule friend_inv_advance [OF inv], unfold stored(5))
    show "rows_ok (put_request c ?m1)" "owned owner (put_request c ?m1)" "one_pending (put_request c ?m1)"
      by (rule put; assumption)+
    show "entry_advances may_become k ?m (put_request c ?m1)" for k
      by (rule entry_advances_trans [of may_become, OF may_become_trans grow put_request_advances [OF advance]])
  qed
qed

subsection \<open>The other operations\<close>

lemma friend_inv_cong: "fs_requests st' = fs_requests st \<Longrightarrow> friend_inv owner m0 st' = friend_inv owner m0 st"
  by (simp add: friend_inv_def)

definition acceptable :: "string set \<Rightarrow> int \<Rightarrow> friend_request \<Rightarrow> bool" where
  "acceptable keys occurred_at r \<longleftrightarrow> request_matches_counterpart r keys
     \<and> as_millis (fr_created_at r) \<le> accepted_at_millis occurred_at
     \<and> (fr_state r \<in> {Fr_Pending, Fr_DecisionPending} \<or> is_superseded r)"

definition accepted :: "int \<Rightarrow> friend_request \<Rightarrow> friend_request" where
  "accepted occurred_at r = r\<lparr>fr_state := Fr_Accepted, fr_decision_reason := Some ''accepted'',
     fr_updated_at := max (fr_updated_at r) occurred_at\<rparr>"

lemma accepted_simps [simp]:
  "fr_request_id (accepted t r) = fr_request_id r" "fr_local_public_id (accepted t r) = fr_local_public_id r"
  "fr_state (accepted t r) = Fr_Accepted"
  by (simp_all add: accepted_def)

lemma accept_fold:
  "fs_requests (fold (accept_one keys t) rs st) =
     fold (\<lambda>x. put_request (accepted t x)) (filter (acceptable keys t) rs) (fs_requests st)"
proof (induction rs arbitrary: st)
  case (Cons r rs)
  have "fs_requests (accept_one keys t r st) =
      (if acceptable keys t r then put_request (accepted t r) (fs_requests st) else fs_requests st)"
    by (auto simp: accept_one_def acceptable_def accepted_def Let_def)
  with Cons show ?case by simp
qed simp

lemma accept_inv:
  assumes inv: "friend_inv owner m0 st"
  shows "friend_inv owner m0 (accept_related_friend_requests l c t st)"
proof -
  let ?xs = "filter (acceptable (counterpart_match_keys c) t) (stored_requests st l)"
  have ok: "rows_ok (fs_requests st)" "owned owner (fs_requests st)" "one_pending (fs_requests st)"
    using inv by (simp_all add: friend_inv_def)
  have xs: "bget (fs_requests st) (fr_request_id x) = Some x"
    "may_become x (accepted t x) \<and> fr_state (accepted t x) \<noteq> Fr_Pending" if "x \<in> set ?xs" for x
    using that stored_iff [OF ok(1)] by (auto simp: acceptable_def is_superseded_def may_become.simps)
  note keep = fold_put_keeps [OF ok(1) xs(1) accepted_simps(1,2) xs(2)]
  show ?thesis unfolding accept_related_friend_requests_def
    by (rule friend_inv_advance [OF inv]; unfold accept_fold)
      (rule keep ok | assumption)+
qed

lemma settle_inv:
  "friend_inv owner m0 st \<Longrightarrow> \<not> (s = Fr_Cancelled \<and> reason = superseded_reason) \<Longrightarrow>
   (\<And>r. r \<in> set rs \<Longrightarrow> fr_local_public_id r = owner (fr_request_id r)) \<Longrightarrow>
   friend_inv owner m0 (snd (settle_each keys s reason t rs st))"
proof (induction rs arbitrary: st)
  case (Cons r rs)
  let ?r = "r\<lparr>fr_state := s, fr_decision_reason := Some reason, fr_updated_at := max (fr_updated_at r) t\<rparr>"
  obtain e st1 where u: "upsert_friend_request ?r st = (e, st1)" by (cases "upsert_friend_request ?r st")
  have "friend_inv owner m0 st1" using upsert_inv [OF Cons.prems(1), of ?r] Cons.prems(2) Cons.prems(3) [of r] u
    by (simp add: is_superseded_def)
  then have "friend_inv owner m0 (clear_friend_request_retry (fr_request_id r) st1)"
    by (simp add: friend_inv_cong [of "clear_friend_request_retry (fr_request_id r) st1" st1])
  with Cons u \<open>friend_inv owner m0 st1\<close> show ?case by (auto split: sum.split)
qed simp

lemma dedupe_subset: "set (dedupe_pending blocking pairs rs) \<subseteq> set rs"
  by (induction blocking pairs rs rule: dedupe_pending.induct) auto

lemma listed_stored: "list_friend_requests st l = Ok rs \<Longrightarrow> set rs \<subseteq> set (stored_requests st l)"
  using dedupe_subset by (fastforce simp: list_friend_requests_def dedupe_friend_requests_def split: if_splits)

subsection \<open>Every sequence of operations\<close>

text \<open>Request ids are handed out once: a request is always filed for the same local identity. And the
  reason by which the service marks a superseded request is its own: every caller of the service
  cancels a request for another reason.\<close>

fun files_for :: "(string \<Rightarrow> string) \<Rightarrow> friend_op \<Rightarrow> bool" where
  "files_for owner (Upsert_request r) =
     (fr_local_public_id r = owner (fr_request_id r) \<and> \<not> is_superseded r)"
| "files_for owner (Queue_decision i) = (qi_local_public_id i = owner (qi_request_id i))"
| "files_for owner (Settle_outbound l c s reason t) = (\<not> (s = Fr_Cancelled \<and> reason = superseded_reason))"
| "files_for owner (Accept_related l c t) = True"

lemma friend_step_inv:
  assumes "files_for owner p" and inv: "friend_inv owner m0 st"
  shows "friend_inv owner m0 (friend_step st p)"
proof (cases p)
  case (Queue_decision i)
  have "friend_inv owner m0 (snd (upsert_friend_request (queued_decision i old) st))" for old
    using assms Queue_decision by (intro upsert_inv) (simp_all add: queued_decision_def is_superseded_def)
  with inv Queue_decision show ?thesis
    by (auto simp: friend_step_def queue_friend_request_decision_def Let_def split: sum.split)
next
  case (Settle_outbound l c s reason t)
  show ?thesis
  proof (cases "list_friend_requests st l")
    case (Inr rs)
    have "fr_local_public_id r = owner (fr_request_id r)" if "r \<in> set rs" for r
      using listed_stored [OF Inr] that stored_iff inv unfolding friend_inv_def owned_def by blast
    with settle_inv [OF inv] assms(1) Inr Settle_outbound show ?thesis
      by (auto simp: friend_step_def settle_related_outbound_friend_requests_def)
  qed (use inv Settle_outbound in \<open>simp add: friend_step_def settle_related_outbound_friend_requests_def\<close>)
qed (use assms in \<open>auto simp: friend_step_def intro: upsert_inv accept_inv\<close>)

interpretation friend_rows: invariant_machine friend_step "files_for owner" "friend_inv owner m0" for owner m0
  by unfold_locales (rule friend_step_inv)

text \<open>C40: friend requests are decided once. Whatever the service is asked to do, a request on file
  stays on file and only moves forward: a decided request keeps its decision, except that one the
  service itself cancelled because a newer request superseded it may still be accepted; a request
  cancelled for any other reason stays cancelled; a queued decision is never pending again; and
  of one pair of identities and one direction at most one request is pending. The request ids
  must not be shared between local identities, and no caller may cancel a request with the reason
  the service keeps for superseded ones.\<close>

theorem friend_requests_decided_once:
  assumes "list_all (files_for owner) ps" and "list_all (files_for owner) qs"
  defines "st \<equiv> run friend_step friend_store_empty ps"
  defines "st' \<equiv> run friend_step st qs"
  shows "(\<forall>k r. bget (fs_requests st) k = Some r \<longrightarrow>
      (\<exists>r'. bget (fs_requests st') k = Some r' \<and> may_become r r' \<and> fr_request_id r' = k
         \<and> fr_local_public_id r' = fr_local_public_id r))
    \<and> one_pending (fs_requests st')"
proof -
  have "friend_inv owner bempty friend_store_empty"
    by (simp add: friend_inv_def friend_store_empty_def rows_ok_def owned_def one_pending_def entry_advances_def)
  then have "friend_inv owner bempty st" unfolding st_def by (rule friend_rows.run_inv [OF assms(1)])
  then have st: "friend_inv owner (fs_requests st) st"
    by (simp add: friend_inv_def entry_advances_refl may_become_refl)
  then have "friend_inv owner (fs_requests st) st'" unfolding st'_def by (rule friend_rows.run_inv [OF assms(2)])
  with st show ?thesis unfolding friend_inv_def entry_advances_def rows_ok_def owned_def by metis
qed

definition demo_friend_request :: friend_request where
  "demo_friend_request = \<lparr>fr_request_id = ''r1'', fr_local_public_id = ''a'', fr_remote_public_id = ''b'',
     fr_remote_node_id = None, fr_direction = Outbound, fr_state = Fr_Pending, fr_decision_reason = None,
     fr_correlation_id = None, fr_created_at = 1, fr_updated_at = 1, fr_expires_at = None\<rparr>"

definition demo_counterpart :: friend_request_counterpart_ref where
  "demo_counterpart = \<lparr>cr_public_id = ''b'', cr_remote_node_id = [], cr_target_agent = ''b''\<rparr>"

lemma demo_friend_ids: "\<not> blank ''r1''" "\<not> blank ''a''" "\<not> blank ''b''"
  by code_simp+

definition demo_cancelled :: friend_request where
  "demo_cancelled = demo_friend_request\<lparr>fr_state := Fr_Cancelled, fr_decision_reason := Some ''cancelled''\<rparr>"

lemma demo_friend_filed:
  "friend_step friend_store_empty (Upsert_request demo_friend_request) =
     \<lparr>fs_requests = binsert ''r1'' demo_friend_request bempty, fs_tasks = []\<rparr>"
  by (simp add: friend_step_def upsert_friend_request_def validate_friend_request_def demo_friend_ids
      demo_friend_request_def friend_store_empty_def stored_requests_def bvalues_def coalesce_friend_request_def
      store_request_def put_request_def)

lemma demo_friend_cancelled:
  "bget (fs_requests (run friend_step friend_store_empty
     [Upsert_request demo_friend_request, Upsert_request demo_cancelled])) ''r1'' = Some demo_cancelled"
proof -
  have rows: "stored_requests \<lparr>fs_requests = binsert ''r1'' demo_friend_request bempty, fs_tasks = []\<rparr> ''a'' =
      [demo_friend_request]"
    by (simp add: stored_requests_def bvalues_def demo_friend_request_def only_spaces_def)
  show ?thesis
    unfolding run_simps demo_friend_filed
    by (simp add: friend_step_def upsert_friend_request_def validate_friend_request_def demo_friend_ids
        rows [unfolded demo_friend_request_def] demo_cancelled_def coalesce_friend_request_def fr_can_transition_to.simps put_request_get Let_def
        merge_friend_request_def or_else_def demo_friend_request_def)
qed

theorem friend_requests_decided_once_witness:
  "let ps = [Upsert_request demo_friend_request, Upsert_request demo_cancelled];
       qs = [Accept_related ''a'' demo_counterpart 5];
       st = run friend_step friend_store_empty ps; st' = run friend_step st qs
   in list_all (files_for (\<lambda>_. ''a'')) ps \<and> list_all (files_for (\<lambda>_. ''a'')) qs
    \<and> bget (fs_requests st) ''r1'' = Some demo_cancelled
    \<and> (\<exists>r'. bget (fs_requests st') ''r1'' = Some r' \<and> fr_state r' = Fr_Cancelled)
    \<and> one_pending (fs_requests st')"
proof -
  let ?ps = "[Upsert_request demo_friend_request, Upsert_request demo_cancelled]"
  let ?qs = "[Accept_related ''a'' demo_counterpart 5]"
  have ops: "list_all (files_for (\<lambda>_. ''a'')) ?ps" "list_all (files_for (\<lambda>_. ''a'')) ?qs"
    by (simp_all add: demo_friend_request_def demo_cancelled_def is_superseded_def superseded_reason_def)
  have "fr_state r' = Fr_Cancelled" if "may_become demo_cancelled r'" for r'
    using that by (simp add: may_become.simps demo_cancelled_def is_superseded_def superseded_reason_def)
  with friend_requests_decided_once [OF ops] demo_friend_cancelled ops show ?thesis unfolding Let_def by metis
qed

end
