(* ===== verification/Spec2Isabelle.thy ===== *)
theory Spec2Isabelle
  imports Governance Payments Economy Organizations Travel_State Event_Log Admission Policy Trust
    Oracle Mailbox Identities Space_Routing Friend_Requests
begin

text \<open>
  A verification library for the Wattetheria node, a Rust program in which agents hold
  identities, sign what they do, govern planets, take on paid missions, pay each other and move
  through maps. The library models the pure core of the node, the crate
  \<^verbatim>\<open>src/crates/kernel-core/src\<close>, together with the space records of
  \<^verbatim>\<open>src/crates/gateway-contract\<close> and the friend requests of
  \<^verbatim>\<open>src/crates/social\<close>. File names below are relative to the first unless
  they start with a crate.

  \<^bold>\<open>How the program is modelled.\<close>
  Structs are records with a short prefix per type, enums are datatypes, methods that change
  \<^verbatim>\<open>self\<close> return the result together with the new state, and every \<^verbatim>\<open>bail!\<close>,
  \<^verbatim>\<open>ensure!\<close>, \<^verbatim>\<open>context(..)?\<close> and panic that can be reached is an error value.
  \<^verbatim>\<open>BTreeMap\<close> and \<^verbatim>\<open>BTreeSet\<close> are sorted entry lists behind a type of their own
  (BTree); strings are lists of UTF-8 bytes with Rust's \<^verbatim>\<open>trim\<close>, \<^verbatim>\<open>split\<close> and number
  formats (Rust_Str). An \<^verbatim>\<open>i64\<close> is an integer on which every unchecked operation wraps as a
  release build does (\<open>to_i64\<close>); unsigned integers are naturals with wrap-around or saturation
  written out; an \<^verbatim>\<open>f64\<close> is a rational, an infinity or not a number, and is only compared.
  Clock readings, random identifiers and nonces are arguments. Third-party code is a parameter:
  the record \<open>crypto\<close> of Signing holds Ed25519, base64, hexadecimal, SHA-256 and DID parsing with
  the laws \<open>crypto_laws\<close>, and canonical JSON (\<^verbatim>\<open>serde_jcs\<close>) and JSON access are function
  arguments; each property that uses a law has a witness in which a concrete \<open>crypto_demo\<close>
  satisfies it. The operations of a component are collected in an operation datatype and a step
  function, so that a property quantifies over every sequence of operations, accepted or refused.

  \<^bold>\<open>Shared theories.\<close>
  Prelude has results, integer widths and runs of a step function; BTree the ordered maps, with
  the locale \<open>ordered_map\<close> for sums over entries; Registry the access to an entry by key with
  guards; Machines the contracts of several components as locales: \<open>invariant_machine\<close>,
  \<open>forward_machine\<close>, \<open>treasury\<close> and \<open>ballot\<close>. Each locale is interpreted on the definitions of
  the components that provide it, and the properties follow from the interpreted facts.

  \<^bold>\<open>Identities and signatures.\<close>
  Signing models \<^verbatim>\<open>security/signing.rs\<close> and the pure part of \<^verbatim>\<open>security/identity.rs\<close>:
  canonical payloads, signing and verifying, did:key and public-id fingerprints. Identities
  models the two registries of \<^verbatim>\<open>civilization/identities.rs\<close> and their reconciliation with
  the local runtime, and shows that names stay normalised, ids certified by their keys and
  bindings filed under their own ids.

  \<^bold>\<open>Governance.\<close>
  Governance models \<^verbatim>\<open>governance/engine.rs\<close> and \<^verbatim>\<open>constitution.rs\<close>: licenses, bonds,
  founding a planet with signed approvals, proposals, validators, treasuries, recall, custody and
  takeover. Its lemmas show that reachable engines are well formed, that sovereignty passes only
  to licensed and bonded agents, exactly when founding succeeds, that decisions are final and
  the last vote of a validator counts, and bounds on treasuries and rotation. Mailbox
  (\<^verbatim>\<open>governance/mailbox.rs\<close>) refines an abstract keyed queue, the locale \<open>keyed_queue\<close>.
  Oracle (\<^verbatim>\<open>governance/oracle.rs\<close>) appends to the event log as it publishes and settles; it
  conserves the balances, up to pulls with a negative total, and charges no delivered feed again.

  \<^bold>\<open>Payments.\<close>
  Payment_Types, X402 and Payments model \<^verbatim>\<open>payments/mod.rs\<close> and \<^verbatim>\<open>payments/x402.rs\<close>:
  the life cycle of a payment, that local settlement is backed by an authorization and a receipt,
  that a remote message comes from the party named in the payment it carries and changes no terms
  of a payment on file, that merging converges, that queries and the summary are exact, and that
  stablecoin amounts survive printing and parsing.

  \<^bold>\<open>Civilization.\<close>
  Profiles, Missions, Economy and Organizations model the files of the same names. A mission
  keeps its payee from claim to settlement and an expired one is not paid; the standing of an
  agent changes by settled rewards only; charters rest on votes of enrolled members, if
  no organization makes two proposals in one second, and permissions on the recorded membership.

  \<^bold>\<open>Maps and travel.\<close>
  Galaxy_Map models \<^verbatim>\<open>civilization/galaxy.rs\<close>, \<^verbatim>\<open>map/model.rs\<close>, \<^verbatim>\<open>map/validator.rs\<close> and
  \<^verbatim>\<open>map/registry.rs\<close>; Travel the route search of \<^verbatim>\<open>map/travel.rs\<close>, shown to end and, on
  maps without parallel routes of different cost, to find cheapest plans; Travel_State \<^verbatim>\<open>map/state.rs\<close> and \<^verbatim>\<open>map/consequence.rs\<close>, where a
  planned journey reaches its destination.

  \<^bold>\<open>Spaces.\<close>
  Space models the packages of \<^verbatim>\<open>space/mod.rs\<close> and \<^verbatim>\<open>space/package.rs\<close> with the presence
  records and world events validated against them; Space_Routing the breadth-first search of
  \<^verbatim>\<open>space/routing.rs\<close>. The search always returns, its paths are shortest, and in a valid
  package an agent that started at the spawn place can go on to every reachable place with a
  record that validates.

  \<^bold>\<open>Friend requests.\<close>
  Friend_Requests models \<^verbatim>\<open>crates/social/src/application/friend_request_service.rs\<close> on the
  tables of \<^verbatim>\<open>crates/social/src/store\<close>: filing, queueing a decision, accepting and settling.
  A decided request stays decided, unless the service had cancelled it as superseded, and a pair has at most one pending request per direction.

  \<^bold>\<open>Security and storage.\<close>
  Event_Log models the hash chain of \<^verbatim>\<open>storage/event_log.rs\<close>: appended logs verify, and no
  row can be changed under an unchanged last hash but in ways its canonical JSON does not show. Hashcash, Admission, Trust and Policy model
  \<^verbatim>\<open>security/hashcash.rs\<close>, \<^verbatim>\<open>admission.rs\<close>, \<^verbatim>\<open>trust.rs\<close>,
  \<^verbatim>\<open>capabilities.rs\<close> and \<^verbatim>\<open>brain/policy_engine.rs\<close>: minted stamps verify, a signed
  handshake is admitted once, the blacklist is exact and high-risk capabilities need an approval.

  \<^bold>\<open>Loops and bounds.\<close>
  The searches of Travel and Space_Routing end by a measure proved for them (unsettled systems;
  unvisited tiles plus the queue). Loops without a bound of their own, the two that follow
  predecessors back, are option-valued partial functions of which it is proved that they return.
  Minting a stamp is bounded by the number of iterations its caller allows, as in the code.

  \<^bold>\<open>Not modelled.\<close>
  Reading and writing registries as JSON files (\<^verbatim>\<open>load_or_new\<close>, \<^verbatim>\<open>persist\<close>), key stores
  and the databases of \<^verbatim>\<open>storage\<close> are I/O. The HTTP and MCP routes of
  \<^verbatim>\<open>crates/control-plane\<close>, the start-up of \<^verbatim>\<open>crates/node-core\<close> and the command line are
  asynchronous glue over sockets and tasks. \<^verbatim>\<open>network/swarm\<close>, \<^verbatim>\<open>servicenet\<close> and the
  brain's engine talk to services outside the repository. The game content, the system
  puzzles, emergencies, metrics, topics and relationships of \<^verbatim>\<open>kernel-core\<close> and the other
  services of \<^verbatim>\<open>crates/social\<close>
  are pure code that the library does not cover yet. Floating-point positions on a path
  (\<^verbatim>\<open>position_at\<close>) would need IEEE arithmetic.
\<close>

end
